(* ===== verification/Prelude.thy ===== *)
theory Prelude
  imports Complex_Main
begin

text \<open>
  Shared vocabulary of the development: the JavaScript string primitives that
  \<open>src/packages/ai/src/middleware/stream-natural-text/natural-response-processor.ts\<close>
  calls (\<open>indexOf\<close>, \<open>js_includes\<close>, \<open>substring\<close>, \<open>trim\<close>, \<open>split\<close>,
  \<open>join\<close>, \<open>endsWith\<close>), written over \<open>string\<close> (a list of \<open>char\<close>).
  A JavaScript string is a sequence of UTF-16 code units; the model covers the
  code units 0 to 255 (Latin-1), which is what an Isabelle \<open>char\<close> holds, so
  \<open>length\<close> here is the code-unit length \<open>s.length\<close> of the source.
  The theory also holds the lemmas on these primitives that the component
  theories share, collected in \<open>js_string_simps\<close>.
\<close>

named_theorems js_string_simps "evaluation and shape rules of the JavaScript string primitives"

type_synonym js_string = string

definition nl :: char where
  "nl = CHR 0x0A"

subsection \<open>Prefix test and \<open>indexOf\<close>\<close>

fun starts_with :: "string \<Rightarrow> string \<Rightarrow> bool" where
  "starts_with [] s = True"
| "starts_with (p # ps) [] = False"
| "starts_with (p # ps) (c # cs) = (p = c \<and> starts_with ps cs)"

text \<open>\<open>find_idx pat s\<close>: the first position at which \<open>pat\<close> occurs in \<open>s\<close>.\<close>

fun find_idx :: "string \<Rightarrow> string \<Rightarrow> nat option" where
  "find_idx pat [] = (if pat = [] then Some 0 else None)"
| "find_idx pat (c # cs) =
     (if starts_with pat (c # cs) then Some 0 else map_option Suc (find_idx pat cs))"

text \<open>
  \<open>s.indexOf(pat, k)\<close>: the search starts at \<open>k\<close> clamped to the length of
  \<open>s\<close>; \<open>None\<close> is the source's \<open>-1\<close>.
\<close>

definition index_of :: "string \<Rightarrow> string \<Rightarrow> nat \<Rightarrow> nat option" where
  "index_of s pat k =
     (let k' = min k (length s) in map_option (\<lambda>i. k' + i) (find_idx pat (drop k' s)))"

text \<open>\<open>s.js_includes(pat)\<close>.\<close>

definition js_includes :: "string \<Rightarrow> string \<Rightarrow> bool" where
  "js_includes s pat \<longleftrightarrow> index_of s pat 0 \<noteq> None"

text \<open>\<open>s.endsWith(suffix)\<close>.\<close>

definition ends_with :: "string \<Rightarrow> string \<Rightarrow> bool" where
  "ends_with s suffix \<longleftrightarrow> starts_with (rev suffix) (rev s)"

subsection \<open>\<open>substring\<close>, \<open>trim\<close>, \<open>split\<close>, \<open>join\<close>\<close>

text \<open>
  \<open>s.substring(a, b)\<close>: both bounds are clamped to the length and swapped when
  \<open>a > b\<close>; \<open>s.substring(a)\<close> is \<open>js_substring s a (length s)\<close>.
\<close>

definition js_substring :: "string \<Rightarrow> nat \<Rightarrow> nat \<Rightarrow> string" where
  "js_substring s a b =
     (let a' = min a (length s); b' = min b (length s)
      in take (max a' b' - min a' b') (drop (min a' b') s))"

text \<open>
  White space as \<open>String.prototype.trim\<close> and the regular-expression class
  \<open>\s\<close> read it, restricted to code units below 256: TAB, LF, VT, FF, CR, SPACE
  and NO-BREAK SPACE.
\<close>

definition is_js_space :: "char \<Rightarrow> bool" where
  "is_js_space c \<longleftrightarrow> (of_char c :: nat) \<in> {9, 10, 11, 12, 13, 32, 160}"

definition js_trim :: "string \<Rightarrow> string" where
  "js_trim s = rev (dropWhile is_js_space (rev (dropWhile is_js_space s)))"

text \<open>\<open>s.split(c)\<close> for a one-character separator: the pieces between separators, empty ones included.\<close>

fun js_split :: "char \<Rightarrow> string \<Rightarrow> string list" where
  "js_split c [] = [[]]"
| "js_split c (x # xs) =
     (let ws = js_split c xs in if x = c then [] # ws else (x # hd ws) # tl ws)"

text \<open>\<open>xs.join(sep)\<close>.\<close>

fun join :: "string \<Rightarrow> string list \<Rightarrow> string" where
  "join sep [] = []"
| "join sep [w] = w"
| "join sep (w # v # ws) = w @ sep @ join sep (v # ws)"

subsection \<open>Lemmas on the primitives\<close>

lemma starts_with_iff [js_string_simps]: "starts_with p s \<longleftrightarrow> (\<exists>r. s = p @ r)"
  by (induction p s rule: starts_with.induct) auto

lemma starts_with_append [intro]: "starts_with p s \<Longrightarrow> starts_with p (s @ t)"
  by (auto simp: starts_with_iff)

lemma starts_with_length: "starts_with p s \<Longrightarrow> length p \<le> length s"
  by (auto simp: starts_with_iff)

lemma starts_with_Nil [simp]: "starts_with p [] \<longleftrightarrow> p = []"
  by (cases p) auto

lemma starts_with_take: "starts_with p s \<longleftrightarrow> take (length p) s = p"
  unfolding starts_with_iff by (metis append_eq_conv_conj append_take_drop_id)

lemma starts_with_appendD:
  "starts_with p (s @ t) \<Longrightarrow> length p \<le> length s \<Longrightarrow> starts_with p s"
  by (simp add: starts_with_take)

lemma find_idx_SomeD:
  "find_idx p s = Some i \<Longrightarrow> starts_with p (drop i s) \<and> i \<le> length s"
  by (induction p s arbitrary: i rule: find_idx.induct) (auto split: if_splits)

lemma find_idx_first:
  "find_idx p s = Some i \<Longrightarrow> j < i \<Longrightarrow> \<not> starts_with p (drop j s)"
proof (induction p s arbitrary: i j rule: find_idx.induct)
  case (2 pat c cs)
  then show ?case by (cases j) (auto split: if_splits)
qed (auto split: if_splits)

lemma find_idx_NoneD:
  "find_idx p s = None \<Longrightarrow> j \<le> length s \<Longrightarrow> \<not> starts_with p (drop j s)"
proof (induction p s arbitrary: j rule: find_idx.induct)
  case (2 pat c cs)
  then show ?case by (cases j) (auto split: if_splits)
qed (auto split: if_splits)

lemma find_idx_None_iff:
  "find_idx p s = None \<longleftrightarrow> (\<forall>j \<le> length s. \<not> starts_with p (drop j s))"
proof
  show "find_idx p s = None \<Longrightarrow> \<forall>j \<le> length s. \<not> starts_with p (drop j s)"
    using find_idx_NoneD by blast
next
  assume none: "\<forall>j \<le> length s. \<not> starts_with p (drop j s)"
  show "find_idx p s = None"
  proof (rule ccontr)
    assume "find_idx p s \<noteq> None"
    then obtain i where "find_idx p s = Some i" by blast
    with none show False by (auto dest: find_idx_SomeD)
  qed
qed

lemma find_idx_Nil_pat [simp]: "find_idx [] s = Some 0"
  by (cases s) auto

lemma find_idx_append:
  "find_idx p s = Some i \<Longrightarrow> find_idx p (s @ t) = Some i"
proof (induction p s arbitrary: i rule: find_idx.induct)
  case (2 pat c cs)
  show ?case
  proof (cases "starts_with pat (c # cs)")
    case True
    with "2.prems" show ?thesis
      using starts_with_append [of pat "c # cs" t] by (auto split: if_splits)
  next
    case False
    with "2.prems" obtain z where z: "find_idx pat cs = Some z" "i = Suc z"
      by (auto split: if_splits)
    from find_idx_SomeD [OF z(1)] have "length pat \<le> length (drop z cs)"
      by (blast intro: starts_with_length)
    then have "length pat \<le> length (c # cs)" by simp
    then have "\<not> starts_with pat (c # cs @ t)"
      using False starts_with_appendD [of pat "c # cs" t] by auto
    with z "2.IH" [OF False z(1)] show ?thesis by simp
  qed
qed (auto split: if_splits)

lemma find_idx_nonempty_lt:
  assumes "find_idx p s = Some i" and "p \<noteq> []"
  shows "i + length p \<le> length s"
proof -
  from find_idx_SomeD [OF assms(1)] have "length p \<le> length (drop i s)"
    by (blast intro: starts_with_length)
  moreover from assms(2) have "0 < length p" by simp
  ultimately show ?thesis by (simp only: length_drop)
qed

lemma index_of_Some:
  "index_of s p k = Some i \<Longrightarrow>
     min k (length s) \<le> i \<and> i \<le> length s \<and> starts_with p (drop i s)"
proof -
  assume "index_of s p k = Some i"
  then obtain z where z: "find_idx p (drop (min k (length s)) s) = Some z"
    and i: "i = min k (length s) + z"
    by (auto simp: index_of_def Let_def)
  from find_idx_SomeD [OF z] i show ?thesis by (auto simp: add.commute le_diff_conv2)
qed

lemma index_of_first:
  "index_of s p k = Some i \<Longrightarrow> k \<le> j \<Longrightarrow> j < i \<Longrightarrow> \<not> starts_with p (drop j s)"
proof -
  assume e: "index_of s p k = Some i" and kj: "k \<le> j" and ji: "j < i"
  from e obtain d where d: "find_idx p (drop (min k (length s)) s) = Some d"
    and i: "i = min k (length s) + d"
    by (auto simp: index_of_def Let_def)
  from i kj ji have "j - min k (length s) < d" by linarith
  from find_idx_first [OF d this]
  have "\<not> starts_with p (drop (j - min k (length s)) (drop (min k (length s)) s))" .
  moreover from kj have "j - min k (length s) + min k (length s) = j" by linarith
  ultimately show ?thesis by simp
qed

lemma index_of_append:
  "index_of s p k = Some i \<Longrightarrow> k \<le> length s \<Longrightarrow> index_of (s @ t) p k = Some i"
  by (auto simp: index_of_def Let_def find_idx_append)

lemma index_of_zero: "index_of s p 0 = find_idx p s"
  by (cases "find_idx p s") (simp_all add: index_of_def)

lemma includes_find_idx [js_string_simps]: "js_includes s p \<longleftrightarrow> find_idx p s \<noteq> None"
  by (simp add: js_includes_def index_of_zero)

lemma index_of_includes: "index_of s p k = Some i \<Longrightarrow> js_includes s p"
  by (auto simp: includes_find_idx find_idx_None_iff dest!: index_of_Some)

lemma all_le_Suc_conv: "(\<forall>k \<le> Suc n. P k) \<longleftrightarrow> P 0 \<and> (\<forall>k \<le> n. P (Suc k))"
  by (metis Suc_le_mono le0 not0_implies_Suc)

lemma includes_append [intro]: "js_includes s p \<Longrightarrow> js_includes (s @ t) p"
  by (auto simp: includes_find_idx dest: find_idx_append)

lemma js_substring_take_drop [js_string_simps]:
  "a \<le> b \<Longrightarrow> b \<le> length s \<Longrightarrow> js_substring s a b = take (b - a) (drop a s)"
  by (simp add: js_substring_def Let_def)

lemma js_substring_from [js_string_simps]: "js_substring s a (length s) = drop a s"
  by (cases "a \<le> length s") (simp_all add: js_substring_def Let_def min_def max_def)

lemma js_substring_append:
  "a \<le> b \<Longrightarrow> b \<le> length s \<Longrightarrow> js_substring (s @ t) a b = js_substring s a b"
  by (simp add: js_substring_def Let_def)

lemma js_trim_Nil_iff [js_string_simps]: "js_trim s = [] \<longleftrightarrow> (\<forall>c \<in> set s. is_js_space c)"
proof -
  let ?d = "dropWhile is_js_space s"
  have "js_trim s = [] \<longleftrightarrow> (\<forall>x \<in> set ?d. is_js_space x)"
    unfolding js_trim_def by (simp only: rev_is_Nil_conv dropWhile_eq_Nil_conv set_rev)
  also have "\<dots> \<longleftrightarrow> ?d = []"
  proof
    assume all: "\<forall>x \<in> set ?d. is_js_space x"
    show "?d = []"
    proof (rule ccontr)
      assume ne: "?d \<noteq> []"
      then have "hd ?d \<in> set ?d" by (rule list.set_sel(1))
      with all hd_dropWhile [OF ne] show False by blast
    qed
  qed (auto dest: set_dropWhileD)
  also have "\<dots> \<longleftrightarrow> (\<forall>c \<in> set s. is_js_space c)"
    by (rule dropWhile_eq_Nil_conv)
  finally show ?thesis .
qed

lemma js_trim_split:
  "\<exists>a b. s = a @ js_trim s @ b \<and> (\<forall>c \<in> set a. is_js_space c) \<and> (\<forall>c \<in> set b. is_js_space c)"
proof -
  let ?d = "dropWhile is_js_space s"
  let ?e = "dropWhile is_js_space (rev ?d)"
  have s: "s = takeWhile is_js_space s @ ?d" by simp
  have r: "rev ?d = takeWhile is_js_space (rev ?d) @ ?e" by simp
  then have "?d = rev ?e @ rev (takeWhile is_js_space (rev ?d))"
    by (metis rev_append rev_rev_ident)
  with s have "s = takeWhile is_js_space s @ js_trim s @ rev (takeWhile is_js_space (rev ?d))"
    by (simp add: js_trim_def)
  then show ?thesis
    by (metis set_rev set_takeWhileD)
qed

lemma js_trim_ends:
  assumes "js_trim s \<noteq> []"
  shows "\<not> is_js_space (hd (js_trim s)) \<and> \<not> is_js_space (last (js_trim s))"
proof -
  let ?d = "dropWhile is_js_space s"
  let ?e = "dropWhile is_js_space (rev ?d)"
  have e: "?e \<noteq> []" using assms by (simp add: js_trim_def)
  then have d: "?d \<noteq> []" by (metis Nil_is_rev_conv dropWhile.simps(1))
  have "hd (js_trim s) = last ?e" using e by (simp add: js_trim_def hd_rev)
  also have "\<dots> = last (rev ?d)"
    using e by (metis last_appendR takeWhile_dropWhile_id)
  also have "\<dots> = hd ?d" using d by (simp add: last_rev)
  finally have hd: "\<not> is_js_space (hd (js_trim s))"
    using d hd_dropWhile by metis
  have "last (js_trim s) = hd ?e" using e by (simp add: js_trim_def last_rev)
  then have "\<not> is_js_space (last (js_trim s))"
    using e hd_dropWhile by metis
  with hd show ?thesis ..
qed

lemma set_join: "set (join sep ws) \<subseteq> set sep \<union> (\<Union>w \<in> set ws. set w)"
  by (induction sep ws rule: join.induct) auto

lemma js_split_not_Nil [simp]: "js_split c s \<noteq> []"
  by (induction s) (auto simp: Let_def)

lemma join_Cons_nonempty: "ws \<noteq> [] \<Longrightarrow> join sep (w # ws) = w @ sep @ join sep ws"
  by (cases ws) auto

lemma join_Cons_hd:
  "ws \<noteq> [] \<Longrightarrow> join sep ((x # hd ws) # tl ws) = x # join sep ws"
proof (cases ws)
  case (Cons w vs)
  then show ?thesis by (cases vs) auto
qed simp

lemma join_js_split [js_string_simps]: "join [c] (js_split c s) = s"
proof (induction s)
  case Nil
  then show ?case by simp
next
  case (Cons x xs)
  have ne: "js_split c xs \<noteq> []" by simp
  show ?case
  proof (cases "x = c")
    case True
    then show ?thesis using Cons.IH ne by (simp add: Let_def join_Cons_nonempty)
  next
    case False
    then show ?thesis using Cons.IH ne by (simp add: Let_def join_Cons_hd)
  qed
qed

lemma js_split_no_sep: "w \<in> set (js_split c s) \<Longrightarrow> c \<notin> set w"
proof (induction s arbitrary: w)
  case Nil
  then show ?case by simp
next
  case (Cons x xs)
  let ?ws = "js_split c xs"
  have ne: "?ws \<noteq> []" by simp
  show ?case
  proof (cases "x = c")
    case True
    with Cons.prems have "w = [] \<or> w \<in> set ?ws" by (simp add: Let_def)
    with Cons.IH show ?thesis by auto
  next
    case False
    with Cons.prems have "w = x # hd ?ws \<or> w \<in> set (tl ?ws)" by (simp add: Let_def)
    moreover have "c \<notin> set (hd ?ws)" using Cons.IH ne by (simp add: list.set_sel(1))
    moreover have "\<And>v. v \<in> set (tl ?ws) \<Longrightarrow> c \<notin> set v"
      using Cons.IH ne by (simp add: list.set_sel(2))
    ultimately show ?thesis using False by auto
  qed
qed


text \<open>Splitting undoes joining, when no piece holds the separator.\<close>

lemma js_split_no_sep_id: "c \<notin> set w \<Longrightarrow> js_split c w = [w]"
  by (induction w) (auto simp: Let_def)

lemma js_split_append_sep: "c \<notin> set w \<Longrightarrow> js_split c (w @ c # r) = w # js_split c r"
  by (induction w) (auto simp: Let_def)

lemma js_split_join [js_string_simps]:
  "ws \<noteq> [] \<Longrightarrow> \<forall>w \<in> set ws. c \<notin> set w \<Longrightarrow> js_split c (join [c] ws) = ws"
proof (induction ws)
  case (Cons w ws)
  then show ?case
    by (cases "ws = []") (simp_all add: js_split_no_sep_id join_Cons_nonempty js_split_append_sep)
qed simp


text \<open>A non-empty list is its \<open>butlast\<close> and its \<open>last\<close>, also under \<open>map\<close>.\<close>

lemma map_butlast_last: "xs \<noteq> [] \<Longrightarrow> map f (butlast xs) @ [f (last xs)] = map f xs"
  by (induction xs) auto

end
