(* ===== verification/ThoughtExtractor.thy ===== *)
theory ThoughtExtractor
  imports Prelude
begin

text \<open>
  The Thought Extractor: the part of \<open>consumeGPT4Thoughts\<close>
  (\<open>natural-response-processor.ts\<close>, lines 224--280) that reads the reasoning
  model's stream, appends every \<open>text-delta\<close> to a buffer and cuts complete
  \<open>[bt]\<dots>[et]\<close> units out of it.  The inner \<open>while\<close> loop (lines 251--270) is
  \<open>extract_loop\<close>, a \<^theory_text>\<open>partial_function (option)\<close>, because it can spin
  forever: when the buffer holds both markers but no \<open>[et]\<close> after its first
  \<open>[bt]\<close>, the loop body changes nothing.  \<open>extract_spec\<close> is the algorithm of
  the spec (section 4.1), total by a length measure.  The main results:
  \<^item> \<open>extract_loop_spec\<close>: the loop returns exactly what the spec's algorithm
    computes, unless the residual buffer holds both markers, where it never returns;
  \<^item> \<open>extract_spec_append\<close>: the spec's algorithm is insensitive to where a
    chunk boundary falls;
  \<^item> \<open>consume_parts\<close> (the whole stream) returns the thoughts of the
    concatenated text, and hangs exactly when some prefix leaves a stuck residual.
\<close>

subsection \<open>Markers and stream parts\<close>

definition bt_marker :: string where
  "bt_marker = ''[bt]''"

definition et_marker :: string where
  "et_marker = ''[et]''"

text \<open>
  A part of the reasoning stream (\<open>LanguageModelV2StreamPart\<close>): only a
  \<open>text-delta\<close> carries text, with its id and delta; every other part is kept by
  its type tag only, since the consumer ignores it.
\<close>

datatype stream_part = TextDelta string string | OtherPart string

subsection \<open>The extraction loop of the source\<close>

text \<open>
  One pass of the \<open>while\<close> loop: the guard \<open>buffer.includes('[bt]') &&
  buffer.includes('[et]')\<close>, the two \<open>indexOf\<close> calls, the trimmed content,
  the push when it is non-empty, and the cut \<open>buffer.substring(etIndex + 4)\<close>.
  When either index is \<open>-1\<close> the body does nothing and the loop goes round again.
\<close>

partial_function (option) extract_loop ::
  "string \<Rightarrow> string list \<Rightarrow> (string \<times> string list) option" where
  "extract_loop buffer thoughts =
     (if js_includes buffer bt_marker \<and> js_includes buffer et_marker then
        (case index_of buffer bt_marker 0 of
           None \<Rightarrow> extract_loop buffer thoughts
         | Some bt_index \<Rightarrow>
             (case index_of buffer et_marker bt_index of
                None \<Rightarrow> extract_loop buffer thoughts
              | Some et_index \<Rightarrow>
                  (let thought_content = js_trim (js_substring buffer (bt_index + 4) et_index)
                   in extract_loop (js_substring buffer (et_index + 4) (length buffer))
                        (if thought_content \<noteq> [] then thoughts @ [thought_content]
                         else thoughts))))
      else Some (buffer, thoughts))"

text \<open>
  One read of the stream (lines 235--246): a \<open>text-delta\<close> is appended to the
  buffer and the extraction loop runs; any other part is ignored.
\<close>

definition consume_part ::
  "string \<Rightarrow> string list \<Rightarrow> stream_part \<Rightarrow> (string \<times> string list) option" where
  "consume_part buffer thoughts part =
     (case part of
        TextDelta _ chunk \<Rightarrow> extract_loop (buffer @ chunk) thoughts
      | OtherPart _ \<Rightarrow> Some (buffer, thoughts))"

text \<open>The outer \<open>while (true)\<close> loop over the reads, until the stream is done.\<close>

fun consume_parts ::
  "string \<Rightarrow> string list \<Rightarrow> stream_part list \<Rightarrow> (string \<times> string list) option" where
  "consume_parts buffer thoughts [] = Some (buffer, thoughts)"
| "consume_parts buffer thoughts (p # ps) =
     (case consume_part buffer thoughts p of
        None \<Rightarrow> None
      | Some (buffer', thoughts') \<Rightarrow> consume_parts buffer' thoughts' ps)"

definition part_text :: "stream_part \<Rightarrow> string" where
  "part_text p = (case p of TextDelta _ d \<Rightarrow> d | OtherPart _ \<Rightarrow> [])"

definition stream_text :: "stream_part list \<Rightarrow> string" where
  "stream_text ps = concat (map part_text ps)"

subsection \<open>The spec's algorithm\<close>

text \<open>
  Section 4.1 of the spec: locate the first \<open>[bt]\<close> at \<open>b\<close> and the first
  \<open>[et]\<close> at or after \<open>b\<close>; emit the trimmed body if non-empty; keep what
  follows the \<open>[et]\<close>; stop when there is no such pair.  The result is the list
  of thoughts and the residual buffer.
\<close>

definition marker_body :: "string \<Rightarrow> nat \<Rightarrow> nat \<Rightarrow> string" where
  "marker_body buf b e = js_trim (take (e - (b + 4)) (drop (b + 4) buf))"

definition keep_thought :: "string \<Rightarrow> string list" where
  "keep_thought c = (if c = [] then [] else [c])"

function extract_spec :: "string \<Rightarrow> string list \<times> string" where
  "extract_spec buf =
     (case find_idx bt_marker buf of
        None \<Rightarrow> ([], buf)
      | Some b \<Rightarrow>
          (case index_of buf et_marker b of
             None \<Rightarrow> ([], buf)
           | Some e \<Rightarrow>
               (case extract_spec (drop (e + 4) buf) of
                  (ts, rest) \<Rightarrow> (keep_thought (marker_body buf b e) @ ts, rest))))"
  by pat_completeness auto
termination
proof (relation "measure length")
  fix buf b
  assume "find_idx bt_marker buf = Some b"
  from find_idx_nonempty_lt [OF this] have "buf \<noteq> []"
    by (auto simp: bt_marker_def)
  then show "\<And>e. (drop (e + 4) buf, buf) \<in> measure length" by simp
qed simp

text \<open>
  The loop makes no progress exactly when its guard holds and one of the two
  \<open>indexOf\<close> calls fails: the buffer holds both markers, but no \<open>[et]\<close>
  at or after its first \<open>[bt]\<close>.
\<close>

definition stalls :: "string \<Rightarrow> bool" where
  "stalls buf \<longleftrightarrow>
     js_includes buf bt_marker \<and> js_includes buf et_marker \<and>
     (case index_of buf bt_marker 0 of
        None \<Rightarrow> True
      | Some b \<Rightarrow> index_of buf et_marker b = None)"

text \<open>The loop's guard: a buffer that holds both markers.\<close>

definition both_markers :: "string \<Rightarrow> bool" where
  "both_markers buf \<longleftrightarrow> js_includes buf bt_marker \<and> js_includes buf et_marker"

subsection \<open>Lemmas on markers and on the spec's algorithm\<close>

declare extract_spec.simps [simp del]

lemma length_markers [simp]: "length bt_marker = 4" "length et_marker = 4"
  by (simp_all add: bt_marker_def et_marker_def)

lemma markers_not_Nil [simp]: "bt_marker \<noteq> []" "et_marker \<noteq> []"
  by (simp_all add: bt_marker_def et_marker_def)

text \<open>The \<open>[et]\<close> found from a \<open>[bt]\<close> lies wholly after it and inside the buffer.\<close>

lemma et_after_bt:
  assumes b: "find_idx bt_marker buf = Some b"
    and e: "index_of buf et_marker b = Some e"
  shows "b + 4 \<le> e \<and> e + 4 \<le> length buf"
proof -
  from find_idx_SomeD [OF b] obtain r where r: "drop b buf = bt_marker @ r"
    and bl: "b \<le> length buf"
    by (auto simp: starts_with_iff)
  from index_of_Some [OF e] bl obtain r' where be: "b \<le> e"
    and r': "drop e buf = et_marker @ r'"
    by (auto simp: starts_with_iff)
  have "\<not> e < b + 4"
  proof
    assume lt: "e < b + 4"
    define k where "k = e - b"
    with be lt have ek: "e = b + k" and k4: "k < 4" by simp_all
    have d: "drop k (bt_marker @ r) = et_marker @ r'"
      using r r' ek by (metis add.commute drop_drop)
    from k4 consider "k = 0" | "k = 1" | "k = 2" | "k = 3" by linarith
    then show False
      using d by cases (simp_all add: bt_marker_def et_marker_def)
  qed
  moreover have "e + 4 \<le> length buf"
  proof -
    from r' have "length (drop e buf) = 4 + length r'" by simp
    then show ?thesis by simp
  qed
  ultimately show ?thesis by simp
qed

lemma extract_spec_no_bt:
  "find_idx bt_marker buf = None \<Longrightarrow> extract_spec buf = ([], buf)"
  by (simp add: extract_spec.simps [of buf])

lemma extract_spec_no_et:
  "find_idx bt_marker buf = Some b \<Longrightarrow> index_of buf et_marker b = None \<Longrightarrow>
     extract_spec buf = ([], buf)"
  by (simp add: extract_spec.simps [of buf])

lemma extract_spec_step:
  "find_idx bt_marker buf = Some b \<Longrightarrow> index_of buf et_marker b = Some e \<Longrightarrow>
     extract_spec buf =
       (keep_thought (marker_body buf b e) @ fst (extract_spec (drop (e + 4) buf)),
        snd (extract_spec (drop (e + 4) buf)))"
  by (simp add: extract_spec.simps [of buf] split: prod.split)

lemmas extract_spec_eqs = extract_spec_no_bt extract_spec_no_et extract_spec_step

subsection \<open>The loop against the spec's algorithm\<close>

lemma extract_loop_done:
  "\<not> both_markers buf \<Longrightarrow> extract_loop buf ts = Some (buf, ts)"
  by (auto simp: extract_loop.simps [of buf] both_markers_def)

lemma extract_loop_step:
  assumes b: "find_idx bt_marker buf = Some b" and e: "index_of buf et_marker b = Some e"
  shows "extract_loop buf ts =
           extract_loop (drop (e + 4) buf) (ts @ keep_thought (marker_body buf b e))"
proof -
  from et_after_bt [OF b e] have le: "b + 4 \<le> e" "e \<le> length buf" by simp_all
  have guard: "js_includes buf bt_marker \<and> js_includes buf et_marker"
    using b index_of_includes [OF e] by (simp add: includes_find_idx)
  have sub: "js_substring buf (b + 4) e = take (e - (b + 4)) (drop (b + 4) buf)"
    using le by (simp add: js_substring_take_drop)
  show ?thesis
    using guard b e sub
    by (simp add: extract_loop.simps [of buf] index_of_zero js_substring_from
        marker_body_def keep_thought_def)
qed

lemma extract_loop_Some_not_stalls:
  assumes ret: "extract_loop buf ts = Some r"
  shows "\<not> stalls buf"
  apply (rule extract_loop.raw_induct [where P = "\<lambda>buf ts r. \<not> stalls buf", OF _ ret])
  subgoal premises prems for f buffer thoughts r'
  proof
    assume st: "stalls buffer"
    then have g: "js_includes buffer bt_marker \<and> js_includes buffer et_marker"
      by (simp add: stalls_def)
    from st g obtain b where b: "index_of buffer bt_marker 0 = Some b"
      and e: "index_of buffer et_marker b = None"
      by (auto simp: stalls_def index_of_zero includes_find_idx split: option.splits)
    from prems(2) g b e have "f buffer thoughts = Some r'" by simp
    from prems(1) [OF this] st show False by simp
  qed
  done

lemma extract_loop_stalls: "stalls buf \<Longrightarrow> extract_loop buf ts = None"
  by (cases "extract_loop buf ts") (auto dest: extract_loop_Some_not_stalls)

text \<open>
  The extraction loop computes the spec's algorithm: it returns the spec's residual
  and appends the spec's thoughts, unless that residual still holds both markers,
  where the loop spins and never returns.
\<close>

lemma extract_loop_eq_spec:
  "extract_loop buf ts =
     (if both_markers (snd (extract_spec buf)) then None
      else Some (snd (extract_spec buf), ts @ fst (extract_spec buf)))"
proof (induction buf arbitrary: ts rule: extract_spec.induct)
  case (1 buf)
  show ?case
  proof (cases "find_idx bt_marker buf")
    case None
    then have "\<not> both_markers buf" by (simp add: both_markers_def includes_find_idx)
    with None show ?thesis by (simp add: extract_loop_done extract_spec_no_bt)
  next
    case (Some b)
    note b = Some
    show ?thesis
    proof (cases "index_of buf et_marker b")
      case None
      note e = None
      show ?thesis
      proof (cases "js_includes buf et_marker")
        case True
        with b e have "stalls buf"
          by (simp add: stalls_def index_of_zero includes_find_idx)
        moreover from True b have "both_markers buf"
          by (simp add: both_markers_def includes_find_idx)
        ultimately show ?thesis using b e by (simp add: extract_loop_stalls extract_spec_no_et)
      next
        case False
        then have "\<not> both_markers buf" by (simp add: both_markers_def)
        with b e show ?thesis by (simp add: extract_loop_done extract_spec_no_et)
      qed
    next
      case (Some e)
      note e = Some
      show ?thesis
        using "1.IH" [OF b e] by (simp add: extract_loop_step [OF b e] extract_spec_step [OF b e])
    qed
  qed
qed

lemma extract_spec_rest: "extract_spec (snd (extract_spec s)) = ([], snd (extract_spec s))"
proof (induction s rule: extract_spec.induct)
  case (1 buf)
  show ?case
  proof (cases "find_idx bt_marker buf")
    case None
    then show ?thesis by (simp add: extract_spec_no_bt)
  next
    case (Some b)
    note b = Some
    show ?thesis
    proof (cases "index_of buf et_marker b")
      case None
      with b show ?thesis by (simp add: extract_spec_no_et)
    next
      case (Some e)
      with b "1.IH" show ?thesis by (simp add: extract_spec_step)
    qed
  qed
qed

text \<open>Where a chunk boundary falls does not change what the spec's algorithm extracts.\<close>

lemma extract_spec_append:
  "extract_spec (a @ c) =
     (fst (extract_spec a) @ fst (extract_spec (snd (extract_spec a) @ c)),
      snd (extract_spec (snd (extract_spec a) @ c)))"
proof (induction a rule: extract_spec.induct)
  case (1 a)
  show ?case
  proof (cases "find_idx bt_marker a")
    case None
    then show ?thesis by (simp add: extract_spec_no_bt)
  next
    case (Some b)
    note b = Some
    show ?thesis
    proof (cases "index_of a et_marker b")
      case None
      with b show ?thesis by (simp add: extract_spec_no_et)
    next
      case (Some e)
      note e = Some
      from et_after_bt [OF b e] have le: "b + 4 \<le> e" "e + 4 \<le> length a" by simp_all
      have b': "find_idx bt_marker (a @ c) = Some b" using b by (rule find_idx_append)
      have e': "index_of (a @ c) et_marker b = Some e"
        using e le by (intro index_of_append) simp_all
      have body: "marker_body (a @ c) b e = marker_body a b e"
        using le by (simp add: marker_body_def)
      have dr: "e + 4 - length a = 0"
        using le by simp
      show ?thesis
        using "1.IH" [OF b e]
        by (simp add: extract_spec_step [OF b e] extract_spec_step [OF b' e'] body dr)
    qed
  qed
qed

lemma extract_spec_Nil [simp]: "extract_spec [] = ([], [])"
  by (simp add: extract_spec_no_bt)

subsection \<open>The consumer over a whole stream\<close>

lemma stream_text_simps [simp]:
  "stream_text [] = []"
  "stream_text (TextDelta i d # ps) = d @ stream_text ps"
  "stream_text (OtherPart t # ps) = stream_text ps"
  by (simp_all add: stream_text_def part_text_def)

lemma consume_parts_spec:
  assumes "extract_spec b = ([], b)" and "consume_parts b ts0 ps = Some (buf, ts)"
  shows "ts = ts0 @ fst (extract_spec (b @ stream_text ps)) \<and>
         buf = snd (extract_spec (b @ stream_text ps))"
  using assms
proof (induction ps arbitrary: b ts0)
  case Nil
  then show ?case by simp
next
  case (Cons p ps)
  show ?case
  proof (cases p)
    case (OtherPart tag)
    with Cons show ?thesis by (simp add: consume_part_def)
  next
    case (TextDelta i d)
    let ?r = "extract_spec (b @ d)"
    from Cons.prems(2) TextDelta obtain b' ts' where
      loop: "extract_loop (b @ d) ts0 = Some (b', ts')" and
      rest: "consume_parts b' ts' ps = Some (buf, ts)"
      by (auto simp: consume_part_def split: option.splits)
    from loop have b': "b' = snd ?r" and ts': "ts' = ts0 @ fst ?r"
      by (auto simp: extract_loop_eq_spec split: if_splits)
    have "extract_spec b' = ([], b')" using b' extract_spec_rest by simp
    from Cons.IH [OF this rest] b' ts' TextDelta show ?thesis
      using extract_spec_append [of "b @ d" "stream_text ps"] by simp
  qed
qed

lemma consume_parts_returns:
  assumes "extract_spec b = ([], b)" and "\<not> both_markers b"
  shows "consume_parts b ts0 ps \<noteq> None \<longleftrightarrow>
           (\<forall>k \<le> length ps. \<not> both_markers (snd (extract_spec (b @ stream_text (take k ps)))))"
  using assms
proof (induction ps arbitrary: b ts0)
  case Nil
  then show ?case by simp
next
  case (Cons p ps)
  have split: "(\<forall>k \<le> length (p # ps).
                 \<not> both_markers (snd (extract_spec (b @ stream_text (take k (p # ps)))))) \<longleftrightarrow>
               (\<forall>k \<le> length ps.
                 \<not> both_markers (snd (extract_spec (b @ stream_text (p # take k ps)))))"
    using Cons.prems by (simp only: length_Cons all_le_Suc_conv take_Suc_Cons take_0) simp
  show ?case
  proof (cases p)
    case (OtherPart tag)
    with Cons split show ?thesis by (simp add: consume_part_def)
  next
    case (TextDelta i d)
    let ?r = "extract_spec (b @ d)"
    have app: "\<And>k. snd (extract_spec (b @ d @ stream_text (take k ps))) =
                     snd (extract_spec (snd ?r @ stream_text (take k ps)))"
      using extract_spec_append [of "b @ d"] by simp
    show ?thesis
    proof (cases "both_markers (snd ?r)")
      case True
      then have "consume_parts b ts0 (p # ps) = None"
        using TextDelta by (simp add: consume_part_def extract_loop_eq_spec)
      moreover have "\<not> (\<forall>k \<le> length ps. \<not> both_markers
                         (snd (extract_spec (b @ stream_text (p # take k ps)))))"
        using True TextDelta by (auto intro: exI [of _ 0])
      ultimately show ?thesis using split by simp
    next
      case False
      have closed: "extract_spec (snd ?r) = ([], snd ?r)" by (rule extract_spec_rest)
      have "consume_parts b ts0 (p # ps) = consume_parts (snd ?r) (ts0 @ fst ?r) ps"
        using False TextDelta by (simp add: consume_part_def extract_loop_eq_spec)
      then show ?thesis
        using Cons.IH [OF closed False] split TextDelta app by simp
    qed
  qed
qed

lemma extract_spec_trimmed:
  "t \<in> set (fst (extract_spec s)) \<Longrightarrow>
     t \<noteq> [] \<and> \<not> is_js_space (hd t) \<and> \<not> is_js_space (last t)"
proof (induction s rule: extract_spec.induct)
  case (1 buf)
  show ?case
  proof (cases "find_idx bt_marker buf")
    case None
    with "1.prems" show ?thesis by (simp add: extract_spec_no_bt)
  next
    case (Some b)
    note b = Some
    show ?thesis
    proof (cases "index_of buf et_marker b")
      case None
      with b "1.prems" show ?thesis by (simp add: extract_spec_no_et)
    next
      case (Some e)
      note e = Some
      from "1.prems" b e
      have "t \<in> set (keep_thought (marker_body buf b e)) \<or>
            t \<in> set (fst (extract_spec (drop (e + 4) buf)))"
        by (simp add: extract_spec_step)
      then show ?thesis
      proof
        assume "t \<in> set (keep_thought (marker_body buf b e))"
        then have "t = marker_body buf b e" and "t \<noteq> []"
          by (simp_all add: keep_thought_def split: if_splits)
        then show ?thesis using js_trim_ends by (simp add: marker_body_def)
      next
        assume "t \<in> set (fst (extract_spec (drop (e + 4) buf)))"
        then show ?thesis by (rule "1.IH" [OF b e])
      qed
    qed
  qed
qed

lemmas extract_eval_simps = consume_part_def extract_loop.simps js_trim_def is_js_space_def
  index_of_def js_substring_def bt_marker_def et_marker_def js_includes_def
  both_markers_def extract_spec.simps

subsection \<open>Properties of the consumer\<close>

text \<open>
  C1.  Split-marker robustness: when the consumer finishes a reasoning stream, the
  thoughts it has appended are exactly those of the spec's extraction algorithm run
  on the concatenation of all text deltas, and the buffer it keeps is that
  algorithm's residual, however the text was cut into chunks.
\<close>

theorem consume_parts_thoughts:
  "consume_parts [] [] ps = Some (buf, ts) \<Longrightarrow>
     ts = fst (extract_spec (stream_text ps)) \<and> buf = snd (extract_spec (stream_text ps))"
  using consume_parts_spec [of "[]" "[]" ps buf ts] by simp

theorem consume_parts_thoughts_witness:
  "consume_parts [] []
     [TextDelta ''1'' ''[bt]ML is AI su'',
      TextDelta ''1'' ''bset[et] <|sil|> [bt]It trains on da'', TextDelta ''1'' ''ta[et]''] =
     Some ([], [''ML is AI subset'', ''It trains on data'']) \<and>
   [''ML is AI subset'', ''It trains on data''] =
     fst (extract_spec (stream_text
       [TextDelta ''1'' ''[bt]ML is AI su'',
        TextDelta ''1'' ''bset[et] <|sil|> [bt]It trains on da'', TextDelta ''1'' ''ta[et]'']))"
proof -
  have run: "consume_parts [] []
     [TextDelta ''1'' ''[bt]ML is AI su'',
      TextDelta ''1'' ''bset[et] <|sil|> [bt]It trains on da'', TextDelta ''1'' ''ta[et]''] =
     Some ([], [''ML is AI subset'', ''It trains on data''])"
    by (simp add: extract_eval_simps)
  from consume_parts_thoughts [OF run] run show ?thesis by simp
qed

text \<open>
  C2.  The consumer returns from a stream exactly when no prefix of the stream
  leaves a residual buffer that holds both markers; otherwise the synchronous
  extraction loop spins on that residual for ever.  Such a residual is one where
  an \<open>[et]\<close> precedes the last \<open>[bt]\<close> with no \<open>[et]\<close> after it, so whether the
  consumer hangs depends on where the chunk boundaries fall.
\<close>

theorem consume_parts_returns_iff:
  "consume_parts [] [] ps \<noteq> None \<longleftrightarrow>
     (\<forall>k \<le> length ps. \<not> both_markers (snd (extract_spec (stream_text (take k ps)))))"
proof -
  have "\<not> both_markers []" by (simp add: both_markers_def includes_find_idx)
  then show ?thesis using consume_parts_returns [of "[]" "[]" ps] by simp
qed

theorem consume_parts_returns_iff_witness:
  "consume_parts [] [] [TextDelta ''1'' ''[et][bt]a'', TextDelta ''1'' ''[et]''] = None \<and>
   consume_parts [] [] [TextDelta ''1'' ''[et][bt]a[et]''] = Some ([], [''a''])"
proof -
  have stuck: "both_markers (snd (extract_spec (stream_text
                 (take 1 [TextDelta ''1'' ''[et][bt]a'', TextDelta ''1'' ''[et]'']))))"
    by (simp add: extract_eval_simps)
  have "\<not> (\<forall>k \<le> length [TextDelta ''1'' ''[et][bt]a'', TextDelta ''1'' ''[et]''].
           \<not> both_markers (snd (extract_spec (stream_text
              (take k [TextDelta ''1'' ''[et][bt]a'', TextDelta ''1'' ''[et]''])))))"
  proof
    assume "\<forall>k \<le> length [TextDelta ''1'' ''[et][bt]a'', TextDelta ''1'' ''[et]''].
              \<not> both_markers (snd (extract_spec (stream_text
                 (take k [TextDelta ''1'' ''[et][bt]a'', TextDelta ''1'' ''[et]'']))))"
    then have "1 \<le> length [TextDelta ''1'' ''[et][bt]a'', TextDelta ''1'' ''[et]''] \<longrightarrow>
               \<not> both_markers (snd (extract_spec (stream_text
                 (take 1 [TextDelta ''1'' ''[et][bt]a'', TextDelta ''1'' ''[et]'']))))"
      by (rule spec)
    then have "\<not> both_markers (snd (extract_spec (stream_text
                 (take 1 [TextDelta ''1'' ''[et][bt]a'', TextDelta ''1'' ''[et]'']))))"
      by simp
    with stuck show False by contradiction
  qed
  then have "consume_parts [] [] [TextDelta ''1'' ''[et][bt]a'', TextDelta ''1'' ''[et]''] = None"
    using consume_parts_returns_iff [of "[TextDelta ''1'' ''[et][bt]a'', TextDelta ''1'' ''[et]'']"]
    by blast
  moreover have "consume_parts [] [] [TextDelta ''1'' ''[et][bt]a[et]''] = Some ([], [''a''])"
    by (simp add: extract_eval_simps)
  ultimately show ?thesis by simp
qed

text \<open>
  C3.  Every thought the consumer appends is non-empty and trimmed: it neither
  starts nor ends with white space, so an all-white-space body between markers
  yields no thought.
\<close>

theorem consume_parts_trimmed:
  "consume_parts [] [] ps = Some (buf, ts) \<Longrightarrow> t \<in> set ts \<Longrightarrow>
     t \<noteq> [] \<and> \<not> is_js_space (hd t) \<and> \<not> is_js_space (last t)"
  using consume_parts_spec [of "[]" "[]" ps buf ts] extract_spec_trimmed by auto

theorem consume_parts_trimmed_witness:
  "consume_parts [] [] [TextDelta ''7'' ''[bt]  [et][bt] x [et]''] = Some ([], [''x'']) \<and>
   ''x'' \<noteq> [] \<and> \<not> is_js_space (hd ''x'') \<and> \<not> is_js_space (last ''x'')"
proof -
  have run: "consume_parts [] [] [TextDelta ''7'' ''[bt]  [et][bt] x [et]''] = Some ([], [''x''])"
    by (simp add: extract_eval_simps)
  have "''x'' \<in> set [''x'']" by simp
  from consume_parts_trimmed [OF run this] run show ?thesis by simp
qed

end
