(* ===== verification/Delivery.thy ===== *)
theory Delivery
  imports Prelude
begin

text \<open>
  The Delivery Generator of \<open>natural-response-processor.ts\<close>: the prompts of
  \<open>emitImmediateResponse\<close> (line 89) and \<open>generateResponseForLatestThought\<close>
  (lines 286--323), and \<open>callSmolLMForSentence\<close> (lines 329--371) split into
  the request it builds (\<open>build_request\<close>), the way it reads the reply
  (\<open>call_result\<close>, errors as \<open>Inl\<close>) and the chain of regular-expression
  replacements that cleans the reply (\<open>clean_response\<close>).  The delivery server
  is a parameter \<open>server :: chat_request \<Rightarrow> http_outcome\<close>: any reply, or a
  network failure, is possible.
\<close>

subsection \<open>Configuration and request\<close>

datatype fallback = Passthrough | Silence

text \<open>
  \<open>StreamNaturalTextConfig\<close> (\<open>types.ts\<close>, lines 9--15).  A JavaScript
  number is a \<open>real\<close> (no NaN); an absent optional field is \<open>None\<close>; the
  metrics callback is modelled by whether it is present, its calls being the
  metrics log of the controller.
\<close>

record stream_config =
  huggingface_endpoint_url :: string
  huggingface_api_key :: string
  temperature :: "real option"
  fallback_behavior :: "fallback option"
  on_metrics_update :: bool

text \<open>The JSON body and headers of the \<open>fetch\<close> call (lines 330--351).\<close>

record chat_request =
  req_url :: string
  req_authorization :: string
  req_model :: string
  req_messages :: "(string \<times> string) list"
  req_max_tokens :: nat
  req_temperature :: real
  req_stream :: bool

definition chat_completions_suffix :: string where
  "chat_completions_suffix = ''/v1/chat/completions''"

text \<open>Lines 340--342.\<close>

definition tgi_url :: "string \<Rightarrow> string" where
  "tgi_url url =
     (if ends_with url chat_completions_suffix then url else url @ chat_completions_suffix)"

text \<open>\<open>this.config.temperature || 0.7\<close> (line 336): every falsy value, \<open>0\<close> included, becomes 0.7.\<close>

definition effective_temperature :: "real option \<Rightarrow> real" where
  "effective_temperature t = (case t of None \<Rightarrow> 7 / 10 | Some x \<Rightarrow> if x = 0 then 7 / 10 else x)"

definition build_request :: "stream_config \<Rightarrow> string \<Rightarrow> chat_request" where
  "build_request cfg prompt =
     \<lparr>req_url = tgi_url (huggingface_endpoint_url cfg),
      req_authorization = ''Bearer '' @ huggingface_api_key cfg,
      req_model = ''tgi'',
      req_messages = [(''user'', prompt)],
      req_max_tokens = 50,
      req_temperature = effective_temperature (temperature cfg),
      req_stream = False\<rparr>"

subsection \<open>Prompts\<close>

definition chat_turn :: "string \<Rightarrow> string \<Rightarrow> string" where
  "chat_turn role body = ''<|im_start|>'' @ role @ [nl] @ body @ ''<|im_end|>'' @ [nl]"

definition assistant_open :: string where
  "assistant_open = ''<|im_start|>assistant'' @ [nl]"

text \<open>The prompt of the immediate response (line 89): the user turn alone.\<close>

definition immediate_prompt :: "string \<Rightarrow> string" where
  "immediate_prompt user_input = chat_turn ''user'' user_input @ assistant_open"

text \<open>
  \<open>arr[i]\<close> inside a template literal: out of range it is \<open>undefined\<close>, which
  the template prints as the text \<open>undefined\<close>.
\<close>

definition js_index :: "string list \<Rightarrow> nat \<Rightarrow> string" where
  "js_index xs i = (if i < length xs then xs ! i else ''undefined'')"

text \<open>Lines 289--307: the prompt built from the dialogue state.\<close>

definition build_prompt :: "string \<Rightarrow> string list \<Rightarrow> string list \<Rightarrow> string" where
  "build_prompt user_input thoughts responses =
     chat_turn ''user'' user_input @
     (if length responses = 0 then chat_turn ''knowledge'' (js_index thoughts 0)
      else concat (map (\<lambda>i. chat_turn ''knowledge'' (js_index thoughts i) @
                            chat_turn ''assistant'' (js_index responses i))
                       [0..<length responses]) @
           (if length thoughts > length responses
            then chat_turn ''knowledge'' (js_index thoughts (length responses)) else [])) @
     assistant_open"

subsection \<open>Cleaning the reply\<close>

text \<open>
  The replacements of lines 362--370.  A literal global pattern
  (\<open>/<\|im_start\|>/g\<close>) removes its occurrences from left to right; a
  case-insensitive word pattern (\<open>/\bassistant\b/gi\<close>) removes an occurrence
  only where the characters around it in the original string are not word
  characters; \<open>/^assistant\s*/i\<close> and \<open>/^\s*knowledge\s*/i\<close> act once at the
  start.  Case folding under \<open>/i\<close> without \<open>/u\<close> only relates ASCII letters
  among the code units below 256.
\<close>

text \<open>
  A text character \<open>c\<close> matches a lower-case pattern character \<open>p\<close> under
  \<open>/i\<close>: it is \<open>p\<close>, or \<open>p\<close> is a letter and \<open>c\<close> its upper-case form.
\<close>

definition ci_eq :: "char \<Rightarrow> char \<Rightarrow> bool" where
  "ci_eq p c \<longleftrightarrow>
     c = p \<or> ((of_char p :: nat) \<in> {97..122} \<and> (of_char c :: nat) + 32 = of_char p)"

definition is_word_char :: "char \<Rightarrow> bool" where
  "is_word_char c \<longleftrightarrow>
     (of_char c :: nat) \<in> {48..57} \<union> {65..90} \<union> {97..122} \<union> {95}"

text \<open>Case-insensitive prefix test against a lower-case pattern.\<close>

fun starts_with_ci :: "string \<Rightarrow> string \<Rightarrow> bool" where
  "starts_with_ci [] s = True"
| "starts_with_ci (p # ps) [] = False"
| "starts_with_ci (p # ps) (c # cs) = (ci_eq p c \<and> starts_with_ci ps cs)"

function remove_all :: "string \<Rightarrow> string \<Rightarrow> string" where
  "remove_all pat [] = []"
| "remove_all pat (c # cs) =
     (if pat \<noteq> [] \<and> starts_with pat (c # cs)
      then remove_all pat (drop (length pat) (c # cs))
      else c # remove_all pat cs)"
  by pat_completeness auto
termination
  by (relation "measure (\<lambda>(pat, s). length s)") auto

text \<open>
  \<open>remove_word_ci w pw s\<close>: \<open>pw\<close> says whether the character before \<open>s\<close> in
  the original string is a word character.  After a match that character is the
  last letter of the match.
\<close>

function remove_word_ci :: "string \<Rightarrow> bool \<Rightarrow> string \<Rightarrow> string" where
  "remove_word_ci w pw [] = []"
| "remove_word_ci w pw (c # cs) =
     (if w \<noteq> [] \<and> \<not> pw \<and> starts_with_ci w (c # cs) \<and>
         \<not> (case drop (length w) (c # cs) of [] \<Rightarrow> False | d # _ \<Rightarrow> is_word_char d)
      then remove_word_ci w True (drop (length w) (c # cs))
      else c # remove_word_ci w (is_word_char c) cs)"
  by pat_completeness auto
termination
  by (relation "measure (\<lambda>(w, pw, s). length s)") auto

text \<open>\<open>/^word\s*/i\<close>.\<close>

definition strip_prefix_ci :: "string \<Rightarrow> string \<Rightarrow> string" where
  "strip_prefix_ci w s =
     (if starts_with_ci w s then dropWhile is_js_space (drop (length w) s) else s)"

text \<open>\<open>/^\s*word\s*/i\<close>.\<close>

definition strip_ws_prefix_ci :: "string \<Rightarrow> string \<Rightarrow> string" where
  "strip_ws_prefix_ci w s =
     (let s1 = dropWhile is_js_space s
      in if starts_with_ci w s1 then dropWhile is_js_space (drop (length w) s1) else s)"

definition clean_response :: "string \<Rightarrow> string" where
  "clean_response content =
     js_trim
      (strip_ws_prefix_ci ''assistant''
       (strip_ws_prefix_ci ''knowledge''
        (remove_word_ci ''knowledge'' False
         (remove_word_ci ''assistant'' False
          (strip_prefix_ci ''assistant''
           (remove_all ''<|im_end|>''
            (remove_all ''<|im_start|>'' content)))))))"

subsection \<open>The reply and its errors\<close>

text \<open>
  What \<open>result.choices?.[0]?.message?.content\<close> can be: absent or falsy (read as
  \<open>''\<close> by \<open>|| ''\<close>), a string, or a truthy value that is not a string (its
  \<open>.replace\<close> throws a \<open>TypeError\<close>).
\<close>

datatype content_field = NoContent | TextContent string | OtherContent

text \<open>
  The outcome of \<open>fetch\<close>: a network failure (the promise rejects), or an HTTP
  status with a body that is JSON (\<open>Some\<close>) or not (\<open>None\<close>: \<open>response.json()\<close>
  rejects).
\<close>

datatype http_outcome = NetworkFailure | HttpReply nat "content_field option"

datatype gen_error = TransportError | ApiError nat | MalformedBody | ContentNotString

text \<open>Lines 353--370: \<open>!response.ok\<close> throws, the content is cleaned.\<close>

definition call_result :: "http_outcome \<Rightarrow> gen_error + string" where
  "call_result r =
     (case r of
        NetworkFailure \<Rightarrow> Inl TransportError
      | HttpReply status body \<Rightarrow>
          (if \<not> (200 \<le> status \<and> status \<le> 299) then Inl (ApiError status)
           else (case body of
                   None \<Rightarrow> Inl MalformedBody
                 | Some NoContent \<Rightarrow> Inr (clean_response [])
                 | Some (TextContent s) \<Rightarrow> Inr (clean_response s)
                 | Some OtherContent \<Rightarrow> Inl ContentNotString)))"

definition call_smollm ::
  "(chat_request \<Rightarrow> http_outcome) \<Rightarrow> stream_config \<Rightarrow> string \<Rightarrow> gen_error + string" where
  "call_smollm server cfg prompt = call_result (server (build_request cfg prompt))"

text \<open>
  \<open>generateResponseForLatestThought\<close>: any error of the call becomes the empty
  response (lines 319--322).
\<close>

definition generate_response ::
  "(chat_request \<Rightarrow> http_outcome) \<Rightarrow> stream_config \<Rightarrow> string \<Rightarrow> string list \<Rightarrow>
     string list \<Rightarrow> string" where
  "generate_response server cfg user_input thoughts responses =
     (case call_smollm server cfg (build_prompt user_input thoughts responses) of
        Inl _ \<Rightarrow> []
      | Inr response \<Rightarrow> response)"

text \<open>\<open>mentions_ci w s\<close>: \<open>w\<close> occurs in \<open>s\<close>, ignoring the case of letters.\<close>

fun mentions_ci :: "string \<Rightarrow> string \<Rightarrow> bool" where
  "mentions_ci w [] = starts_with_ci w []"
| "mentions_ci w (c # cs) = (starts_with_ci w (c # cs) \<or> mentions_ci w cs)"

subsection \<open>Lemmas on the prompt\<close>

lemma map_js_index_zip:
  "length rs \<le> length ts \<Longrightarrow>
     map (\<lambda>i. f (js_index ts i) (rs ! i)) [0..<length rs] = map (\<lambda>(t, r). f t r) (zip ts rs)"
  by (rule nth_equalityI) (auto simp: js_index_def)

lemma zip_take_long: "length ys \<le> n \<Longrightarrow> zip (take n xs) ys = zip xs ys"
proof (induction xs arbitrary: n ys)
  case (Cons x xs)
  then show ?case by (cases ys; cases n) auto
qed simp

lemma build_prompt_shape:
  assumes "length responses < length thoughts"
  shows "build_prompt u thoughts responses =
           chat_turn ''user'' u @
           concat (map (\<lambda>(t, r). chat_turn ''knowledge'' t @ chat_turn ''assistant'' r)
                       (zip thoughts responses)) @
           chat_turn ''knowledge'' (thoughts ! length responses) @ assistant_open"
proof (cases "responses = []")
  case True
  with assms show ?thesis by (simp add: build_prompt_def js_index_def)
next
  case False
  have "map (\<lambda>i. chat_turn ''knowledge'' (js_index thoughts i) @
                 chat_turn ''assistant'' (js_index responses i)) [0..<length responses] =
        map (\<lambda>i. chat_turn ''knowledge'' (js_index thoughts i) @
                 chat_turn ''assistant'' (responses ! i)) [0..<length responses]"
    by (simp add: js_index_def)
  also have "\<dots> = map (\<lambda>(t, r). chat_turn ''knowledge'' t @ chat_turn ''assistant'' r)
                      (zip thoughts responses)"
    using assms by (intro map_js_index_zip) simp
  finally show ?thesis
    using False assms by (simp add: build_prompt_def js_index_def)
qed

subsection \<open>Lemmas on the clean-up chain\<close>

lemma remove_all_absent: "hd pat \<notin> set s \<Longrightarrow> pat \<noteq> [] \<Longrightarrow> remove_all pat s = s"
proof (induction s)
  case (Cons c cs)
  have "\<not> starts_with pat (c # cs)"
    using Cons.prems by (cases pat) auto
  with Cons show ?case by simp
qed simp

lemma mentions_ci_starts: "\<not> mentions_ci w s \<Longrightarrow> \<not> starts_with_ci w s"
  by (cases s) auto

lemma mentions_ci_drop: "\<not> mentions_ci w s \<Longrightarrow> \<not> mentions_ci w (drop k s)"
proof (induction s arbitrary: k)
  case (Cons c cs)
  then show ?case by (cases k) auto
qed simp

lemma mentions_ci_dropWhile: "\<not> mentions_ci w s \<Longrightarrow> \<not> mentions_ci w (dropWhile P s)"
  by (metis mentions_ci_drop takeWhile_dropWhile_id append_eq_conv_conj)

lemma remove_word_ci_absent: "\<not> mentions_ci w s \<Longrightarrow> remove_word_ci w pw s = s"
  by (induction s arbitrary: pw) auto

lemma strip_prefix_ci_absent: "\<not> mentions_ci w s \<Longrightarrow> strip_prefix_ci w s = s"
  by (simp add: strip_prefix_ci_def mentions_ci_starts)

lemma strip_ws_prefix_ci_absent: "\<not> mentions_ci w s \<Longrightarrow> strip_ws_prefix_ci w s = s"
  by (simp add: strip_ws_prefix_ci_def Let_def mentions_ci_starts mentions_ci_dropWhile)

lemma clean_response_trimmed:
  "clean_response s = [] \<or>
     \<not> is_js_space (hd (clean_response s)) \<and> \<not> is_js_space (last (clean_response s))"
  unfolding clean_response_def using js_trim_ends by blast

subsection \<open>Lemmas on the request and the reply\<close>

lemma ends_with_append [simp]: "ends_with (u @ sfx) sfx"
  by (simp add: ends_with_def starts_with_iff)

lemma call_result_Inr:
  "call_result r = Inr x \<Longrightarrow> \<exists>c. x = clean_response c"
  by (auto simp: call_result_def split: http_outcome.splits if_splits option.splits
      content_field.splits)

lemma build_prompt_no_thought:
  "build_prompt u [] [] = chat_turn ''user'' u @ chat_turn ''knowledge'' ''undefined'' @ assistant_open"
  by (simp add: build_prompt_def js_index_def)

lemmas clean_eval_simps = clean_response_def strip_ws_prefix_ci_def strip_prefix_ci_def
  ci_eq_def is_word_char_def is_js_space_def js_trim_def

subsection \<open>Properties of the Delivery Generator\<close>

text \<open>
  C4.  Whenever a thought is waiting (more thoughts than responses), the prompt of
  \<open>generateResponseForLatestThought\<close> is the user turn, then each earlier
  response paired with the thought at its own index, then exactly one new
  thought, the one at index \<open>responses.length\<close>: the special case for no
  responses and the general case agree, and later thoughts are never shown.
\<close>

theorem build_prompt_window:
  "length responses < length thoughts \<Longrightarrow>
     build_prompt u thoughts responses =
       chat_turn ''user'' u @
       concat (map (\<lambda>(t, r). chat_turn ''knowledge'' t @ chat_turn ''assistant'' r)
                   (zip thoughts responses)) @
       chat_turn ''knowledge'' (thoughts ! length responses) @ assistant_open \<and>
     build_prompt u thoughts responses =
       build_prompt u (take (Suc (length responses)) thoughts) responses"
proof -
  assume lt: "length responses < length thoughts"
  moreover from lt have "length responses < length (take (Suc (length responses)) thoughts)"
    by simp
  moreover from lt have "zip (take (Suc (length responses)) thoughts) responses =
                           zip thoughts responses"
    by (simp add: zip_take_long)
  ultimately show ?thesis by (simp add: build_prompt_shape)
qed

theorem build_prompt_window_witness:
  "length [''r1''] < length [''t1'', ''t2'', ''t3''] \<and>
   build_prompt ''q'' [''t1'', ''t2'', ''t3''] [''r1''] =
     chat_turn ''user'' ''q'' @ chat_turn ''knowledge'' ''t1'' @ chat_turn ''assistant'' ''r1'' @
     chat_turn ''knowledge'' ''t2'' @ assistant_open"
proof -
  have lt: "length [''r1''] < length [''t1'', ''t2'', ''t3'']" by simp
  from build_prompt_window [OF lt] lt show ?thesis by simp
qed

text \<open>
  C5.  On a reply with no \<open><\<close> character and no case-insensitive occurrence of
  \<open>assistant\<close> or \<open>knowledge\<close>, the clean-up chain of
  \<open>callSmolLMForSentence\<close> only trims white space.
\<close>

theorem clean_response_plain:
  "CHR ''<'' \<notin> set s \<Longrightarrow> \<not> mentions_ci ''assistant'' s \<Longrightarrow> \<not> mentions_ci ''knowledge'' s \<Longrightarrow>
     clean_response s = js_trim s"
  by (simp add: clean_response_def remove_all_absent remove_word_ci_absent
      strip_prefix_ci_absent strip_ws_prefix_ci_absent)

theorem clean_response_plain_witness:
  "CHR ''<'' \<notin> set '' Hello world '' \<and> \<not> mentions_ci ''assistant'' '' Hello world '' \<and>
   \<not> mentions_ci ''knowledge'' '' Hello world '' \<and> clean_response '' Hello world '' = ''Hello world''"
proof -
  have h: "CHR ''<'' \<notin> set '' Hello world ''" "\<not> mentions_ci ''assistant'' '' Hello world ''"
    "\<not> mentions_ci ''knowledge'' '' Hello world ''"
    by (simp_all add: ci_eq_def)
  from clean_response_plain [OF h] h show ?thesis by (simp add: js_trim_def is_js_space_def)
qed



text \<open>
  C7.  The delivery URL always ends with \<open>/v1/chat/completions\<close>, and
  normalising it twice changes nothing.
\<close>

theorem tgi_url_normalised:
  "ends_with (tgi_url url) chat_completions_suffix \<and> tgi_url (tgi_url url) = tgi_url url"
  by (simp add: tgi_url_def)

end
