(* ===== verification/Pacing.thy ===== *)
theory Pacing
  imports Prelude
begin

text \<open>
  The Pacing Emitter: \<open>streamSentenceTokens\<close> (\<open>natural-response-processor.ts\<close>,
  lines 377--409), over a model of the \<open>ReadableStreamDefaultController\<close> it
  writes to.  The controller keeps the fragments enqueued so far, in order, and
  its state: readable, closed (by \<open>close()\<close> or by the consumer cancelling), or
  errored.  \<open>desiredSize\<close> is \<open>null\<close> only when errored; \<open>enqueue\<close> and
  \<open>close\<close> throw a \<open>TypeError\<close> unless the stream is readable.  The delays
  between words are not modelled: they only let other tasks run, and nothing but
  this emitter writes fragments (the controller theory orders those writes).
\<close>

subsection \<open>The stream controller\<close>

text \<open>\<open>{type: 'text-delta', id: String(n), delta}\<close>; the id is kept as the number \<open>n\<close>.\<close>

datatype fragment = TextDeltaOut nat string

datatype ctl_status = Readable | Closed | Errored

record controller =
  ctl_queue :: "fragment list"
  ctl_status :: ctl_status

datatype stream_error = EnqueueTypeError | CloseTypeError

definition fragment_id :: "fragment \<Rightarrow> nat" where
  "fragment_id f = (case f of TextDeltaOut i _ \<Rightarrow> i)"

definition fragment_delta :: "fragment \<Rightarrow> string" where
  "fragment_delta f = (case f of TextDeltaOut _ d \<Rightarrow> d)"

text \<open>What the consumer sees: the deltas concatenated in emission order.\<close>

definition emitted_text :: "controller \<Rightarrow> string" where
  "emitted_text c = concat (map fragment_delta (ctl_queue c))"

definition desired_size_is_null :: "controller \<Rightarrow> bool" where
  "desired_size_is_null c \<longleftrightarrow> ctl_status c = Errored"

definition enqueue :: "fragment \<Rightarrow> controller \<Rightarrow> stream_error + controller" where
  "enqueue f c =
     (if ctl_status c = Readable then Inr (c\<lparr>ctl_queue := ctl_queue c @ [f]\<rparr>)
      else Inl EnqueueTypeError)"

definition close_controller :: "controller \<Rightarrow> stream_error + controller" where
  "close_controller c =
     (if ctl_status c = Readable then Inr (c\<lparr>ctl_status := Closed\<rparr>) else Inl CloseTypeError)"

text \<open>\<open>if (controller.desiredSize !== null) controller.enqueue(\<dots>)\<close> (lines 389--395, 402--408).\<close>

definition push_checked :: "fragment \<Rightarrow> controller \<Rightarrow> stream_error + controller" where
  "push_checked f c = (if desired_size_is_null c then Inr c else enqueue f c)"

subsection \<open>\<open>streamSentenceTokens\<close>\<close>

text \<open>\<open>sentence.split(' ').filter(w => w.trim())\<close> (line 384).\<close>

definition sentence_words :: "string \<Rightarrow> string list" where
  "sentence_words s = filter (\<lambda>w. js_trim w \<noteq> []) (js_split (CHR '' '') s)"

text \<open>\<open>words[i] + (i < words.length - 1 ? ' ' : '')\<close> (line 387).\<close>

definition word_deltas :: "string list \<Rightarrow> string list" where
  "word_deltas words =
     map (\<lambda>i. words ! i @ (if i < length words - 1 then '' '' else [])) [0..<length words]"

text \<open>The \<open>for\<close> loop of lines 386--399; an exception of \<open>enqueue\<close> ends it.\<close>

fun push_words :: "nat \<Rightarrow> string list \<Rightarrow> controller \<Rightarrow> stream_error + controller" where
  "push_words text_id [] c = Inr c"
| "push_words text_id (d # ds) c =
     (case push_checked (TextDeltaOut text_id d) c of
        Inl e \<Rightarrow> Inl e
      | Inr c' \<Rightarrow> push_words text_id ds c')"

definition stream_sentence_tokens :: "string \<Rightarrow> nat \<Rightarrow> controller \<Rightarrow> stream_error + controller" where
  "stream_sentence_tokens sentence text_id c =
     (if sentence = [] \<or> js_trim sentence = [] then Inr c
      else (case push_words text_id (word_deltas (sentence_words sentence)) c of
              Inl e \<Rightarrow> Inl e
            | Inr c' \<Rightarrow> push_checked (TextDeltaOut (text_id + 1000) '' '') c'))"

text \<open>The fragments one non-blank sentence adds to a readable stream.\<close>

definition sentence_fragments :: "string \<Rightarrow> nat \<Rightarrow> fragment list" where
  "sentence_fragments s tid =
     map (TextDeltaOut tid) (word_deltas (sentence_words s)) @ [TextDeltaOut (tid + 1000) '' '']"

subsection \<open>Lemmas\<close>

lemma word_deltas_simps [simp]:
  "word_deltas [] = []"
  "word_deltas [w] = [w]"
  "word_deltas (w # v # ws) = (w @ '' '') # word_deltas (v # ws)"
proof -
  show "word_deltas [] = []" "word_deltas [w] = [w]" by (simp_all add: word_deltas_def)
  show "word_deltas (w # v # ws) = (w @ '' '') # word_deltas (v # ws)"
    unfolding word_deltas_def
    by (simp add: upt_conv_Cons map_Suc_upt [symmetric] comp_def del: upt_Suc)
qed

lemma concat_word_deltas: "concat (word_deltas ws) = join '' '' ws"
proof (induction ws)
  case (Cons w ws)
  then show ?case by (cases ws) simp_all
qed simp

lemma length_word_deltas [simp]: "length (word_deltas ws) = length ws"
  by (simp add: word_deltas_def)

lemma push_words_readable:
  "ctl_status c = Readable \<Longrightarrow>
     push_words tid ds c = Inr (c\<lparr>ctl_queue := ctl_queue c @ map (TextDeltaOut tid) ds\<rparr>)"
  by (induction ds arbitrary: c)
     (simp_all add: push_checked_def desired_size_is_null_def enqueue_def)

lemma push_words_closed:
  "ctl_status c = Closed \<Longrightarrow> ds \<noteq> [] \<Longrightarrow> push_words tid ds c = Inl EnqueueTypeError"
  by (cases ds) (simp_all add: push_checked_def desired_size_is_null_def enqueue_def)

lemma sentence_words_nonblank: "js_trim s \<noteq> [] \<Longrightarrow> sentence_words s \<noteq> []"
proof -
  assume "js_trim s \<noteq> []"
  then obtain c where c: "c \<in> set s" "\<not> is_js_space c"
    by (auto simp: js_trim_Nil_iff)
  have "c \<in> set (join [CHR '' ''] (js_split (CHR '' '') s))"
    using c(1) by (simp add: join_js_split)
  moreover have "c \<noteq> CHR '' ''" using c(2) by (auto simp: is_js_space_def)
  ultimately obtain w where "w \<in> set (js_split (CHR '' '') s)" "c \<in> set w"
    using set_join by fastforce
  with c(2) show ?thesis
    by (auto simp: sentence_words_def filter_empty_conv js_trim_Nil_iff)
qed

lemma js_trim_Nil [simp]: "js_trim [] = []"
  by (simp add: js_trim_def)

lemma push_words_errored:
  "ctl_status c = Errored \<Longrightarrow> push_words tid ds c = Inr c"
  by (induction ds) (simp_all add: push_checked_def desired_size_is_null_def)

text \<open>\<open>streamSentenceTokens\<close> on each state of the stream.\<close>

lemma stream_sentence_tokens_status:
  "stream_sentence_tokens s tid c =
     (if js_trim s = [] then Inr c
      else case ctl_status c of
             Readable \<Rightarrow> Inr (c\<lparr>ctl_queue := ctl_queue c @ sentence_fragments s tid\<rparr>)
           | Closed \<Rightarrow> Inl EnqueueTypeError
           | Errored \<Rightarrow> Inr c)"
proof (cases "js_trim s = []")
  case False
  have ne1: "s \<noteq> []" using False by auto
  have "word_deltas (sentence_words s) \<noteq> []"
    using sentence_words_nonblank [OF False] by (metis length_0_conv length_word_deltas)
  note ne = ne1 this
  show ?thesis
  proof (cases "ctl_status c")
    case Readable
    with False ne show ?thesis
      by (simp add: stream_sentence_tokens_def push_words_readable sentence_fragments_def
          push_checked_def desired_size_is_null_def enqueue_def)
  next
    case Closed
    with False ne show ?thesis by (simp add: stream_sentence_tokens_def push_words_closed)
  next
    case Errored
    with False ne show ?thesis
      by (simp add: stream_sentence_tokens_def push_words_errored push_checked_def
          desired_size_is_null_def)
  qed
qed (simp add: stream_sentence_tokens_def)

lemmas pacing_eval_simps = stream_sentence_tokens_def sentence_words_def js_trim_def
  is_js_space_def push_checked_def desired_size_is_null_def enqueue_def

subsection \<open>Properties of the Pacing Emitter\<close>

text \<open>
  C9.  On a readable stream, a non-blank sentence is emitted as one fragment per
  non-blank space-separated word, every word but the last followed by one space,
  all under the sentence's id, and then one fragment holding a single space under
  the id plus 1000; the stream stays readable.  So the fragments of one sentence
  share their id.
\<close>

theorem stream_sentence_tokens_readable:
  "ctl_status c = Readable \<Longrightarrow> js_trim s \<noteq> [] \<Longrightarrow>
     stream_sentence_tokens s tid c =
       Inr (c\<lparr>ctl_queue := ctl_queue c @ map (TextDeltaOut tid) (word_deltas (sentence_words s)) @
                            [TextDeltaOut (tid + 1000) '' '']\<rparr>)"
proof -
  assume r: "ctl_status c = Readable" and nb: "js_trim s \<noteq> []"
  from nb have "s \<noteq> []" by auto
  with r nb show ?thesis
    by (simp add: stream_sentence_tokens_def push_words_readable push_checked_def
        desired_size_is_null_def enqueue_def)
qed

theorem stream_sentence_tokens_readable_witness:
  "ctl_status \<lparr>ctl_queue = [], ctl_status = Readable\<rparr> = Readable \<and> js_trim ''Hi  there'' \<noteq> [] \<and>
   stream_sentence_tokens ''Hi  there'' 1 \<lparr>ctl_queue = [], ctl_status = Readable\<rparr> =
     Inr \<lparr>ctl_queue = [TextDeltaOut 1 ''Hi '', TextDeltaOut 1 ''there'', TextDeltaOut 1001 '' ''],
          ctl_status = Readable\<rparr>"
proof -
  have h: "ctl_status \<lparr>ctl_queue = [], ctl_status = Readable\<rparr> = Readable"
    "js_trim ''Hi  there'' \<noteq> []"
    by (simp_all add: js_trim_def is_js_space_def)
  have w: "sentence_words ''Hi  there'' = [''Hi'', ''there'']"
    by (simp add: sentence_words_def js_trim_def is_js_space_def)
  from stream_sentence_tokens_readable [OF h] h w show ?thesis by simp
qed

text \<open>
  C10.  The text a sentence contributes to the outward stream is its words' text
  followed by the separator's space, and splitting the words' text at spaces gives
  back exactly the sentence's non-blank space-separated pieces (or one empty piece
  when there are none): runs of spaces collapse and a piece that is only white
  space is dropped.  When every piece is non-blank, the words' text is the
  sentence itself.
\<close>

theorem stream_sentence_text:
  "concat (map fragment_delta (sentence_fragments s tid)) = concat (word_deltas (sentence_words s)) @ '' '' \<and>
   js_split (CHR '' '') (concat (word_deltas (sentence_words s))) =
     (if [w \<leftarrow> js_split (CHR '' '') s. js_trim w \<noteq> []] = [] then [[]]
      else [w \<leftarrow> js_split (CHR '' '') s. js_trim w \<noteq> []]) \<and>
   ((\<forall>w \<in> set (js_split (CHR '' '') s). js_trim w \<noteq> []) \<longrightarrow>
      concat (word_deltas (sentence_words s)) = s)"
proof -
  have frag: "concat (map fragment_delta (sentence_fragments s tid)) = concat (word_deltas (sentence_words s)) @ '' ''"
    by (simp add: sentence_fragments_def fragment_delta_def comp_def)
  have nosep: "\<forall>w \<in> set (sentence_words s). CHR '' '' \<notin> set w"
    using js_split_no_sep by (auto simp: sentence_words_def)
  have split: "js_split (CHR '' '') (concat (word_deltas (sentence_words s))) =
     (if [w \<leftarrow> js_split (CHR '' '') s. js_trim w \<noteq> []] = [] then [[]]
      else [w \<leftarrow> js_split (CHR '' '') s. js_trim w \<noteq> []])"
    using js_split_join [OF _ nosep] by (simp add: concat_word_deltas sentence_words_def)
  have "(\<forall>w \<in> set (js_split (CHR '' '') s). js_trim w \<noteq> []) \<Longrightarrow>
          sentence_words s = js_split (CHR '' '') s"
    by (simp add: sentence_words_def)
  with frag split show ?thesis by (auto simp: concat_word_deltas join_js_split)
qed

theorem stream_sentence_text_witness:
  "js_split (CHR '' '') ''Hi there'' = [''Hi'', ''there''] \<and>
   concat (word_deltas (sentence_words ''Hi there'')) = ''Hi there'' \<and>
   js_split (CHR '' '') (concat (word_deltas (sentence_words ''a  b''))) = [''a'', ''b''] \<and>
   concat (map fragment_delta (sentence_fragments ''a  b'' 1)) = ''a b ''"
proof -
  have h: "\<forall>w \<in> set (js_split (CHR '' '') ''Hi there''). js_trim w \<noteq> []"
    by (simp add: js_trim_def is_js_space_def)
  note hi = stream_sentence_text [of "''Hi there''" 1]
  note ab = stream_sentence_text [of "''a  b''" 1]
  have a: "concat (word_deltas (sentence_words ''Hi there'')) = ''Hi there''"
    using hi [THEN conjunct2, THEN conjunct2] h by (rule mp)
  have f: "[w \<leftarrow> js_split (CHR '' '') ''a  b''. js_trim w \<noteq> []] = [''a'', ''b'']"
    by (simp add: js_trim_def is_js_space_def)
  have b: "js_split (CHR '' '') (concat (word_deltas (sentence_words ''a  b''))) = [''a'', ''b'']"
    using ab [THEN conjunct2, THEN conjunct1] by (simp only: f list.distinct if_False)
  have w: "sentence_words ''a  b'' = [''a'', ''b'']"
    by (simp add: sentence_words_def js_trim_def is_js_space_def)
  have c: "concat (map fragment_delta (sentence_fragments ''a  b'' 1)) = ''a b ''"
    using ab [THEN conjunct1] by (simp add: w)
  have d: "js_split (CHR '' '') ''Hi there'' = [''Hi'', ''there'']" by (simp add: Let_def)
  from d a b c show ?thesis by blast
qed

text \<open>
  C11.  Once the consumer has cancelled the stream (the controller is closed), the
  \<open>desiredSize !== null\<close> guard still lets the push through and
  \<open>streamSentenceTokens\<close> throws the \<open>TypeError\<close> of \<open>enqueue\<close> on any
  non-blank sentence; only an errored stream makes it skip.
\<close>

theorem stream_sentence_tokens_closed:
  "ctl_status c = Closed \<Longrightarrow> js_trim s \<noteq> [] \<Longrightarrow>
     stream_sentence_tokens s tid c = Inl EnqueueTypeError"
proof -
  assume cl: "ctl_status c = Closed" and nb: "js_trim s \<noteq> []"
  from nb have "s \<noteq> []" by auto
  moreover from nb have "word_deltas (sentence_words s) \<noteq> []"
    using sentence_words_nonblank by (metis length_0_conv length_word_deltas)
  ultimately show ?thesis
    using cl nb by (simp add: stream_sentence_tokens_def push_words_closed)
qed

theorem stream_sentence_tokens_closed_witness:
  "ctl_status \<lparr>ctl_queue = [TextDeltaOut 1 ''Hi''], ctl_status = Closed\<rparr> = Closed \<and>
   js_trim ''More'' \<noteq> [] \<and>
   stream_sentence_tokens ''More'' 2 \<lparr>ctl_queue = [TextDeltaOut 1 ''Hi''], ctl_status = Closed\<rparr> =
     Inl EnqueueTypeError"
proof -
  have h: "ctl_status \<lparr>ctl_queue = [TextDeltaOut 1 ''Hi''], ctl_status = Closed\<rparr> = Closed"
    "js_trim ''More'' \<noteq> []"
    by (simp_all add: js_trim_def is_js_space_def)
  from stream_sentence_tokens_closed [OF h] h show ?thesis by simp
qed

end
