(* ===== verification/Controller.thy ===== *)
theory Controller
  imports ThoughtExtractor Delivery Pacing
begin

text \<open>
  The Fusion Controller: \<open>NaturalResponseProcessor\<close>
  (\<open>natural-response-processor.ts\<close>) from \<open>processStream\<close> to the final
  metrics.  One turn is a record \<open>turn\<close>: the processor's fields (lines 19--25),
  the locals of \<open>runSmolLMGeneration\<close> (lines 175--177) with the point the loop
  has reached (\<open>gen_pc\<close>), the state of the detached \<open>consumeGPT4Thoughts\<close>
  task, the outward stream controller, and the log of metrics callbacks.

  JavaScript runs one task at a time and switches only at an \<open>await\<close>.  The
  steps below are the stretches of code between two awaits, labelled by an
  \<open>event\<close> that also carries what the environment decides: the delivery server's
  reply (a function of the request), which task runs next, and whether the
  client cancels the outward stream.  \<open>step\<close> is a function, so a run is
  executable (\<open>run\<close>); \<open>reachable\<close> is the set of states of all runs, an
  inductive predicate, and the invariants are proved by rule induction over it.
  When the consumer's extraction loop spins (\<open>Spinning\<close>) the single thread is
  blocked: no step of any task is possible any more.
\<close>

subsection \<open>Prompt messages and the user input\<close>

text \<open>\<open>LanguageModelV2Prompt\<close>: the messages of the call, by role.\<close>

datatype content_part = TextPart string | OtherContentPart string

datatype prompt_message =
    SystemMessage string
  | UserMessage "content_part list"
  | AssistantMessage "content_part list"
  | ToolMessage

fun is_user_message :: "prompt_message \<Rightarrow> bool" where
  "is_user_message (UserMessage _) = True"
| "is_user_message _ = False"

fun message_texts :: "prompt_message \<Rightarrow> string list" where
  "message_texts (UserMessage parts) = [t. TextPart t \<leftarrow> parts]"
| "message_texts _ = []"

text \<open>\<open>extractUserInput\<close> (lines 121--139).\<close>

definition extract_user_input :: "prompt_message list \<Rightarrow> string" where
  "extract_user_input prompt =
     (case find is_user_message (rev prompt) of
        None \<Rightarrow> ''User question''
      | Some m \<Rightarrow> join '' '' (message_texts m))"

subsection \<open>The state of a turn\<close>

datatype phase = Immediate | Concurrent | Finished | Failed

datatype gen_pc = GenDelay | GenAwaitReply string | GenDone

datatype reader_status = NotStarted | Reading | ReadDone | ReadFailed | Spinning

datatype stream_end = EndDone | EndError

record metrics =
  m_thoughts_extracted :: nat
  m_thoughts_processed :: nat
  m_responses_generated :: nat
  m_first_response_set :: bool
  m_full_text :: string

datatype metrics_event = ConstructorCalled | FinalMetrics metrics

record turn =
  config :: stream_config
  user_input :: string
  thoughts :: "string list"
  responses :: "string list"
  first_response_set :: bool
  thoughts_processed :: nat
  text_id :: nat
  last_thought_count :: nat
  wait_count :: nat
  gen :: gen_pc
  phase :: phase
  buffer :: string
  pending :: "stream_part list"
  stream_end :: stream_end
  reader :: reader_status
  ctl :: controller
  metrics_log :: "metrics_event list"

text \<open>
  The constructor's metrics call (lines 33--43), \<open>reset\<close> (lines 460--468) and
  the start of \<open>processStream\<close> (lines 61--63) up to the first \<open>await\<close>, the
  delivery call of \<open>emitImmediateResponse\<close>.  \<open>firstResponseTime\<close> and
  \<open>startTime\<close> are abstracted to whether the first response time was recorded.
\<close>

definition constructor_log :: "stream_config \<Rightarrow> metrics_event list" where
  "constructor_log cfg = (if on_metrics_update cfg then [ConstructorCalled] else [])"

definition reset :: "turn \<Rightarrow> turn" where
  "reset s = s\<lparr>thoughts := [], responses := [], user_input := [],
               first_response_set := False, thoughts_processed := 0\<rparr>"

definition turn_init ::
  "stream_config \<Rightarrow> prompt_message list \<Rightarrow> stream_part list \<Rightarrow> stream_end \<Rightarrow> turn" where
  "turn_init cfg prompt parts ending =
     (reset \<lparr>config = cfg, user_input = [], thoughts = [], responses = [],
             first_response_set = False, thoughts_processed = 0,
             text_id = 1, last_thought_count = 0, wait_count = 0, gen = GenDelay,
             phase = Immediate, buffer = [], pending = parts, stream_end = ending,
             reader = NotStarted, ctl = \<lparr>ctl_queue = [], ctl_status = Readable\<rparr>,
             metrics_log = constructor_log cfg\<rparr>)
       \<lparr>user_input := extract_user_input prompt\<rparr>"

subsection \<open>Metrics and the end of a turn\<close>

text \<open>
  \<open>sendMetrics\<close> (lines 436--454).  The report's \<open>thoughts\<close> field is
  \<open>this.thoughts\<close> itself (line 445), not a copy: a callback that keeps the report
  reads, at any later time, the turn's thoughts as they stand then (\<open>reset\<close>
  replaces the array only at the start of the next turn).  So the event records
  the values the report copies, and its thoughts field is the state's
  \<open>thoughts\<close>; \<open>thoughtsExtracted\<close> is the count when it was sent.
\<close>

definition metrics_of :: "turn \<Rightarrow> metrics" where
  "metrics_of s =
     \<lparr>m_thoughts_extracted = length (thoughts s),
      m_thoughts_processed = thoughts_processed s,
      m_responses_generated = length (responses s),
      m_first_response_set = first_response_set s,
      m_full_text = join '' '' (responses s)\<rparr>"

definition send_metrics :: "turn \<Rightarrow> turn" where
  "send_metrics s =
     (if on_metrics_update (config s)
      then s\<lparr>metrics_log := metrics_log s @ [FinalMetrics (metrics_of s)]\<rparr> else s)"

text \<open>
  An exception escaping \<open>start\<close>: the \<open>catch\<close> of lines 74--78 sends the
  metrics and rethrows, and the rejected \<open>start\<close> errors the stream if it is
  still readable.
\<close>

definition error_controller :: "controller \<Rightarrow> controller" where
  "error_controller c =
     (if ctl_status c = Readable then c\<lparr>ctl_status := Errored\<rparr> else c)"

definition fail_turn :: "turn \<Rightarrow> turn" where
  "fail_turn s = send_metrics (s\<lparr>phase := Failed, ctl := error_controller (ctl s)\<rparr>)"

subsection \<open>The generation loop\<close>

text \<open>
  \<open>runSmolLMGeneration\<close> (lines 171--218) suspends at two points inside its
  loop: the idle \<open>delay(100)\<close> (\<open>GenDelay\<close>) and the delivery call of
  \<open>generateResponseForLatestThought\<close> (\<open>GenAwaitReply\<close>, with the prompt
  sent); \<open>GenDone\<close> is the loop left.  Everything between two of these points
  runs without interruption.
\<close>

text \<open>\<open>shouldStopGeneration\<close> (lines 415--419).\<close>

definition should_stop_generation :: "string list \<Rightarrow> bool" where
  "should_stop_generation rs \<longleftrightarrow> length (join '' '' rs) > 500"

text \<open>The test that ends an iteration (line 211).\<close>

definition stop_condition :: "string list \<Rightarrow> bool" where
  "stop_condition rs \<longleftrightarrow> length rs \<ge> 5 \<or> should_stop_generation rs"

text \<open>
  The top of the \<open>while\<close> loop (lines 182--208) up to its next suspension:
  the loop exits once \<open>waitCount\<close> reaches 100; with a new thought it counts
  the attempt and sends the prompt of \<open>generateResponseForLatestThought\<close>;
  otherwise it counts an idle poll and waits.
\<close>

definition gen_top :: "turn \<Rightarrow> turn" where
  "gen_top s =
     (if wait_count s < 100 then
        (if length (thoughts s) > last_thought_count s then
           s\<lparr>thoughts_processed := Suc (thoughts_processed s),
             gen := GenAwaitReply (build_prompt (user_input s) (thoughts s) (responses s))\<rparr>
         else s\<lparr>wait_count := Suc (wait_count s), gen := GenDelay\<rparr>)
      else s\<lparr>gen := GenDone\<rparr>)"

text \<open>The end of an iteration (lines 210--214) and the loop's next top.\<close>

definition gen_continue :: "turn \<Rightarrow> turn" where
  "gen_continue s = (if stop_condition (responses s) then s\<lparr>gen := GenDone\<rparr> else gen_top s)"

text \<open>
  The rest of the iteration once the delivery call has returned or thrown
  (lines 191--202): the \<open>catch\<close> of \<open>generateResponseForLatestThought\<close>
  (lines 318--321) turns a failed call into the empty response; a non-blank one
  is streamed under \<open>textId++\<close>, pushed, and \<open>lastThoughtCount\<close> is read from
  the thoughts as they are now.  An exception of the stream escapes the loop.
\<close>

definition gen_reply :: "turn \<Rightarrow> gen_error + string \<Rightarrow> turn" where
  "gen_reply s r =
     (let response = (case r of Inl _ \<Rightarrow> [] | Inr x \<Rightarrow> x)
      in if response \<noteq> [] \<and> js_trim response \<noteq> [] then
           (case stream_sentence_tokens response (text_id s) (ctl s) of
              Inl _ \<Rightarrow> fail_turn s
            | Inr c \<Rightarrow>
                gen_continue (s\<lparr>ctl := c, text_id := Suc (text_id s),
                                 responses := responses s @ [response],
                                 last_thought_count := length (thoughts s), wait_count := 0\<rparr>))
         else gen_continue s)"

subsection \<open>The immediate response\<close>

text \<open>
  \<open>startConcurrentProcessing\<close> (lines 146--158): the consumer task is started
  (it runs to its first \<open>reader.read()\<close>), and \<open>runSmolLMGeneration\<close> sets up
  its locals and runs its first loop top, all before any read can complete.
\<close>

definition start_concurrent :: "turn \<Rightarrow> turn" where
  "start_concurrent s =
     gen_top (s\<lparr>phase := Concurrent, reader := Reading,
                 text_id := 1, last_thought_count := 0, wait_count := 0\<rparr>)"

definition fallback_text :: string where
  "fallback_text = ''Let me think about that... ''"

text \<open>The \<open>catch\<close> branch of \<open>emitImmediateResponse\<close> (lines 103--114).\<close>

definition immediate_fallback :: "turn \<Rightarrow> turn" where
  "immediate_fallback s =
     (let s1 = s\<lparr>first_response_set := True\<rparr>
      in case enqueue (TextDeltaOut 1 fallback_text) (ctl s1) of
           Inl _ \<Rightarrow> fail_turn s1
         | Inr c \<Rightarrow> start_concurrent (s1\<lparr>ctl := c\<rparr>))"

text \<open>
  \<open>emitImmediateResponse\<close> (lines 87--115) once \<open>callSmolLMForSentence\<close>
  has returned or thrown for the immediate prompt.
\<close>

definition immediate_response :: "turn \<Rightarrow> gen_error + string \<Rightarrow> turn" where
  "immediate_response s r =
     (case r of
        Inl _ \<Rightarrow> immediate_fallback s
      | Inr x \<Rightarrow>
          (if x \<noteq> [] \<and> js_trim x \<noteq> [] then
             (let s1 = s\<lparr>first_response_set := True\<rparr>
              in case stream_sentence_tokens x 1 (ctl s1) of
                   Inl _ \<Rightarrow> immediate_fallback s1
                 | Inr c \<Rightarrow> start_concurrent (s1\<lparr>ctl := c\<rparr>))
           else start_concurrent s))"

subsection \<open>The consumer task\<close>

text \<open>
  One \<open>reader.read()\<close> of \<open>consumeGPT4Thoughts\<close> and the synchronous code after
  it: a part is consumed (\<open>consume_part\<close>, whose thoughts are pushed onto
  \<open>this.thoughts\<close>), or the stream ends, normally or with an error that the
  \<open>.catch\<close> of line 153 only logs.
\<close>

definition consumer_read :: "turn \<Rightarrow> turn" where
  "consumer_read s =
     (case pending s of
        [] \<Rightarrow> s\<lparr>reader := (if stream_end s = EndDone then ReadDone else ReadFailed)\<rparr>
      | p # ps \<Rightarrow>
          (case consume_part (buffer s) (thoughts s) p of
             None \<Rightarrow> s\<lparr>pending := ps, reader := Spinning\<rparr>
           | Some (b, ts) \<Rightarrow> s\<lparr>pending := ps, buffer := b, thoughts := ts\<rparr>))"

text \<open>
  After the loop: \<open>controller.close()\<close> (line 164) and the metrics of line 72,
  or, when \<open>close\<close> throws, the metrics of the \<open>catch\<close>.
\<close>

definition finish_turn :: "turn \<Rightarrow> turn" where
  "finish_turn s =
     (case close_controller (ctl s) of
        Inl _ \<Rightarrow> fail_turn s
      | Inr c \<Rightarrow> send_metrics (s\<lparr>phase := Finished, ctl := c\<rparr>))"

text \<open>The client cancels the outward stream.\<close>

definition cancel :: "turn \<Rightarrow> turn" where
  "cancel s = s\<lparr>ctl := (ctl s)\<lparr>ctl_status := Closed\<rparr>\<rparr>"

subsection \<open>Steps, runs and reachable states\<close>

datatype event =
    EvImmediate "chat_request \<Rightarrow> http_outcome"
  | EvRead
  | EvGenPoll
  | EvGenReply "chat_request \<Rightarrow> http_outcome"
  | EvClose
  | EvCancel

fun awaiting_prompt :: "gen_pc \<Rightarrow> string option" where
  "awaiting_prompt (GenAwaitReply p) = Some p"
| "awaiting_prompt _ = None"

text \<open>
  One step.  A server event is the delivery server's answer to the request that
  \<open>callSmolLMForSentence\<close> builds from the prompt being awaited.  \<open>None\<close>: the event is not possible in this state.
\<close>

fun step :: "turn \<Rightarrow> event \<Rightarrow> turn option" where
  "step s (EvImmediate srv) =
     (if reader s \<noteq> Spinning \<and> phase s = Immediate
      then Some (immediate_response s (call_smollm srv (config s) (immediate_prompt (user_input s))))
      else None)"
| "step s EvRead =
     (if reader s = Reading then Some (consumer_read s) else None)"
| "step s EvGenPoll =
     (if reader s \<noteq> Spinning \<and> phase s = Concurrent \<and> gen s = GenDelay
      then Some (gen_continue s) else None)"
| "step s (EvGenReply srv) =
     (if reader s \<noteq> Spinning \<and> phase s = Concurrent
      then (case awaiting_prompt (gen s) of
              None \<Rightarrow> None
            | Some p \<Rightarrow> Some (gen_reply s (call_smollm srv (config s) p)))
      else None)"
| "step s EvClose =
     (if reader s \<noteq> Spinning \<and> phase s = Concurrent \<and> gen s = GenDone
      then Some (finish_turn s) else None)"
| "step s EvCancel =
     (if reader s \<noteq> Spinning \<and> ctl_status (ctl s) = Readable
      then Some (cancel s) else None)"

fun run :: "turn \<Rightarrow> event list \<Rightarrow> turn option" where
  "run s [] = Some s"
| "run s (e # es) = (case step s e of None \<Rightarrow> None | Some t \<Rightarrow> run t es)"

inductive reachable :: "turn \<Rightarrow> bool" where
  init: "reachable (turn_init cfg prompt parts ending)"
| step: "reachable s \<Longrightarrow> step s e = Some t \<Longrightarrow> reachable t"

subsection \<open>The invariant of a turn\<close>

text \<open>
  The fragments the generation loop has emitted: response \<open>i\<close> (from 0) under
  the id \<open>i + 1\<close>, as \<open>textId\<close> counts from 1 (line 175).
\<close>

fun response_fragments :: "nat \<Rightarrow> string list \<Rightarrow> fragment list" where
  "response_fragments n [] = []"
| "response_fragments n (r # rs) = sentence_fragments r n @ response_fragments (Suc n) rs"

definition turn_over :: "phase \<Rightarrow> bool" where
  "turn_over p \<longleftrightarrow> p = Finished \<or> p = Failed"

text \<open>What the final metrics report, once the generation loop has stopped.\<close>

definition metrics_ok :: "turn \<Rightarrow> metrics \<Rightarrow> bool" where
  "metrics_ok s m \<longleftrightarrow>
     m_responses_generated m = length (responses s) \<and>
     m_full_text m = join '' '' (responses s) \<and>
     m_thoughts_processed m = thoughts_processed s \<and>
     m_first_response_set m = first_response_set s \<and>
     m_thoughts_extracted m \<le> length (thoughts s)"

fun final_ok :: "turn \<Rightarrow> metrics_event \<Rightarrow> bool" where
  "final_ok s (FinalMetrics m) = metrics_ok s m"
| "final_ok s ConstructorCalled = False"

definition inv_counts :: "turn \<Rightarrow> bool" where
  "inv_counts s \<longleftrightarrow>
     length (responses s) \<le> last_thought_count s \<and>
     last_thought_count s \<le> length (thoughts s) \<and>
     wait_count s \<le> 100 \<and> length (responses s) \<le> 5 \<and>
     text_id s = Suc (length (responses s))"

definition inv_gen :: "turn \<Rightarrow> bool" where
  "inv_gen s \<longleftrightarrow>
     (case gen s of
        GenDone \<Rightarrow> True
      | GenDelay \<Rightarrow> \<not> stop_condition (responses s)
      | GenAwaitReply p \<Rightarrow>
          \<not> stop_condition (responses s) \<and> last_thought_count s < length (thoughts s) \<and>
          p = build_prompt (user_input s) (thoughts s) (responses s))"

definition inv_phase :: "turn \<Rightarrow> bool" where
  "inv_phase s \<longleftrightarrow>
     (case phase s of
        Immediate \<Rightarrow>
          thoughts s = [] \<and> responses s = [] \<and> reader s = NotStarted \<and> gen s = GenDelay \<and>
          ctl_queue (ctl s) = [] \<and> ctl_status (ctl s) \<noteq> Errored
      | Concurrent \<Rightarrow> reader s \<noteq> NotStarted \<and> ctl_status (ctl s) \<noteq> Errored
      | Finished \<Rightarrow> ctl_status (ctl s) = Closed
      | Failed \<Rightarrow> ctl_status (ctl s) \<noteq> Readable)"

text \<open>
  The outward queue is what the immediate response emitted (ids 1 and 1001 only,
  no empty delta) followed by the fragments of the generated responses.
\<close>

definition imm_fragment_ok :: "fragment \<Rightarrow> bool" where
  "imm_fragment_ok f \<longleftrightarrow> (fragment_id f = 1 \<or> fragment_id f = 1001) \<and> fragment_delta f \<noteq> []"

definition inv_queue :: "turn \<Rightarrow> bool" where
  "inv_queue s \<longleftrightarrow>
     (let q = ctl_queue (ctl s); g = response_fragments 1 (responses s);
          k = length q - length g
      in length g \<le> length q \<and> drop k q = g \<and>
         list_all imm_fragment_ok (take k q))"

definition inv_metrics :: "turn \<Rightarrow> bool" where
  "inv_metrics s \<longleftrightarrow>
     (let n = length (constructor_log (config s))
      in take n (metrics_log s) = constructor_log (config s) \<and>
         length (metrics_log s) =
           n + (if on_metrics_update (config s) \<and> turn_over (phase s) then 1 else 0) \<and>
         list_all (final_ok s) (drop n (metrics_log s)))"

definition turn_inv :: "turn \<Rightarrow> bool" where
  "turn_inv s \<longleftrightarrow> inv_counts s \<and> inv_gen s \<and> inv_phase s \<and> inv_queue s \<and> inv_metrics s"

subsection \<open>Lemmas on the operations of a turn\<close>

lemma consume_part_grows:
  "consume_part b ts p = Some (b', ts') \<Longrightarrow> \<exists>new. ts' = ts @ new"
  by (auto simp: consume_part_def extract_loop_eq_spec split: stream_part.splits if_splits)

lemma build_prompt_append:
  assumes "length rs < length ts"
  shows "build_prompt u (ts @ new) rs = build_prompt u ts rs"
proof -
  have "zip (ts @ new) rs = zip ts rs" using assms by (simp add: zip_append1)
  moreover have "(ts @ new) ! length rs = ts ! length rs" using assms by (simp add: nth_append)
  ultimately show ?thesis using assms by (simp add: build_prompt_shape)
qed

lemma response_fragments_snoc:
  "response_fragments n (rs @ [r]) = response_fragments n rs @ sentence_fragments r (n + length rs)"
  by (induction rs arbitrary: n) simp_all

text \<open>The text of the generated responses' fragments: each sentence's words joined by
  single spaces, followed by the separator fragment's space.\<close>

lemma response_fragments_text:
  "concat (map fragment_delta (response_fragments n rs)) =
     concat (map (\<lambda>r. join '' '' (sentence_words r) @ '' '') rs)"
  by (induction rs arbitrary: n)
     (simp_all add: sentence_fragments_def fragment_delta_def concat_word_deltas comp_def)

lemma sentence_words_nonempty: "w \<in> set (sentence_words r) \<Longrightarrow> w \<noteq> []"
  by (auto simp: sentence_words_def)

lemma word_deltas_nonempty: "d \<in> set (word_deltas ws) \<Longrightarrow> \<forall>w \<in> set ws. w \<noteq> [] \<Longrightarrow> d \<noteq> []"
  by (auto simp: word_deltas_def)

lemma sentence_fragments_nonempty:
  "f \<in> set (sentence_fragments r n) \<Longrightarrow> fragment_delta f \<noteq> []"
  using word_deltas_nonempty [of _ "sentence_words r"] sentence_words_nonempty [of _ r]
  by (auto simp: sentence_fragments_def fragment_delta_def)

lemma sentence_fragments_ids:
  "f \<in> set (sentence_fragments r n) \<Longrightarrow> fragment_id f = n \<or> fragment_id f = n + 1000"
  by (auto simp: sentence_fragments_def fragment_id_def)

lemma stop_condition_Nil [simp]: "\<not> stop_condition []"
  by (simp add: stop_condition_def should_stop_generation_def)

lemma stop_condition_lt5: "\<not> stop_condition rs \<Longrightarrow> length rs < 5"
  by (simp add: stop_condition_def)

lemmas turn_inv_defs = turn_inv_def inv_counts_def inv_gen_def inv_phase_def inv_queue_def
  inv_metrics_def

lemma metrics_running:
  "inv_metrics s \<Longrightarrow> \<not> turn_over (phase s) \<Longrightarrow> metrics_log s = constructor_log (config s)"
  by (simp add: inv_metrics_def Let_def) (metis append_take_drop_id drop_all order_refl self_append_conv)

lemma inv_metrics_running:
  "metrics_log s = constructor_log (config s) \<Longrightarrow> \<not> turn_over (phase s) \<Longrightarrow> inv_metrics s"
  by (simp add: inv_metrics_def)

lemma inv_metrics_send:
  assumes "inv_metrics s" "\<not> turn_over (phase s)" "turn_over p"
  shows "inv_metrics (send_metrics (s\<lparr>phase := p, ctl := c\<rparr>))"
  using assms metrics_running [OF assms(1,2)]
  by (simp add: inv_metrics_def send_metrics_def metrics_ok_def metrics_of_def)

lemma send_metrics_sel [simp]:
  "phase (send_metrics s) = phase s" "ctl (send_metrics s) = ctl s" "gen (send_metrics s) = gen s"
  "thoughts (send_metrics s) = thoughts s" "responses (send_metrics s) = responses s"
  "config (send_metrics s) = config s" "reader (send_metrics s) = reader s"
  "user_input (send_metrics s) = user_input s" "text_id (send_metrics s) = text_id s"
  "last_thought_count (send_metrics s) = last_thought_count s"
  "wait_count (send_metrics s) = wait_count s"
  by (simp_all add: send_metrics_def)

lemma error_controller_queue [simp]: "ctl_queue (error_controller c) = ctl_queue c"
  by (simp add: error_controller_def)

lemma error_controller_status: "ctl_status (error_controller c) \<noteq> Readable"
  by (simp add: error_controller_def)

lemma fail_turn_frame:
  "inv_counts (fail_turn s) = inv_counts s" "inv_gen (fail_turn s) = inv_gen s"
  "inv_queue (fail_turn s) = inv_queue s"
  by (simp_all add: fail_turn_def inv_counts_def inv_gen_def inv_queue_def split: gen_pc.split)

lemma fail_turn_inv:
  assumes "turn_inv s" "\<not> turn_over (phase s)"
  shows "turn_inv (fail_turn s)"
proof -
  have "inv_metrics (fail_turn s)"
    unfolding fail_turn_def
    using assms by (intro inv_metrics_send) (simp_all add: turn_inv_def turn_over_def)
  moreover have "inv_phase (fail_turn s)"
    using error_controller_status [of "ctl s"] by (simp add: fail_turn_def inv_phase_def)
  ultimately show ?thesis
    using assms(1) by (simp add: turn_inv_def fail_turn_frame)
qed

lemma running_inv:
  "inv_counts t \<Longrightarrow> inv_gen t \<Longrightarrow> inv_phase t \<Longrightarrow> inv_queue t \<Longrightarrow>
     metrics_log t = constructor_log (config t) \<Longrightarrow> \<not> turn_over (phase t) \<Longrightarrow> turn_inv t"
  by (simp add: turn_inv_def inv_metrics_running)

text \<open>The loop top keeps the invariant of a running turn whose stop test has failed.\<close>

lemma gen_top_inv:
  assumes "inv_counts s" "inv_phase s" "inv_queue s" "metrics_log s = constructor_log (config s)"
    and "phase s = Concurrent" "\<not> stop_condition (responses s)"
  shows "turn_inv (gen_top s)"
proof (cases "wait_count s < 100")
  case True
  with assms show ?thesis
    by (cases "last_thought_count s < length (thoughts s)")
       (simp_all add: gen_top_def running_inv inv_counts_def inv_gen_def inv_phase_def
         inv_queue_def turn_over_def)
next
  case False
  with assms show ?thesis
    by (simp add: gen_top_def running_inv inv_counts_def inv_gen_def inv_phase_def
        inv_queue_def turn_over_def)
qed

text \<open>The loop top and the stop test touch only the loop's own counters.\<close>

lemma gen_top_sel [simp]:
  "phase (gen_top s) = phase s" "ctl (gen_top s) = ctl s" "responses (gen_top s) = responses s"
  "thoughts (gen_top s) = thoughts s" "first_response_set (gen_top s) = first_response_set s"
  "reader (gen_top s) = reader s" "metrics_log (gen_top s) = metrics_log s"
  "text_id (gen_top s) = text_id s" "config (gen_top s) = config s"
  "user_input (gen_top s) = user_input s"
  by (simp_all add: gen_top_def)

lemma gen_continue_sel [simp]:
  "phase (gen_continue s) = phase s" "ctl (gen_continue s) = ctl s"
  "responses (gen_continue s) = responses s" "thoughts (gen_continue s) = thoughts s"
  "first_response_set (gen_continue s) = first_response_set s" "reader (gen_continue s) = reader s"
  "metrics_log (gen_continue s) = metrics_log s" "text_id (gen_continue s) = text_id s"
  "config (gen_continue s) = config s" "user_input (gen_continue s) = user_input s"
  by (simp_all add: gen_continue_def)

lemma start_concurrent_inv:
  assumes "phase s = Immediate" "responses s = []" "metrics_log s = constructor_log (config s)"
    and "ctl_status (ctl s) \<noteq> Errored"
    and "list_all imm_fragment_ok (ctl_queue (ctl s))"
  shows "turn_inv (start_concurrent s)"
  unfolding start_concurrent_def
  by (rule gen_top_inv)
     (use assms in \<open>simp_all add: inv_counts_def inv_phase_def inv_queue_def\<close>)

lemma first_response_frame:
  "inv_counts (s\<lparr>first_response_set := b\<rparr>) = inv_counts s"
  "inv_gen (s\<lparr>first_response_set := b\<rparr>) = inv_gen s"
  "inv_phase (s\<lparr>first_response_set := b\<rparr>) = inv_phase s"
  "inv_queue (s\<lparr>first_response_set := b\<rparr>) = inv_queue s"
  by (simp_all add: inv_counts_def inv_gen_def inv_phase_def inv_queue_def
      split: gen_pc.split phase.split)

lemma first_response_inv:
  assumes "turn_inv s" "\<not> turn_over (phase s)"
  shows "turn_inv (s\<lparr>first_response_set := b\<rparr>)"
proof -
  have "inv_metrics (s\<lparr>first_response_set := b\<rparr>)"
    using assms metrics_running [of s] by (intro inv_metrics_running) (simp_all add: turn_inv_def)
  with assms(1) show ?thesis by (simp add: turn_inv_def first_response_frame)
qed

lemma immediate_fallback_inv:
  assumes "turn_inv s" "phase s = Immediate"
  shows "turn_inv (immediate_fallback s)"
proof (cases "ctl_status (ctl s) = Readable")
  case True
  define c where "c = (ctl s)\<lparr>ctl_queue := ctl_queue (ctl s) @ [TextDeltaOut 1 fallback_text]\<rparr>"
  have "immediate_fallback s = start_concurrent (s\<lparr>first_response_set := True, ctl := c\<rparr>)"
    using True by (simp add: immediate_fallback_def enqueue_def c_def)
  moreover have "turn_inv (start_concurrent (s\<lparr>first_response_set := True, ctl := c\<rparr>))"
    using assms True metrics_running [of s]
    by (intro start_concurrent_inv)
       (simp_all add: c_def fragment_id_def turn_inv_def inv_phase_def turn_over_def
         imm_fragment_ok_def fragment_delta_def fallback_text_def)
  ultimately show ?thesis by simp
next
  case False
  have "turn_inv (s\<lparr>first_response_set := True\<rparr>)"
    using assms by (simp add: first_response_inv turn_over_def)
  then have "turn_inv (fail_turn (s\<lparr>first_response_set := True\<rparr>))"
    using assms by (intro fail_turn_inv) (simp_all add: turn_over_def)
  with False show ?thesis by (simp add: immediate_fallback_def enqueue_def)
qed

lemma immediate_response_inv:
  assumes inv: "turn_inv s" and ph: "phase s = Immediate"
  shows "turn_inv (immediate_response s r)"
proof -
  from inv ph have st: "responses s = []" "ctl_queue (ctl s) = []" "ctl_status (ctl s) \<noteq> Errored"
    by (simp_all add: turn_inv_def inv_phase_def)
  from inv ph have ml: "metrics_log s = constructor_log (config s)"
    using metrics_running [of s] by (simp add: turn_inv_def turn_over_def)
  have fb: "turn_inv (immediate_fallback (s\<lparr>first_response_set := True\<rparr>))"
    using inv ph by (intro immediate_fallback_inv first_response_inv) (simp_all add: turn_over_def)
  show ?thesis
  proof (cases r)
    case (Inl e)
    then show ?thesis using immediate_fallback_inv [OF inv ph] by (simp add: immediate_response_def)
  next
    case (Inr x)
    show ?thesis
    proof (cases "x \<noteq> [] \<and> js_trim x \<noteq> []")
      case False
      then have "immediate_response s r = start_concurrent s"
        using Inr by (auto simp: immediate_response_def)
      moreover have "turn_inv (start_concurrent s)"
        using st ml ph by (intro start_concurrent_inv) simp_all
      ultimately show ?thesis by simp
    next
      case True
      show ?thesis
      proof (cases "ctl_status (ctl s)")
        case Readable
        define c where "c = (ctl s)\<lparr>ctl_queue := sentence_fragments x 1\<rparr>"
        have "immediate_response s r = start_concurrent (s\<lparr>first_response_set := True, ctl := c\<rparr>)"
          using Inr True Readable st
          by (simp add: immediate_response_def stream_sentence_tokens_status c_def)
        moreover have "turn_inv (start_concurrent (s\<lparr>first_response_set := True, ctl := c\<rparr>))"
          using st ml ph Readable sentence_fragments_ids [of _ x 1] sentence_fragments_nonempty [of _ x 1]
          by (intro start_concurrent_inv) (auto simp: c_def list_all_iff imm_fragment_ok_def)
        ultimately show ?thesis by simp
      next
        case Closed
        then have "immediate_response s r = immediate_fallback (s\<lparr>first_response_set := True\<rparr>)"
          using Inr True by (simp add: immediate_response_def stream_sentence_tokens_status)
        with fb show ?thesis by simp
      next
        case Errored
        with st show ?thesis by simp
      qed
    qed
  qed
qed

text \<open>The final metrics stay true of a state whose thoughts have grown.\<close>

lemma final_ok_mono:
  assumes "final_ok s e" "responses t = responses s" "thoughts_processed t = thoughts_processed s"
    and "first_response_set t = first_response_set s" "thoughts t = thoughts s @ new"
  shows "final_ok t e"
proof (cases e)
  case (FinalMetrics m)
  with assms show ?thesis by (simp add: metrics_ok_def)
qed (use assms in simp)

lemma inv_metrics_mono:
  assumes "inv_metrics s" "config t = config s" "phase t = phase s" "metrics_log t = metrics_log s"
    and "responses t = responses s" "thoughts_processed t = thoughts_processed s"
    and "first_response_set t = first_response_set s" "thoughts t = thoughts s @ new"
  shows "inv_metrics t"
  using assms final_ok_mono [of s _ t new] by (auto simp: inv_metrics_def list_all_iff Let_def)

lemma reader_moved_inv:
  assumes inv: "turn_inv s" and ph: "phase s \<noteq> Immediate" and st: "st \<noteq> NotStarted"
  shows "turn_inv (s\<lparr>pending := ps, reader := st\<rparr>)"
proof -
  let ?t = "s\<lparr>pending := ps, reader := st\<rparr>"
  have "inv_metrics ?t"
    by (rule inv_metrics_mono [where s = s and new = "[]"]) (use inv in \<open>simp_all add: turn_inv_def\<close>)
  moreover have "inv_counts ?t = inv_counts s" "inv_gen ?t = inv_gen s" "inv_queue ?t = inv_queue s"
    by (simp_all add: inv_counts_def inv_gen_def inv_queue_def split: gen_pc.split)
  moreover have "inv_phase ?t"
    using inv ph st by (cases "phase s") (simp_all add: turn_inv_def inv_phase_def)
  ultimately show ?thesis using inv by (simp add: turn_inv_def)
qed

lemma thoughts_grown_inv:
  assumes inv: "turn_inv s" and ph: "phase s \<noteq> Immediate"
  shows "turn_inv (s\<lparr>pending := ps, buffer := b, thoughts := thoughts s @ new\<rparr>)"
proof -
  let ?t = "s\<lparr>pending := ps, buffer := b, thoughts := thoughts s @ new\<rparr>"
  from inv have c: "inv_counts s" and g: "inv_gen s" by (simp_all add: turn_inv_def)
  have "inv_metrics ?t"
    by (rule inv_metrics_mono [where s = s and new = new]) (use inv in \<open>simp_all add: turn_inv_def\<close>)
  moreover have "inv_counts ?t" using c by (simp add: inv_counts_def)
  moreover have "inv_gen ?t"
  proof (cases "gen s")
    case (GenAwaitReply p)
    with c g have "length (responses s) < length (thoughts s)"
      by (simp add: inv_counts_def inv_gen_def)
    with GenAwaitReply g show ?thesis by (simp add: inv_gen_def build_prompt_append)
  qed (use g in \<open>simp_all add: inv_gen_def\<close>)
  moreover have "inv_phase ?t" "inv_queue ?t"
    using inv ph by (cases "phase s"; simp add: turn_inv_def inv_phase_def inv_queue_def)+
  ultimately show ?thesis by (simp add: turn_inv_def)
qed

lemma consumer_read_inv:
  assumes inv: "turn_inv s" and rd: "reader s = Reading"
  shows "turn_inv (consumer_read s)"
proof -
  from inv rd have ph: "phase s \<noteq> Immediate" by (auto simp: turn_inv_def inv_phase_def)
  show ?thesis
  proof (cases "pending s")
    case Nil
    have r: "turn_inv (s\<lparr>reader := st\<rparr>)" if "st \<noteq> NotStarted" for st
      using reader_moved_inv [OF inv ph that, of "pending s"] by simp
    from Nil show ?thesis using r [of ReadDone] r [of ReadFailed] by (simp add: consumer_read_def)
  next
    case (Cons p ps)
    show ?thesis
    proof (cases "consume_part (buffer s) (thoughts s) p")
      case None
      with Cons show ?thesis
        using reader_moved_inv [OF inv ph, where st = Spinning and ps = ps] by (simp add: consumer_read_def)
    next
      case (Some bt)
      obtain b ts where bt: "bt = (b, ts)" by (cases bt)
      with Some obtain new where "ts = thoughts s @ new" using consume_part_grows by blast
      with Cons Some bt show ?thesis
        using thoughts_grown_inv [OF inv ph, where ps = ps and b = b and new = new] by (simp add: consumer_read_def)
    qed
  qed
qed

lemma concurrent_facts:
  assumes "turn_inv s" "phase s = Concurrent"
  shows "inv_counts s" "inv_queue s" "reader s \<noteq> NotStarted" "ctl_status (ctl s) \<noteq> Errored"
    and "metrics_log s = constructor_log (config s)"
  using assms metrics_running [of s]
  by (simp_all add: turn_inv_def inv_phase_def turn_over_def)

lemma gen_continue_inv:
  assumes inv: "turn_inv s" and ph: "phase s = Concurrent"
  shows "turn_inv (gen_continue s)"
proof (cases "stop_condition (responses s)")
  case True
  with concurrent_facts [OF inv ph] ph show ?thesis
    by (simp add: gen_continue_def running_inv inv_counts_def inv_gen_def inv_phase_def
        inv_queue_def turn_over_def)
next
  case False
  have "turn_inv (gen_top s)"
    by (rule gen_top_inv) (use inv ph False concurrent_facts [OF inv ph] in \<open>simp_all add: turn_inv_def\<close>)
  with False show ?thesis by (simp add: gen_continue_def)
qed

lemma gen_continue_gen: "gen_continue (s\<lparr>gen := g\<rparr>) = gen_continue s"
  by (simp add: gen_continue_def gen_top_def)

lemma inv_queue_snoc:
  assumes "inv_queue s" "responses t = responses s @ [r]"
    and "ctl_queue (ctl t) = ctl_queue (ctl s) @ sentence_fragments r (Suc (length (responses s)))"
  shows "inv_queue t"
  using assms by (simp add: inv_queue_def Let_def response_fragments_snoc)

lemma gen_reply_inv:
  assumes inv: "turn_inv s" and ph: "phase s = Concurrent" and g: "gen s = GenAwaitReply p"
  shows "turn_inv (gen_reply s r)"
proof -
  note f = concurrent_facts [OF inv ph]
  from inv g have ns: "\<not> stop_condition (responses s)"
    and lt: "last_thought_count s < length (thoughts s)"
    by (simp_all add: turn_inv_def inv_gen_def)
  define resp where "resp = (case r of Inl _ \<Rightarrow> [] | Inr x \<Rightarrow> x)"
  show ?thesis
  proof (cases "resp \<noteq> [] \<and> js_trim resp \<noteq> []")
    case False
    then have "gen_reply s r = gen_continue s"
      by (auto simp: gen_reply_def resp_def [symmetric] Let_def)
    with gen_continue_inv [OF inv ph] show ?thesis by simp
  next
    case True
    show ?thesis
    proof (cases "ctl_status (ctl s)")
      case Readable
      define t where "t = s\<lparr>ctl := (ctl s)\<lparr>ctl_queue := ctl_queue (ctl s) @
                                 sentence_fragments resp (text_id s)\<rparr>,
                            text_id := Suc (text_id s), responses := responses s @ [resp],
                            last_thought_count := length (thoughts s), wait_count := 0\<rparr>"
      have eq: "gen_reply s r = gen_continue (t\<lparr>gen := GenDone\<rparr>)"
        using True Readable
        by (simp add: gen_reply_def resp_def [symmetric] Let_def stream_sentence_tokens_status t_def
            gen_continue_gen)
      have q: "inv_queue (t\<lparr>gen := GenDone\<rparr>)"
        by (rule inv_queue_snoc [where s = s and r = resp]) (use f in \<open>simp_all add: t_def inv_counts_def\<close>)
      have "turn_inv (t\<lparr>gen := GenDone\<rparr>)"
        using f ph lt q Readable stop_condition_lt5 [OF ns]
        by (simp add: t_def running_inv inv_counts_def inv_gen_def inv_phase_def turn_over_def)
      from gen_continue_inv [OF this] ph eq show ?thesis by (simp add: t_def)
    next
      case Closed
      then have "gen_reply s r = fail_turn s"
        using True by (simp add: gen_reply_def resp_def [symmetric] Let_def stream_sentence_tokens_status)
      then show ?thesis using fail_turn_inv [OF inv] ph by (simp add: turn_over_def)
    next
      case Errored
      with f show ?thesis by simp
    qed
  qed
qed

lemma finish_turn_inv:
  assumes inv: "turn_inv s" and ph: "phase s = Concurrent"
  shows "turn_inv (finish_turn s)"
proof -
  note f = concurrent_facts [OF inv ph]
  show ?thesis
  proof (cases "ctl_status (ctl s) = Readable")
    case True
    define c where "c = (ctl s)\<lparr>ctl_status := Closed\<rparr>"
    have eq: "finish_turn s = send_metrics (s\<lparr>phase := Finished, ctl := c\<rparr>)"
      using True by (simp add: finish_turn_def close_controller_def c_def)
    have "inv_metrics (send_metrics (s\<lparr>phase := Finished, ctl := c\<rparr>))"
      using inv ph by (intro inv_metrics_send) (simp_all add: turn_inv_def turn_over_def)
    moreover have "inv_counts (send_metrics (s\<lparr>phase := Finished, ctl := c\<rparr>)) = inv_counts s"
      "inv_gen (send_metrics (s\<lparr>phase := Finished, ctl := c\<rparr>)) = inv_gen s"
      "inv_queue (send_metrics (s\<lparr>phase := Finished, ctl := c\<rparr>)) = inv_queue s"
      by (simp_all add: inv_counts_def inv_gen_def inv_queue_def c_def split: gen_pc.split)
    moreover have "inv_phase (send_metrics (s\<lparr>phase := Finished, ctl := c\<rparr>))"
      by (simp add: inv_phase_def c_def)
    ultimately show ?thesis using eq inv by (simp add: turn_inv_def)
  next
    case False
    then have "finish_turn s = fail_turn s" by (simp add: finish_turn_def close_controller_def)
    then show ?thesis using fail_turn_inv [OF inv] ph by (simp add: turn_over_def)
  qed
qed

lemma cancel_inv:
  assumes inv: "turn_inv s" and st: "ctl_status (ctl s) = Readable"
  shows "turn_inv (cancel s)"
proof -
  have "inv_metrics (cancel s)"
    by (rule inv_metrics_mono [where s = s and new = "[]"])
       (use inv in \<open>simp_all add: turn_inv_def cancel_def\<close>)
  moreover have "inv_counts (cancel s) = inv_counts s" "inv_gen (cancel s) = inv_gen s"
    "inv_queue (cancel s) = inv_queue s"
    by (simp_all add: cancel_def inv_counts_def inv_gen_def inv_queue_def split: gen_pc.split)
  moreover have "inv_phase (cancel s)"
    using inv st by (cases "phase s") (simp_all add: turn_inv_def inv_phase_def cancel_def)
  ultimately show ?thesis using inv by (simp add: turn_inv_def)
qed

lemma turn_init_inv: "turn_inv (turn_init cfg prompt parts ending)"
  by (simp add: turn_init_def reset_def turn_inv_defs constructor_log_def turn_over_def)

lemma awaiting_prompt_Some [simp]: "awaiting_prompt g = Some p \<longleftrightarrow> g = GenAwaitReply p"
  by (cases g) simp_all

lemma step_inv:
  assumes inv: "turn_inv s" and st: "step s e = Some t"
  shows "turn_inv t"
proof (cases e)
  case (EvImmediate srv)
  with st show ?thesis by (auto split: if_splits intro: immediate_response_inv [OF inv])
next
  case EvRead
  with st show ?thesis by (auto split: if_splits intro: consumer_read_inv [OF inv])
next
  case EvGenPoll
  with st show ?thesis by (auto split: if_splits intro: gen_continue_inv [OF inv])
next
  case (EvGenReply srv)
  with st show ?thesis
    by (auto split: if_splits option.splits intro: gen_reply_inv [OF inv])
next
  case EvClose
  with st show ?thesis by (auto split: if_splits intro: finish_turn_inv [OF inv])
next
  case EvCancel
  with st show ?thesis by (auto split: if_splits intro: cancel_inv [OF inv])
qed

lemma reachable_turn_inv: "reachable s \<Longrightarrow> turn_inv s"
  by (induction rule: reachable.induct) (auto intro: turn_init_inv step_inv)


text \<open>The outward queue of a turn in the invariant: immediate fragments, then the responses'.\<close>

lemma turn_inv_queue_split:
  assumes "turn_inv s"
  shows "\<exists>fs. ctl_queue (ctl s) = fs @ response_fragments 1 (responses s) \<and> list_all imm_fragment_ok fs"
proof -
  let ?q = "ctl_queue (ctl s)" and ?g = "response_fragments 1 (responses s)"
  let ?k = "length ?q - length ?g"
  from assms have "drop ?k ?q = ?g" "list_all imm_fragment_ok (take ?k ?q)"
    by (simp_all add: turn_inv_def inv_queue_def Let_def)
  then show ?thesis by (metis append_take_drop_id)
qed

end
