(* ===== verification/Controller_Properties.thy ===== *)
theory Controller_Properties
  imports Controller
begin

text \<open>
  Properties of the Fusion Controller over its reachable states and runs: the
  counters and the prompt window (rule induction through \<open>reachable_turn_inv\<close>),
  what reaches the outward stream, the metrics calls, what happens once a turn is
  over, the generation loop's behaviour against a failing, a cooperative and a
  silent environment, and the two operations of the turn's start.  Each witness
  runs a concrete turn with \<open>run\<close> and evaluates it by \<open>simp\<close>.
\<close>

subsection \<open>A progress measure\<close>

text \<open>
  A lexicographic measure on turns: the phase, the responses still allowed, the
  idle polls left, the point of the generation loop, the reads left, whether the
  client may still cancel.
\<close>

fun phase_rank :: "phase \<Rightarrow> nat" where
  "phase_rank Immediate = 2"
| "phase_rank Concurrent = 1"
| "phase_rank _ = 0"

fun pc_rank :: "gen_pc \<Rightarrow> nat" where
  "pc_rank GenDelay = 2"
| "pc_rank (GenAwaitReply _) = 1"
| "pc_rank GenDone = 0"

definition turn_progress :: "(turn \<Rightarrow> nat) list" where
  "turn_progress =
     [\<lambda>s. phase_rank (phase s), \<lambda>s. 5 - length (responses s), \<lambda>s. 100 - wait_count s,
      \<lambda>s. pc_rank (gen s), \<lambda>s. length (pending s) + (if reader s = Reading then 1 else 0),
      \<lambda>s. if ctl_status (ctl s) = Readable then 1 else 0]"

text \<open>
  A cooperative event: every event but a delivery reply, and a delivery reply
  that is a non-blank success whatever the request.
\<close>

fun cooperative :: "event \<Rightarrow> bool" where
  "cooperative (EvGenReply srv) =
     (\<forall>q. js_trim (case call_result (srv q) of Inl _ \<Rightarrow> [] | Inr x \<Rightarrow> x) \<noteq> [])"
| "cooperative _ = True"

subsection \<open>Lemmas on runs\<close>

lemma reachable_run: "run s es = Some t \<Longrightarrow> reachable s \<Longrightarrow> reachable t"
  by (induction es arbitrary: s) (auto split: option.splits intro: reachable.step)

lemma run_append:
  "run s (xs @ ys) = (case run s xs of None \<Rightarrow> None | Some t \<Rightarrow> run t ys)"
  by (induction xs arbitrary: s) (simp_all split: option.split)

lemma update_gen_same: "gen s = g \<Longrightarrow> s\<lparr>gen := g\<rparr> = s"
  by (cases s) simp

text \<open>\<open>n\<close> polls that find no new thought only count the wait.\<close>

lemma idle_polls:
  assumes "phase s = Concurrent" "gen s = GenDelay" "reader s \<noteq> Spinning"
    and "\<not> stop_condition (responses s)" "length (thoughts s) \<le> last_thought_count s"
    and "wait_count s + n \<le> 100"
  shows "run s (replicate n EvGenPoll) = Some (s\<lparr>wait_count := wait_count s + n\<rparr>)"
  using assms
proof (induction n arbitrary: s)
  case (Suc n)
  let ?s' = "s\<lparr>wait_count := Suc (wait_count s)\<rparr>"
  have "step s EvGenPoll = Some ?s'"
    using Suc.prems update_gen_same [of s GenDelay] by (simp add: gen_continue_def gen_top_def)
  moreover have "run ?s' (replicate n EvGenPoll) = Some (?s'\<lparr>wait_count := wait_count ?s' + n\<rparr>)"
    using Suc.prems by (intro Suc.IH) simp_all
  ultimately show ?case by simp
qed simp

text \<open>A delivery call that fails sends the loop back to its top with nothing changed
  but the count of processed thoughts.\<close>

text \<open>A delivery call that fails sends the loop straight back to the same call, with
  nothing changed but the count of processed thoughts.\<close>

lemma failed_round:
  assumes "phase s = Concurrent" "gen s = GenAwaitReply (build_prompt (user_input s) (thoughts s) (responses s))"
    and "reader s \<noteq> Spinning" "\<not> stop_condition (responses s)"
    and "last_thought_count s < length (thoughts s)" "wait_count s < 100"
  shows "step s (EvGenReply (\<lambda>_. NetworkFailure)) =
           Some (s\<lparr>thoughts_processed := Suc (thoughts_processed s)\<rparr>)"
proof -
  have "gen_reply s (Inl TransportError) = s\<lparr>thoughts_processed := Suc (thoughts_processed s)\<rparr>"
    using assms update_gen_same [of s] by (simp add: gen_reply_def gen_continue_def gen_top_def)
  with assms show ?thesis by (simp add: call_smollm_def call_result_def)
qed

lemma find_user_append:
  "\<not> list_ex is_user_message xs \<Longrightarrow> find is_user_message (xs @ ys) = find is_user_message ys"
  by (induction xs) simp_all

lemma reachable_run_the: "run s es \<noteq> None \<Longrightarrow> reachable s \<Longrightarrow> reachable (the (run s es))"
  using reachable_run by fastforce

lemmas turn_eval_simps = turn_init_def reset_def constructor_log_def extract_user_input_def
  immediate_response_def immediate_fallback_def start_concurrent_def consumer_read_def
  gen_top_def gen_continue_def gen_reply_def stop_condition_def should_stop_generation_def
  finish_turn_def close_controller_def fail_turn_def error_controller_def send_metrics_def
  metrics_of_def cancel_def call_smollm_def call_result_def enqueue_def
  stream_sentence_tokens_status sentence_fragments_def sentence_words_def
  clean_eval_simps extract_eval_simps

lemma t1:
  "awaiting_prompt (gen (the (run (turn_init
      \<lparr>huggingface_endpoint_url = ''http://h'', huggingface_api_key = ''k'', temperature = None,
       fallback_behavior = None, on_metrics_update = True\<rparr>
      [UserMessage [TextPart ''Hi'']] [TextDelta ''1'' ''[bt]a b[et]''] EndDone)
      [EvImmediate (\<lambda>_. HttpReply 200 (Some (TextContent ''Ok''))), EvRead, EvGenPoll]))) =
   Some (build_prompt ''Hi'' [''a b''] [])"
  by (simp add: turn_eval_simps)

lemma t2:
  "ctl_queue (ctl (the (run (turn_init
      \<lparr>huggingface_endpoint_url = ''http://h'', huggingface_api_key = ''k'', temperature = None,
       fallback_behavior = None, on_metrics_update = True\<rparr>
      [UserMessage [TextPart ''Hi'']] [TextDelta ''1'' ''[bt]a b[et]''] EndDone)
      [EvImmediate (\<lambda>_. HttpReply 200 (Some (TextContent ''Ok''))), EvRead, EvGenPoll,
       EvGenReply (\<lambda>_. HttpReply 200 (Some (TextContent ''Yes sir'')))]))) =
   [TextDeltaOut 1 ''Ok'', TextDeltaOut 1001 '' '', TextDeltaOut 1 ''Yes '', TextDeltaOut 1 ''sir'',
    TextDeltaOut 1001 '' '']"
  by (simp add: turn_eval_simps)

lemma response_fragments_bounds:
  "f \<in> set (response_fragments n rs) \<Longrightarrow>
     fragment_delta f \<noteq> [] \<and> n \<le> fragment_id f \<and> fragment_id f < n + 1000 + length rs"
proof (induction rs arbitrary: n)
  case (Cons r rs)
  from Cons.prems have "f \<in> set (sentence_fragments r n) \<or> f \<in> set (response_fragments (Suc n) rs)"
    by simp
  then show ?case
  proof
    assume f: "f \<in> set (sentence_fragments r n)"
    from sentence_fragments_ids [OF f] sentence_fragments_nonempty [OF f] show ?case by auto
  next
    assume "f \<in> set (response_fragments (Suc n) rs)"
    from Cons.IH [OF this] show ?case by simp
  qed
qed simp

lemma stream_sentence_tokens_appends:
  "stream_sentence_tokens x n c = Inr c' \<Longrightarrow> \<exists>fs. ctl_queue c' = ctl_queue c @ fs"
  by (auto simp: stream_sentence_tokens_status split: if_splits ctl_status.splits)

text \<open>
  Once the outward stream is no longer readable (the client cancelled, or it
  errored), no step enqueues a fragment, none makes it readable again, and none
  ends the turn as \<open>Finished\<close>: \<open>enqueue\<close> and \<open>close\<close> throw, and the
  \<open>catch\<close> fails the turn.
\<close>

lemma unreadable_step:
  assumes "step x e = Some y" "ctl_status (ctl x) \<noteq> Readable"
  shows "ctl_queue (ctl y) = ctl_queue (ctl x) \<and> ctl_status (ctl y) \<noteq> Readable \<and>
         (phase y = Finished \<longrightarrow> phase x = Finished)"
proof (cases e)
  case (EvImmediate srv)
  with assms show ?thesis
    by (auto simp: immediate_response_def immediate_fallback_def enqueue_def start_concurrent_def
        fail_turn_def error_controller_def stream_sentence_tokens_status Let_def
        split: sum.splits if_splits ctl_status.splits)
next
  case EvRead
  with assms show ?thesis
    by (auto simp: consumer_read_def split: if_splits list.splits option.splits)
next
  case (EvGenReply srv)
  with assms show ?thesis
    by (auto simp: gen_reply_def fail_turn_def error_controller_def stream_sentence_tokens_status Let_def
        split: sum.splits if_splits ctl_status.splits option.splits)
next
  case EvClose
  with assms show ?thesis
    by (auto simp: finish_turn_def close_controller_def fail_turn_def error_controller_def
        split: if_splits)
qed (use assms in \<open>auto split: if_splits\<close>)

lemma unreadable_run:
  "run x es = Some y \<Longrightarrow> ctl_status (ctl x) \<noteq> Readable \<Longrightarrow>
     ctl_queue (ctl y) = ctl_queue (ctl x) \<and> ctl_status (ctl y) \<noteq> Readable \<and>
     (phase y = Finished \<longrightarrow> phase x = Finished)"
proof (induction es arbitrary: x)
  case (Cons e es)
  from Cons.prems obtain z where z: "step x e = Some z" "run z es = Some y"
    by (auto split: option.splits)
  from unreadable_step [OF z(1) Cons.prems(2)] Cons.IH [OF z(2)] show ?case by simp
qed simp

subsection \<open>Properties of the Fusion Controller\<close>

text \<open>
  C8.  A client cancel freezes the outward stream: from a reachable turn, after the
  client cancels, no later step adds a fragment or reopens the stream, and the turn
  can no longer end as \<open>Finished\<close>; the processor's next \<open>enqueue\<close> or
  \<open>close\<close> throws and the turn ends \<open>Failed\<close>.
\<close>

theorem cancel_freezes_output:
  assumes "reachable s" "step s EvCancel = Some t" "run t es = Some u"
  shows "ctl_queue (ctl u) = ctl_queue (ctl s) \<and> ctl_status (ctl u) \<noteq> Readable \<and> phase u \<noteq> Finished"
proof -
  from assms(2) have rd: "ctl_status (ctl s) = Readable" and t: "t = cancel s"
    by (simp_all split: if_splits)
  have "phase s \<noteq> Finished"
    using reachable_turn_inv [OF assms(1)] rd by (auto simp: turn_inv_def inv_phase_def)
  moreover have "ctl_queue (ctl t) = ctl_queue (ctl s)" "ctl_status (ctl t) = Closed" "phase t = phase s"
    by (simp_all add: t cancel_def)
  ultimately show ?thesis using unreadable_run [OF assms(3)] by auto
qed

theorem cancel_freezes_output_witness:
  "let s = the (run (turn_init \<lparr>huggingface_endpoint_url = ''http://h'', huggingface_api_key = ''k'', temperature = None, fallback_behavior = None, on_metrics_update = True\<rparr> [UserMessage [TextPart ''Hi'']] [TextDelta ''1'' ''[bt]a b[et]''] EndDone) [EvImmediate (\<lambda>_. HttpReply 200 (Some (TextContent ''Ok''))), EvRead]);
       es = [EvGenPoll, EvGenReply (\<lambda>_. HttpReply 200 (Some (TextContent ''Yes sir'')))] in
   reachable s \<and> step s EvCancel = Some (cancel s) \<and> run (cancel s) es \<noteq> None \<and>
   (let u = the (run (cancel s) es) in
      ctl_queue (ctl u) = ctl_queue (ctl s) \<and> ctl_status (ctl u) \<noteq> Readable \<and> phase u \<noteq> Finished)"
proof -
  define s where "s = the (run (turn_init \<lparr>huggingface_endpoint_url = ''http://h'', huggingface_api_key = ''k'', temperature = None, fallback_behavior = None, on_metrics_update = True\<rparr> [UserMessage [TextPart ''Hi'']] [TextDelta ''1'' ''[bt]a b[et]''] EndDone) [EvImmediate (\<lambda>_. HttpReply 200 (Some (TextContent ''Ok''))), EvRead])"
  define es where "es = [EvGenPoll, EvGenReply (\<lambda>_. HttpReply 200 (Some (TextContent ''Yes sir'')))]"
  have nn: "run (turn_init \<lparr>huggingface_endpoint_url = ''http://h'', huggingface_api_key = ''k'', temperature = None, fallback_behavior = None, on_metrics_update = True\<rparr> [UserMessage [TextPart ''Hi'']] [TextDelta ''1'' ''[bt]a b[et]''] EndDone) [EvImmediate (\<lambda>_. HttpReply 200 (Some (TextContent ''Ok''))), EvRead] \<noteq> None"
    by (simp add: turn_eval_simps)
  have reach: "reachable s"
    unfolding s_def by (rule reachable_run_the [OF nn reachable.init])
  have c: "step s EvCancel = Some (cancel s)"
    by (simp add: s_def turn_eval_simps)
  have nn2: "run (cancel s) es \<noteq> None"
    by (simp add: s_def es_def turn_eval_simps cancel_def)
  then have r: "run (cancel s) es = Some (the (run (cancel s) es))" by simp
  from cancel_freezes_output [OF reach c r] reach c nn2 show ?thesis
    unfolding Let_def s_def es_def by blast
qed

text \<open>
  C12.  In every reachable state of a turn the responses never outnumber the thoughts counted as handled, which never outnumber the thoughts extracted; there are at most five responses and at most 100 idle polls in a row.
\<close>

theorem reachable_counts:
  "reachable s \<Longrightarrow>
     length (responses s) \<le> last_thought_count s \<and> last_thought_count s \<le> length (thoughts s) \<and>
     length (responses s) \<le> 5 \<and> wait_count s \<le> 100"
  by (drule reachable_turn_inv) (simp add: turn_inv_def inv_counts_def)

theorem reachable_counts_witness:
  "let t = the (run (turn_init \<lparr>huggingface_endpoint_url = ''http://h'', huggingface_api_key = ''k'', temperature = None, fallback_behavior = None, on_metrics_update = True\<rparr> [UserMessage [TextPart ''Hi'']] [TextDelta ''1'' ''[bt]a b[et]''] EndDone)
      [EvImmediate (\<lambda>_. HttpReply 200 (Some (TextContent ''Ok''))), EvRead, EvGenPoll, EvGenReply (\<lambda>_. HttpReply 200 (Some (TextContent ''Yes sir'')))]) in
   reachable t \<and> length (responses t) = 1 \<and>
   length (responses t) \<le> last_thought_count t \<and> last_thought_count t \<le> length (thoughts t) \<and>
   length (responses t) \<le> 5 \<and> wait_count t \<le> 100"
proof -
  have nn: "run (turn_init \<lparr>huggingface_endpoint_url = ''http://h'', huggingface_api_key = ''k'', temperature = None, fallback_behavior = None, on_metrics_update = True\<rparr> [UserMessage [TextPart ''Hi'']] [TextDelta ''1'' ''[bt]a b[et]''] EndDone)
      [EvImmediate (\<lambda>_. HttpReply 200 (Some (TextContent ''Ok''))), EvRead, EvGenPoll, EvGenReply (\<lambda>_. HttpReply 200 (Some (TextContent ''Yes sir'')))] \<noteq> None"
    by (simp add: turn_eval_simps)
  have reach: "reachable (the (run (turn_init \<lparr>huggingface_endpoint_url = ''http://h'', huggingface_api_key = ''k'', temperature = None, fallback_behavior = None, on_metrics_update = True\<rparr> [UserMessage [TextPart ''Hi'']] [TextDelta ''1'' ''[bt]a b[et]''] EndDone)
      [EvImmediate (\<lambda>_. HttpReply 200 (Some (TextContent ''Ok''))), EvRead, EvGenPoll, EvGenReply (\<lambda>_. HttpReply 200 (Some (TextContent ''Yes sir'')))]))"
    by (rule reachable_run_the [OF nn reachable.init])
  have "length (responses (the (run (turn_init \<lparr>huggingface_endpoint_url = ''http://h'', huggingface_api_key = ''k'', temperature = None, fallback_behavior = None, on_metrics_update = True\<rparr> [UserMessage [TextPart ''Hi'']] [TextDelta ''1'' ''[bt]a b[et]''] EndDone)
      [EvImmediate (\<lambda>_. HttpReply 200 (Some (TextContent ''Ok''))), EvRead, EvGenPoll, EvGenReply (\<lambda>_. HttpReply 200 (Some (TextContent ''Yes sir'')))]))) = 1"
    by (simp add: turn_eval_simps)
  with reachable_counts [OF reach] reach show ?thesis by (simp add: Let_def)
qed

text \<open>
  C13.  Whenever the generation loop awaits a delivery reply, a thought is waiting (more thoughts than responses) and the prompt sent is the user turn, every earlier response paired with the thought of its index, and the thought at index responses.length: the prompt never reads past the thought list, even though thoughts may have arrived since it was built.
\<close>

theorem reachable_prompt_window:
  assumes "reachable s" "awaiting_prompt (gen s) = Some p"
  shows "length (responses s) < length (thoughts s) \<and>
         p = chat_turn ''user'' (user_input s) @
             concat (map (\<lambda>(t, r). chat_turn ''knowledge'' t @ chat_turn ''assistant'' r)
                         (zip (thoughts s) (responses s))) @
             chat_turn ''knowledge'' (thoughts s ! length (responses s)) @ assistant_open"
proof -
  from reachable_turn_inv [OF assms(1)] have "inv_counts s" "inv_gen s" by (simp_all add: turn_inv_def)
  with assms(2) have lt: "length (responses s) < length (thoughts s)"
    and p: "p = build_prompt (user_input s) (thoughts s) (responses s)"
    by (simp_all add: inv_counts_def inv_gen_def)
  from lt show ?thesis by (simp add: p build_prompt_shape)
qed

theorem reachable_prompt_window_witness:
  "let t = the (run (turn_init \<lparr>huggingface_endpoint_url = ''http://h'', huggingface_api_key = ''k'', temperature = None, fallback_behavior = None, on_metrics_update = True\<rparr> [UserMessage [TextPart ''Hi'']] [TextDelta ''1'' ''[bt]a b[et]''] EndDone)
      [EvImmediate (\<lambda>_. HttpReply 200 (Some (TextContent ''Ok''))), EvRead, EvGenPoll]) in
   reachable t \<and> awaiting_prompt (gen t) = Some (build_prompt ''Hi'' [''a b''] []) \<and>
   length (responses t) < length (thoughts t) \<and>
   build_prompt ''Hi'' [''a b''] [] =
     chat_turn ''user'' (user_input t) @
     concat (map (\<lambda>(t, r). chat_turn ''knowledge'' t @ chat_turn ''assistant'' r)
                 (zip (thoughts t) (responses t))) @
     chat_turn ''knowledge'' (thoughts t ! length (responses t)) @ assistant_open"
proof -
  have nn: "run (turn_init \<lparr>huggingface_endpoint_url = ''http://h'', huggingface_api_key = ''k'', temperature = None, fallback_behavior = None, on_metrics_update = True\<rparr> [UserMessage [TextPart ''Hi'']] [TextDelta ''1'' ''[bt]a b[et]''] EndDone)
      [EvImmediate (\<lambda>_. HttpReply 200 (Some (TextContent ''Ok''))), EvRead, EvGenPoll] \<noteq> None"
    by (simp add: turn_eval_simps)
  have reach: "reachable (the (run (turn_init \<lparr>huggingface_endpoint_url = ''http://h'', huggingface_api_key = ''k'', temperature = None, fallback_behavior = None, on_metrics_update = True\<rparr> [UserMessage [TextPart ''Hi'']] [TextDelta ''1'' ''[bt]a b[et]''] EndDone)
      [EvImmediate (\<lambda>_. HttpReply 200 (Some (TextContent ''Ok''))), EvRead, EvGenPoll]))"
    by (rule reachable_run_the [OF nn reachable.init])
  have g: "awaiting_prompt (gen (the (run (turn_init \<lparr>huggingface_endpoint_url = ''http://h'', huggingface_api_key = ''k'', temperature = None, fallback_behavior = None, on_metrics_update = True\<rparr> [UserMessage [TextPart ''Hi'']] [TextDelta ''1'' ''[bt]a b[et]''] EndDone)
      [EvImmediate (\<lambda>_. HttpReply 200 (Some (TextContent ''Ok''))), EvRead, EvGenPoll]))) =
             Some (build_prompt ''Hi'' [''a b''] [])"
    by (simp add: turn_eval_simps)
  from reachable_prompt_window [OF reach g] reach g show ?thesis by (simp add: Let_def)
qed

text \<open>
  C14.  The outward stream holds what the immediate response emitted, under the ids 1 and 1001 only, followed by the fragments of the generated responses in order, response i under id i + 1 and its separator under i + 1001.  So the first generated response shares id 1 with the immediate response.
\<close>

theorem reachable_queue:
  "reachable s \<Longrightarrow>
     \<exists>imm. ctl_queue (ctl s) = imm @ response_fragments 1 (responses s) \<and>
           list_all (\<lambda>f. fragment_id f = 1 \<or> fragment_id f = 1001) imm"
proof -
  assume "reachable s"
  then have q: "inv_queue s" using reachable_turn_inv by (simp add: turn_inv_def)
  let ?k = "length (ctl_queue (ctl s)) - length (response_fragments 1 (responses s))"
  have "ctl_queue (ctl s) = take ?k (ctl_queue (ctl s)) @ response_fragments 1 (responses s)"
    using q by (metis append_take_drop_id inv_queue_def)
  with q show ?thesis by (auto simp: inv_queue_def Let_def list_all_iff imm_fragment_ok_def)
qed

theorem reachable_queue_witness:
  "let t = the (run (turn_init \<lparr>huggingface_endpoint_url = ''http://h'', huggingface_api_key = ''k'', temperature = None, fallback_behavior = None, on_metrics_update = True\<rparr> [UserMessage [TextPart ''Hi'']] [TextDelta ''1'' ''[bt]a b[et]''] EndDone)
      [EvImmediate (\<lambda>_. HttpReply 200 (Some (TextContent ''Ok''))), EvRead, EvGenPoll, EvGenReply (\<lambda>_. HttpReply 200 (Some (TextContent ''Yes sir'')))]) in
   reachable t \<and> responses t = [''Yes sir''] \<and>
   ctl_queue (ctl t) = [TextDeltaOut 1 ''Ok'', TextDeltaOut 1001 '' '', TextDeltaOut 1 ''Yes '', TextDeltaOut 1 ''sir'', TextDeltaOut 1001 '' ''] \<and>
   (\<exists>imm. ctl_queue (ctl t) = imm @ response_fragments 1 (responses t) \<and>
          list_all (\<lambda>f. fragment_id f = 1 \<or> fragment_id f = 1001) imm)"
proof -
  have nn: "run (turn_init \<lparr>huggingface_endpoint_url = ''http://h'', huggingface_api_key = ''k'', temperature = None, fallback_behavior = None, on_metrics_update = True\<rparr> [UserMessage [TextPart ''Hi'']] [TextDelta ''1'' ''[bt]a b[et]''] EndDone)
      [EvImmediate (\<lambda>_. HttpReply 200 (Some (TextContent ''Ok''))), EvRead, EvGenPoll, EvGenReply (\<lambda>_. HttpReply 200 (Some (TextContent ''Yes sir'')))] \<noteq> None"
    by (simp add: turn_eval_simps)
  have reach: "reachable (the (run (turn_init \<lparr>huggingface_endpoint_url = ''http://h'', huggingface_api_key = ''k'', temperature = None, fallback_behavior = None, on_metrics_update = True\<rparr> [UserMessage [TextPart ''Hi'']] [TextDelta ''1'' ''[bt]a b[et]''] EndDone)
      [EvImmediate (\<lambda>_. HttpReply 200 (Some (TextContent ''Ok''))), EvRead, EvGenPoll, EvGenReply (\<lambda>_. HttpReply 200 (Some (TextContent ''Yes sir'')))]))"
    by (rule reachable_run_the [OF nn reachable.init])
  have "responses (the (run (turn_init \<lparr>huggingface_endpoint_url = ''http://h'', huggingface_api_key = ''k'', temperature = None, fallback_behavior = None, on_metrics_update = True\<rparr> [UserMessage [TextPart ''Hi'']] [TextDelta ''1'' ''[bt]a b[et]''] EndDone)
      [EvImmediate (\<lambda>_. HttpReply 200 (Some (TextContent ''Ok''))), EvRead, EvGenPoll, EvGenReply (\<lambda>_. HttpReply 200 (Some (TextContent ''Yes sir'')))])) = [''Yes sir''] \<and>
        ctl_queue (ctl (the (run (turn_init \<lparr>huggingface_endpoint_url = ''http://h'', huggingface_api_key = ''k'', temperature = None, fallback_behavior = None, on_metrics_update = True\<rparr> [UserMessage [TextPart ''Hi'']] [TextDelta ''1'' ''[bt]a b[et]''] EndDone)
      [EvImmediate (\<lambda>_. HttpReply 200 (Some (TextContent ''Ok''))), EvRead, EvGenPoll, EvGenReply (\<lambda>_. HttpReply 200 (Some (TextContent ''Yes sir'')))]))) = [TextDeltaOut 1 ''Ok'', TextDeltaOut 1001 '' '', TextDeltaOut 1 ''Yes '', TextDeltaOut 1 ''sir'', TextDeltaOut 1001 '' '']"
    by (simp add: turn_eval_simps)
  with reachable_queue [OF reach] reach show ?thesis by (simp add: Let_def)
qed

text \<open>
  C15.  The metrics callback receives the constructor's event and then no final metrics while the turn runs and exactly one report once it is over, on the success and on the failure path alike; that report gives the responses and the processed count as they stand, and a count of extracted thoughts no larger than the thoughts now held (its thoughts field is the live array).
\<close>

theorem reachable_metrics:
  "reachable s \<Longrightarrow>
     \<exists>ms. metrics_log s = constructor_log (config s) @ ms \<and>
          length ms = (if on_metrics_update (config s) \<and> turn_over (phase s) then 1 else 0) \<and>
          list_all (final_ok s) ms"
proof -
  assume "reachable s"
  then have m: "inv_metrics s" using reachable_turn_inv by (simp add: turn_inv_def)
  let ?n = "length (constructor_log (config s))"
  have "metrics_log s = constructor_log (config s) @ drop ?n (metrics_log s)"
    using m by (metis append_take_drop_id inv_metrics_def)
  with m show ?thesis by (auto simp: inv_metrics_def Let_def)
qed

theorem reachable_metrics_witness:
  "let t = the (run (turn_init \<lparr>huggingface_endpoint_url = ''http://h'', huggingface_api_key = ''k'', temperature = None, fallback_behavior = None, on_metrics_update = True\<rparr> [UserMessage [TextPart ''Hi'']] [TextDelta ''1'' ''[bt]a b[et]''] EndDone)
      [EvCancel, EvImmediate (\<lambda>_. HttpReply 200 (Some (TextContent ''Ok'')))]) in
   reachable t \<and> phase t = Failed \<and> ctl_queue (ctl t) = [] \<and>
   (\<exists>ms. metrics_log t = constructor_log (config t) @ ms \<and>
         length ms = (if on_metrics_update (config t) \<and> turn_over (phase t) then 1 else 0) \<and>
         list_all (final_ok t) ms)"
proof -
  have nn: "run (turn_init \<lparr>huggingface_endpoint_url = ''http://h'', huggingface_api_key = ''k'', temperature = None, fallback_behavior = None, on_metrics_update = True\<rparr> [UserMessage [TextPart ''Hi'']] [TextDelta ''1'' ''[bt]a b[et]''] EndDone)
      [EvCancel, EvImmediate (\<lambda>_. HttpReply 200 (Some (TextContent ''Ok'')))] \<noteq> None"
    by (simp add: turn_eval_simps)
  have reach: "reachable (the (run (turn_init \<lparr>huggingface_endpoint_url = ''http://h'', huggingface_api_key = ''k'', temperature = None, fallback_behavior = None, on_metrics_update = True\<rparr> [UserMessage [TextPart ''Hi'']] [TextDelta ''1'' ''[bt]a b[et]''] EndDone)
      [EvCancel, EvImmediate (\<lambda>_. HttpReply 200 (Some (TextContent ''Ok'')))]))"
    by (rule reachable_run_the [OF nn reachable.init])
  have "phase (the (run (turn_init \<lparr>huggingface_endpoint_url = ''http://h'', huggingface_api_key = ''k'', temperature = None, fallback_behavior = None, on_metrics_update = True\<rparr> [UserMessage [TextPart ''Hi'']] [TextDelta ''1'' ''[bt]a b[et]''] EndDone)
      [EvCancel, EvImmediate (\<lambda>_. HttpReply 200 (Some (TextContent ''Ok'')))])) = Failed \<and>
        ctl_queue (ctl (the (run (turn_init \<lparr>huggingface_endpoint_url = ''http://h'', huggingface_api_key = ''k'', temperature = None, fallback_behavior = None, on_metrics_update = True\<rparr> [UserMessage [TextPart ''Hi'']] [TextDelta ''1'' ''[bt]a b[et]''] EndDone)
      [EvCancel, EvImmediate (\<lambda>_. HttpReply 200 (Some (TextContent ''Ok'')))]))) = []"
    by (simp add: turn_eval_simps)
  with reachable_metrics [OF reach] reach show ?thesis by (simp add: Let_def)
qed

text \<open>
  C16.  Once a turn is over nothing more reaches the outward stream, the responses and the metrics do not change, and the turn stays over; only the detached consumer may still read the reasoning stream.
\<close>

theorem turn_over_frozen:
  assumes "reachable s" "turn_over (phase s)" "step s e = Some t"
  shows "turn_over (phase t) \<and> ctl t = ctl s \<and> responses t = responses s \<and>
         metrics_log t = metrics_log s"
proof -
  from reachable_turn_inv [OF assms(1)] assms(2)
  have "ctl_status (ctl s) \<noteq> Readable"
    by (auto simp: turn_inv_def inv_phase_def turn_over_def)
  with assms(2,3) show ?thesis
    by (cases e) (auto simp: turn_over_def consumer_read_def split: if_splits list.splits option.splits)
qed

theorem turn_over_frozen_witness:
  "let t = the (run (turn_init \<lparr>huggingface_endpoint_url = ''http://h'', huggingface_api_key = ''k'', temperature = None, fallback_behavior = None, on_metrics_update = True\<rparr> [UserMessage [TextPart ''Hi'']] [TextDelta ''1'' ''[bt]a b[et]''] EndDone)
      [EvImmediate (\<lambda>_. HttpReply 200 (Some (TextContent ''Ok''))), EvRead, EvGenPoll, EvCancel, EvGenReply (\<lambda>_. HttpReply 200 (Some (TextContent ''Yes'')))]) in
   reachable t \<and> turn_over (phase t) \<and> step t EvRead = Some (consumer_read t) \<and>
   turn_over (phase (consumer_read t)) \<and> ctl (consumer_read t) = ctl t \<and>
   responses (consumer_read t) = responses t \<and> metrics_log (consumer_read t) = metrics_log t"
proof -
  have nn: "run (turn_init \<lparr>huggingface_endpoint_url = ''http://h'', huggingface_api_key = ''k'', temperature = None, fallback_behavior = None, on_metrics_update = True\<rparr> [UserMessage [TextPart ''Hi'']] [TextDelta ''1'' ''[bt]a b[et]''] EndDone)
      [EvImmediate (\<lambda>_. HttpReply 200 (Some (TextContent ''Ok''))), EvRead, EvGenPoll, EvCancel, EvGenReply (\<lambda>_. HttpReply 200 (Some (TextContent ''Yes'')))] \<noteq> None"
    by (simp add: turn_eval_simps)
  have reach: "reachable (the (run (turn_init \<lparr>huggingface_endpoint_url = ''http://h'', huggingface_api_key = ''k'', temperature = None, fallback_behavior = None, on_metrics_update = True\<rparr> [UserMessage [TextPart ''Hi'']] [TextDelta ''1'' ''[bt]a b[et]''] EndDone)
      [EvImmediate (\<lambda>_. HttpReply 200 (Some (TextContent ''Ok''))), EvRead, EvGenPoll, EvCancel, EvGenReply (\<lambda>_. HttpReply 200 (Some (TextContent ''Yes'')))]))"
    by (rule reachable_run_the [OF nn reachable.init])
  have h: "turn_over (phase (the (run (turn_init \<lparr>huggingface_endpoint_url = ''http://h'', huggingface_api_key = ''k'', temperature = None, fallback_behavior = None, on_metrics_update = True\<rparr> [UserMessage [TextPart ''Hi'']] [TextDelta ''1'' ''[bt]a b[et]''] EndDone)
      [EvImmediate (\<lambda>_. HttpReply 200 (Some (TextContent ''Ok''))), EvRead, EvGenPoll, EvCancel, EvGenReply (\<lambda>_. HttpReply 200 (Some (TextContent ''Yes'')))])))"
    "step (the (run (turn_init \<lparr>huggingface_endpoint_url = ''http://h'', huggingface_api_key = ''k'', temperature = None, fallback_behavior = None, on_metrics_update = True\<rparr> [UserMessage [TextPart ''Hi'']] [TextDelta ''1'' ''[bt]a b[et]''] EndDone)
      [EvImmediate (\<lambda>_. HttpReply 200 (Some (TextContent ''Ok''))), EvRead, EvGenPoll, EvCancel, EvGenReply (\<lambda>_. HttpReply 200 (Some (TextContent ''Yes'')))])) EvRead =
       Some (consumer_read (the (run (turn_init \<lparr>huggingface_endpoint_url = ''http://h'', huggingface_api_key = ''k'', temperature = None, fallback_behavior = None, on_metrics_update = True\<rparr> [UserMessage [TextPart ''Hi'']] [TextDelta ''1'' ''[bt]a b[et]''] EndDone)
      [EvImmediate (\<lambda>_. HttpReply 200 (Some (TextContent ''Ok''))), EvRead, EvGenPoll, EvCancel, EvGenReply (\<lambda>_. HttpReply 200 (Some (TextContent ''Yes'')))])))"
    by (simp_all add: turn_eval_simps turn_over_def)
  from turn_over_frozen [OF reach h] reach h show ?thesis by (simp only: Let_def simp_thms)
qed

text \<open>
  C17.  If the delivery server fails every call while a thought is pending, the generation loop never ends: each failure sends the loop straight back to the same delivery call, so there is an infinite run of failed replies in which the turn stays concurrent, keeps awaiting the same prompt, emits nothing and adds no response; the idle counter that would end the loop is never advanced on this path.
\<close>

theorem failing_server_never_closes:
  assumes "reachable s" "phase s = Concurrent" "awaiting_prompt (gen s) = Some p"
    and "reader s \<noteq> Spinning" "wait_count s < 100"
  shows "\<exists>f. f 0 = s \<and> (\<forall>i. step (f i) (EvGenReply (\<lambda>_. NetworkFailure)) = Some (f (Suc i))) \<and>
           (\<forall>i. phase (f i) = Concurrent \<and> ctl (f i) = ctl s \<and> responses (f i) = responses s \<and>
                gen (f i) = gen s)"
proof -
  from reachable_turn_inv [OF assms(1)] assms(3)
  have ns: "\<not> stop_condition (responses s)" and lt: "last_thought_count s < length (thoughts s)"
    and g: "gen s = GenAwaitReply (build_prompt (user_input s) (thoughts s) (responses s))"
    by (simp_all add: turn_inv_def inv_gen_def)
  define f where "f i = s\<lparr>thoughts_processed := thoughts_processed s + i\<rparr>" for i
  have "step (f i) (EvGenReply (\<lambda>_. NetworkFailure)) = Some (f (Suc i))" for i
    using failed_round [of "f i"] assms ns lt g by (simp add: f_def)
  moreover have "f 0 = s" by (simp add: f_def)
  moreover have "\<forall>i. phase (f i) = Concurrent \<and> ctl (f i) = ctl s \<and> responses (f i) = responses s \<and>
                   gen (f i) = gen s"
    using assms(2) by (simp add: f_def)
  ultimately show ?thesis by blast
qed

theorem failing_server_never_closes_witness:
  "let t = the (run (turn_init \<lparr>huggingface_endpoint_url = ''http://h'', huggingface_api_key = ''k'', temperature = None, fallback_behavior = None, on_metrics_update = True\<rparr> [UserMessage [TextPart ''Hi'']] [TextDelta ''1'' ''[bt]a b[et]''] EndDone)
      [EvImmediate (\<lambda>_. HttpReply 200 (Some (TextContent ''Ok''))), EvRead, EvGenPoll]) in
   reachable t \<and> phase t = Concurrent \<and> awaiting_prompt (gen t) = Some (build_prompt ''Hi'' [''a b''] []) \<and>
   reader t \<noteq> Spinning \<and> wait_count t < 100 \<and>
   (\<exists>f. f 0 = t \<and> (\<forall>i. step (f i) (EvGenReply (\<lambda>_. NetworkFailure)) = Some (f (Suc i))) \<and>
        (\<forall>i. phase (f i) = Concurrent \<and> ctl (f i) = ctl t \<and> responses (f i) = responses t \<and>
             gen (f i) = gen t))"
proof -
  have nn: "(run (turn_init \<lparr>huggingface_endpoint_url = ''http://h'', huggingface_api_key = ''k'', temperature = None, fallback_behavior = None, on_metrics_update = True\<rparr> [UserMessage [TextPart ''Hi'']] [TextDelta ''1'' ''[bt]a b[et]''] EndDone)
      [EvImmediate (\<lambda>_. HttpReply 200 (Some (TextContent ''Ok''))), EvRead, EvGenPoll]) \<noteq> None"
    by (simp add: turn_eval_simps)
  have reach: "reachable (the (run (turn_init \<lparr>huggingface_endpoint_url = ''http://h'', huggingface_api_key = ''k'', temperature = None, fallback_behavior = None, on_metrics_update = True\<rparr> [UserMessage [TextPart ''Hi'']] [TextDelta ''1'' ''[bt]a b[et]''] EndDone)
      [EvImmediate (\<lambda>_. HttpReply 200 (Some (TextContent ''Ok''))), EvRead, EvGenPoll]))"
    by (rule reachable_run_the [OF nn reachable.init])
  have h: "phase (the (run (turn_init \<lparr>huggingface_endpoint_url = ''http://h'', huggingface_api_key = ''k'', temperature = None, fallback_behavior = None, on_metrics_update = True\<rparr> [UserMessage [TextPart ''Hi'']] [TextDelta ''1'' ''[bt]a b[et]''] EndDone)
      [EvImmediate (\<lambda>_. HttpReply 200 (Some (TextContent ''Ok''))), EvRead, EvGenPoll])) = Concurrent"
    "awaiting_prompt (gen (the (run (turn_init \<lparr>huggingface_endpoint_url = ''http://h'', huggingface_api_key = ''k'', temperature = None, fallback_behavior = None, on_metrics_update = True\<rparr> [UserMessage [TextPart ''Hi'']] [TextDelta ''1'' ''[bt]a b[et]''] EndDone)
      [EvImmediate (\<lambda>_. HttpReply 200 (Some (TextContent ''Ok''))), EvRead, EvGenPoll]))) = Some (build_prompt ''Hi'' [''a b''] [])"
    "reader (the (run (turn_init \<lparr>huggingface_endpoint_url = ''http://h'', huggingface_api_key = ''k'', temperature = None, fallback_behavior = None, on_metrics_update = True\<rparr> [UserMessage [TextPart ''Hi'']] [TextDelta ''1'' ''[bt]a b[et]''] EndDone)
      [EvImmediate (\<lambda>_. HttpReply 200 (Some (TextContent ''Ok''))), EvRead, EvGenPoll])) \<noteq> Spinning"
    "wait_count (the (run (turn_init \<lparr>huggingface_endpoint_url = ''http://h'', huggingface_api_key = ''k'', temperature = None, fallback_behavior = None, on_metrics_update = True\<rparr> [UserMessage [TextPart ''Hi'']] [TextDelta ''1'' ''[bt]a b[et]''] EndDone)
      [EvImmediate (\<lambda>_. HttpReply 200 (Some (TextContent ''Ok''))), EvRead, EvGenPoll])) < 100"
    by (simp_all add: turn_eval_simps)
  from failing_server_never_closes [OF reach h] reach h show ?thesis by (simp only: Let_def simp_thms)
qed

text \<open>With a cooperative event, every step of a reachable turn decreases the progress measure.\<close>

lemma cooperative_step_decreases:
  assumes "reachable s" "step s e = Some t" "cooperative e"
  shows "(t, s) \<in> measures turn_progress"
proof -
  have inv: "turn_inv s" using reachable_turn_inv [OF assms(1)] .
  have "(t, s) \<in> measures turn_progress"
  proof (cases e)
    case (EvImmediate srv)
    with assms(2) have "phase s = Immediate" "t = immediate_response s (call_smollm srv (config s) (immediate_prompt (user_input s)))"
      by (simp_all split: if_splits)
    then show ?thesis
      by (auto simp: turn_progress_def immediate_response_def immediate_fallback_def start_concurrent_def
          fail_turn_def Let_def split: sum.splits)
  next
    case EvRead
    with assms(2) have r: "reader s = Reading" "t = consumer_read s" by (simp_all split: if_splits)
    then show ?thesis
      by (auto simp: turn_progress_def consumer_read_def split: list.splits option.splits)
  next
    case EvGenPoll
    with assms(2) have p: "phase s = Concurrent" "gen s = GenDelay" "t = gen_continue s"
      by (simp_all split: if_splits)
    from inv p have "wait_count s \<le> 100" "\<not> stop_condition (responses s)"
      by (simp_all add: turn_inv_def inv_counts_def inv_gen_def)
    with p show ?thesis
      by (auto simp: turn_progress_def gen_continue_def gen_top_def)
  next
    case (EvGenReply srv)
    with assms(2) obtain p where p: "phase s = Concurrent" "gen s = GenAwaitReply p"
      "t = gen_reply s (call_smollm srv (config s) p)"
      by (auto split: if_splits option.splits)
    from inv p have ns: "\<not> stop_condition (responses s)" and st: "ctl_status (ctl s) \<noteq> Errored"
      by (simp_all add: turn_inv_def inv_gen_def inv_phase_def)
    from assms(3) EvGenReply have nb:
      "js_trim (case call_smollm srv (config s) p of Inl _ \<Rightarrow> [] | Inr x \<Rightarrow> x) \<noteq> []"
      by (simp add: call_smollm_def)
    then obtain x where x: "call_smollm srv (config s) p = Inr x" "js_trim x \<noteq> []"
      by (auto split: sum.splits)
    then have "x \<noteq> []" by auto
    with x p st stop_condition_lt5 [OF ns] show ?thesis
      by (cases "ctl_status (ctl s)")
         (auto simp: turn_progress_def gen_reply_def stream_sentence_tokens_status gen_continue_def
           gen_top_def
           fail_turn_def)
  next
    case EvClose
    with assms(2) have "phase s = Concurrent" "t = finish_turn s" by (simp_all split: if_splits)
    then show ?thesis
      by (auto simp: turn_progress_def finish_turn_def fail_turn_def split: sum.splits)
  next
    case EvCancel
    with assms(2) have "ctl_status (ctl s) = Readable" "t = cancel s" by (simp_all split: if_splits)
    then show ?thesis by (simp add: turn_progress_def cancel_def)
  qed
  then show ?thesis .
qed

text \<open>
  C18.  With cooperative events (every delivery reply a non-blank success) no run
  of a reachable turn is infinite, and a cooperative run that cannot be extended
  stops with the turn over or with the extractor spinning (the synchronous loop
  of C2, which in JavaScript blocks every other task): a reachable turn that is
  neither always has a cooperative step.
\<close>

theorem cooperative_runs_end:
  assumes "reachable s"
  shows "\<not> (\<exists>f. f 0 = s \<and> (\<forall>i. \<exists>e. cooperative e \<and> step (f i) e = Some (f (Suc i)))) \<and>
         ((\<forall>e. cooperative e \<longrightarrow> step s e = None) \<longrightarrow> turn_over (phase s) \<or> reader s = Spinning)"
proof -
  have "\<not> (\<exists>f. f 0 = s \<and> (\<forall>i. \<exists>e. cooperative e \<and> step (f i) e = Some (f (Suc i))))"
  proof
    assume "\<exists>f. f 0 = s \<and> (\<forall>i. \<exists>e. cooperative e \<and> step (f i) e = Some (f (Suc i)))"
    then obtain f where f0: "f 0 = s"
      and fs: "\<And>i. \<exists>e. cooperative e \<and> step (f i) e = Some (f (Suc i))" by blast
    have r: "reachable (f i)" for i
    proof (induction i)
      case 0
      show ?case using f0 assms by simp
    next
      case (Suc i)
      from fs obtain e where "step (f i) e = Some (f (Suc i))" by blast
      with Suc.IH show ?case by (rule reachable.step)
    qed
    have "(f (Suc i), f i) \<in> measures turn_progress" for i
      using fs [of i] r [of i] cooperative_step_decreases by blast
    then show False using wf_iff_no_infinite_down_chain [of "measures turn_progress"] by auto
  qed
  moreover have "(\<forall>e. cooperative e \<longrightarrow> step s e = None) \<longrightarrow> turn_over (phase s) \<or> reader s = Spinning"
  proof
    assume stuck: "\<forall>e. cooperative e \<longrightarrow> step s e = None"
    have coop: "cooperative (EvGenReply (\<lambda>_. HttpReply 200 (Some (TextContent ''Ok''))))"
      by (simp add: turn_eval_simps)
    show "turn_over (phase s) \<or> reader s = Spinning"
    proof (rule ccontr)
      assume "\<not> (turn_over (phase s) \<or> reader s = Spinning)"
      then have ns: "\<not> turn_over (phase s)" "reader s \<noteq> Spinning" by simp_all
      have "\<exists>e. cooperative e \<and> step s e \<noteq> None"
      proof (cases "phase s")
        case Immediate
        with ns show ?thesis by (intro exI [of _ "EvImmediate (\<lambda>_. NetworkFailure)"]) simp
      next
        case Concurrent
        show ?thesis
        proof (cases "gen s")
          case GenDelay
          with Concurrent ns show ?thesis by (intro exI [of _ EvGenPoll]) simp
        next
          case (GenAwaitReply p)
          with Concurrent ns coop show ?thesis
            by (intro exI [of _ "EvGenReply (\<lambda>_. HttpReply 200 (Some (TextContent ''Ok'')))"]) simp
        next
          case GenDone
          with Concurrent ns show ?thesis by (intro exI [of _ EvClose]) simp
        qed
      qed (use ns in \<open>simp_all add: turn_over_def\<close>)
      then obtain e where "cooperative e" "step s e \<noteq> None" by blast
      with stuck show False by simp
    qed
  qed
  ultimately show ?thesis by blast
qed

theorem cooperative_runs_end_witness:
  "let t = (the (run (turn_init \<lparr>huggingface_endpoint_url = ''http://h'', huggingface_api_key = ''k'', temperature = None, fallback_behavior = None, on_metrics_update = True\<rparr> [UserMessage [TextPart ''Hi'']] [TextDelta ''1'' ''[bt]a b[et]''] EndDone)
      [EvImmediate (\<lambda>_. HttpReply 200 (Some (TextContent ''Ok''))), EvRead, EvGenPoll])) in
   reachable t \<and>
   \<not> (\<exists>f. f 0 = t \<and> (\<forall>i. \<exists>e. cooperative e \<and> step (f i) e = Some (f (Suc i)))) \<and>
   ((\<forall>e. cooperative e \<longrightarrow> step t e = None) \<longrightarrow> turn_over (phase t) \<or> reader t = Spinning)"
proof -
  have nn: "(run (turn_init \<lparr>huggingface_endpoint_url = ''http://h'', huggingface_api_key = ''k'', temperature = None, fallback_behavior = None, on_metrics_update = True\<rparr> [UserMessage [TextPart ''Hi'']] [TextDelta ''1'' ''[bt]a b[et]''] EndDone)
      [EvImmediate (\<lambda>_. HttpReply 200 (Some (TextContent ''Ok''))), EvRead, EvGenPoll]) \<noteq> None"
    by (simp add: turn_eval_simps)
  have reach: "reachable (the (run (turn_init \<lparr>huggingface_endpoint_url = ''http://h'', huggingface_api_key = ''k'', temperature = None, fallback_behavior = None, on_metrics_update = True\<rparr> [UserMessage [TextPart ''Hi'']] [TextDelta ''1'' ''[bt]a b[et]''] EndDone)
      [EvImmediate (\<lambda>_. HttpReply 200 (Some (TextContent ''Ok''))), EvRead, EvGenPoll]))"
    by (rule reachable_run_the [OF nn reachable.init])
  from cooperative_runs_end [OF reach] reach show ?thesis unfolding Let_def by blast
qed

text \<open>
  C19.  When no new thought is available, the generation loop ends after at most 101 polls (the 100-poll idle bound) and a close, with nothing more emitted; the turn is finished, or failed if the client has cancelled the stream.
\<close>

theorem idle_polls_end_turn:
  assumes "reachable s" "phase s = Concurrent" "gen s = GenDelay" "reader s \<noteq> Spinning"
    and "length (thoughts s) \<le> last_thought_count s"
  shows "\<exists>t. run s (replicate (101 - wait_count s) EvGenPoll @ [EvClose]) = Some t \<and>
           phase t = (if ctl_status (ctl s) = Readable then Finished else Failed) \<and>
           ctl_queue (ctl t) = ctl_queue (ctl s) \<and> responses t = responses s"
proof -
  from reachable_turn_inv [OF assms(1)] assms(3)
  have ns: "\<not> stop_condition (responses s)" and w: "wait_count s \<le> 100"
    by (simp_all add: turn_inv_def inv_gen_def inv_counts_def)
  let ?s = "s\<lparr>wait_count := 100\<rparr>"
  have "run s (replicate (100 - wait_count s) EvGenPoll) = Some ?s"
    using idle_polls [of s "100 - wait_count s"] assms ns w by simp
  moreover have "replicate (101 - wait_count s) EvGenPoll @ [EvClose] =
                  replicate (100 - wait_count s) EvGenPoll @ [EvGenPoll, EvClose]"
  proof -
    have "101 - wait_count s = Suc (100 - wait_count s)" using w by simp
    moreover have "replicate (Suc n) x = replicate n x @ [x]" for n and x :: event
      by (simp add: replicate_append_same)
    ultimately show ?thesis by simp
  qed
  moreover have "\<exists>t. run ?s [EvGenPoll, EvClose] = Some t \<and>
                   phase t = (if ctl_status (ctl s) = Readable then Finished else Failed) \<and>
                   ctl_queue (ctl t) = ctl_queue (ctl s) \<and> responses t = responses s"
    using assms
    by (simp add: gen_continue_def gen_top_def finish_turn_def close_controller_def fail_turn_def
        error_controller_def send_metrics_def)
  ultimately show ?thesis by (simp add: run_append)
qed

theorem idle_polls_end_turn_witness:
  "let t = the (run (turn_init \<lparr>huggingface_endpoint_url = ''http://h'', huggingface_api_key = ''k'', temperature = None, fallback_behavior = None, on_metrics_update = True\<rparr> [UserMessage [TextPart ''Hi'']] [TextDelta ''1'' ''[bt]a b[et]''] EndDone)
      [EvImmediate (\<lambda>_. HttpReply 200 (Some (TextContent ''Ok''))), EvRead, EvGenPoll, EvGenReply (\<lambda>_. HttpReply 200 (Some (TextContent ''Yes sir'')))]) in
   reachable t \<and> phase t = Concurrent \<and> gen t = GenDelay \<and> reader t \<noteq> Spinning \<and>
   length (thoughts t) \<le> last_thought_count t \<and>
   (\<exists>u. run t (replicate (101 - wait_count t) EvGenPoll @ [EvClose]) = Some u \<and>
        phase u = (if ctl_status (ctl t) = Readable then Finished else Failed) \<and>
        ctl_queue (ctl u) = ctl_queue (ctl t) \<and> responses u = responses t)"
proof -
  have nn: "run (turn_init \<lparr>huggingface_endpoint_url = ''http://h'', huggingface_api_key = ''k'', temperature = None, fallback_behavior = None, on_metrics_update = True\<rparr> [UserMessage [TextPart ''Hi'']] [TextDelta ''1'' ''[bt]a b[et]''] EndDone)
      [EvImmediate (\<lambda>_. HttpReply 200 (Some (TextContent ''Ok''))), EvRead, EvGenPoll, EvGenReply (\<lambda>_. HttpReply 200 (Some (TextContent ''Yes sir'')))] \<noteq> None"
    by (simp add: turn_eval_simps)
  have reach: "reachable (the (run (turn_init \<lparr>huggingface_endpoint_url = ''http://h'', huggingface_api_key = ''k'', temperature = None, fallback_behavior = None, on_metrics_update = True\<rparr> [UserMessage [TextPart ''Hi'']] [TextDelta ''1'' ''[bt]a b[et]''] EndDone)
      [EvImmediate (\<lambda>_. HttpReply 200 (Some (TextContent ''Ok''))), EvRead, EvGenPoll, EvGenReply (\<lambda>_. HttpReply 200 (Some (TextContent ''Yes sir'')))]))"
    by (rule reachable_run_the [OF nn reachable.init])
  have h: "phase (the (run (turn_init \<lparr>huggingface_endpoint_url = ''http://h'', huggingface_api_key = ''k'', temperature = None, fallback_behavior = None, on_metrics_update = True\<rparr> [UserMessage [TextPart ''Hi'']] [TextDelta ''1'' ''[bt]a b[et]''] EndDone)
      [EvImmediate (\<lambda>_. HttpReply 200 (Some (TextContent ''Ok''))), EvRead, EvGenPoll, EvGenReply (\<lambda>_. HttpReply 200 (Some (TextContent ''Yes sir'')))])) = Concurrent"
    "gen (the (run (turn_init \<lparr>huggingface_endpoint_url = ''http://h'', huggingface_api_key = ''k'', temperature = None, fallback_behavior = None, on_metrics_update = True\<rparr> [UserMessage [TextPart ''Hi'']] [TextDelta ''1'' ''[bt]a b[et]''] EndDone)
      [EvImmediate (\<lambda>_. HttpReply 200 (Some (TextContent ''Ok''))), EvRead, EvGenPoll, EvGenReply (\<lambda>_. HttpReply 200 (Some (TextContent ''Yes sir'')))])) = GenDelay"
    "reader (the (run (turn_init \<lparr>huggingface_endpoint_url = ''http://h'', huggingface_api_key = ''k'', temperature = None, fallback_behavior = None, on_metrics_update = True\<rparr> [UserMessage [TextPart ''Hi'']] [TextDelta ''1'' ''[bt]a b[et]''] EndDone)
      [EvImmediate (\<lambda>_. HttpReply 200 (Some (TextContent ''Ok''))), EvRead, EvGenPoll, EvGenReply (\<lambda>_. HttpReply 200 (Some (TextContent ''Yes sir'')))])) \<noteq> Spinning"
    "length (thoughts (the (run (turn_init \<lparr>huggingface_endpoint_url = ''http://h'', huggingface_api_key = ''k'', temperature = None, fallback_behavior = None, on_metrics_update = True\<rparr> [UserMessage [TextPart ''Hi'']] [TextDelta ''1'' ''[bt]a b[et]''] EndDone)
      [EvImmediate (\<lambda>_. HttpReply 200 (Some (TextContent ''Ok''))), EvRead, EvGenPoll, EvGenReply (\<lambda>_. HttpReply 200 (Some (TextContent ''Yes sir'')))]))) \<le>
       last_thought_count (the (run (turn_init \<lparr>huggingface_endpoint_url = ''http://h'', huggingface_api_key = ''k'', temperature = None, fallback_behavior = None, on_metrics_update = True\<rparr> [UserMessage [TextPart ''Hi'']] [TextDelta ''1'' ''[bt]a b[et]''] EndDone)
      [EvImmediate (\<lambda>_. HttpReply 200 (Some (TextContent ''Ok''))), EvRead, EvGenPoll, EvGenReply (\<lambda>_. HttpReply 200 (Some (TextContent ''Yes sir'')))]))"
    by (simp_all add: turn_eval_simps)
  from idle_polls_end_turn [OF reach h] reach h show ?thesis by (simp only: Let_def simp_thms)
qed

text \<open>
  C20.  When more than one thought is waiting as a reply arrives, the loop records every thought present as handled: after the response is pushed, thoughts still outnumber responses, yet the next poll only counts an idle wait and sends no prompt.
\<close>

theorem backlog_thought_skipped:
  assumes "reachable s" "phase s = Concurrent" "awaiting_prompt (gen s) = Some p"
    and "reader s \<noteq> Spinning" "ctl_status (ctl s) = Readable"
    and "call_smollm srv (config s) p = Inr x" "js_trim x \<noteq> []"
    and "\<not> stop_condition (responses s @ [x])" "Suc (length (responses s)) < length (thoughts s)"
  shows "\<exists>t. step s (EvGenReply srv) = Some t \<and> responses t = responses s @ [x] \<and>
             length (responses t) < length (thoughts t) \<and>
             thoughts t = thoughts s \<and> gen t = GenDelay \<and> wait_count t = 1 \<and>
             step t EvGenPoll = Some (t\<lparr>wait_count := 2\<rparr>)"
proof -
  have "x \<noteq> []" using assms(7) by auto
  with assms show ?thesis
    by (simp add: gen_reply_def stream_sentence_tokens_status gen_continue_def gen_top_def)
qed

theorem backlog_thought_skipped_witness:
  "let t = the (run (turn_init \<lparr>huggingface_endpoint_url = ''http://h'', huggingface_api_key = ''k'', temperature = None, fallback_behavior = None, on_metrics_update = True\<rparr> [UserMessage [TextPart ''Hi'']] [TextDelta ''1'' ''[bt]a[et][bt]b[et]''] EndDone)
      [EvImmediate (\<lambda>_. HttpReply 200 (Some (TextContent ''Ok''))), EvRead, EvGenPoll]) in
   reachable t \<and> phase t = Concurrent \<and> awaiting_prompt (gen t) = Some (build_prompt ''Hi'' [''a'', ''b''] []) \<and>
   reader t \<noteq> Spinning \<and> ctl_status (ctl t) = Readable \<and>
   call_smollm (\<lambda>_. HttpReply 200 (Some (TextContent ''Yes''))) (config t) (build_prompt ''Hi'' [''a'', ''b''] []) = Inr ''Yes'' \<and>
   js_trim ''Yes'' \<noteq> [] \<and> \<not> stop_condition (responses t @ [''Yes'']) \<and>
   Suc (length (responses t)) < length (thoughts t) \<and>
   (\<exists>u. step t (EvGenReply (\<lambda>_. HttpReply 200 (Some (TextContent ''Yes'')))) = Some u \<and>
        responses u = responses t @ [''Yes''] \<and> length (responses u) < length (thoughts u) \<and>
        thoughts u = thoughts t \<and> gen u = GenDelay \<and> wait_count u = 1 \<and>
        step u EvGenPoll = Some (u\<lparr>wait_count := 2\<rparr>))"
proof -
  have nn: "run (turn_init \<lparr>huggingface_endpoint_url = ''http://h'', huggingface_api_key = ''k'', temperature = None, fallback_behavior = None, on_metrics_update = True\<rparr> [UserMessage [TextPart ''Hi'']] [TextDelta ''1'' ''[bt]a[et][bt]b[et]''] EndDone)
      [EvImmediate (\<lambda>_. HttpReply 200 (Some (TextContent ''Ok''))), EvRead, EvGenPoll] \<noteq> None"
    by (simp add: turn_eval_simps)
  have reach: "reachable (the (run (turn_init \<lparr>huggingface_endpoint_url = ''http://h'', huggingface_api_key = ''k'', temperature = None, fallback_behavior = None, on_metrics_update = True\<rparr> [UserMessage [TextPart ''Hi'']] [TextDelta ''1'' ''[bt]a[et][bt]b[et]''] EndDone)
      [EvImmediate (\<lambda>_. HttpReply 200 (Some (TextContent ''Ok''))), EvRead, EvGenPoll]))"
    by (rule reachable_run_the [OF nn reachable.init])
  have h: "phase (the (run (turn_init \<lparr>huggingface_endpoint_url = ''http://h'', huggingface_api_key = ''k'', temperature = None, fallback_behavior = None, on_metrics_update = True\<rparr> [UserMessage [TextPart ''Hi'']] [TextDelta ''1'' ''[bt]a[et][bt]b[et]''] EndDone)
      [EvImmediate (\<lambda>_. HttpReply 200 (Some (TextContent ''Ok''))), EvRead, EvGenPoll])) = Concurrent"
    "awaiting_prompt (gen (the (run (turn_init \<lparr>huggingface_endpoint_url = ''http://h'', huggingface_api_key = ''k'', temperature = None, fallback_behavior = None, on_metrics_update = True\<rparr> [UserMessage [TextPart ''Hi'']] [TextDelta ''1'' ''[bt]a[et][bt]b[et]''] EndDone)
      [EvImmediate (\<lambda>_. HttpReply 200 (Some (TextContent ''Ok''))), EvRead, EvGenPoll]))) = Some (build_prompt ''Hi'' [''a'', ''b''] [])"
    "reader (the (run (turn_init \<lparr>huggingface_endpoint_url = ''http://h'', huggingface_api_key = ''k'', temperature = None, fallback_behavior = None, on_metrics_update = True\<rparr> [UserMessage [TextPart ''Hi'']] [TextDelta ''1'' ''[bt]a[et][bt]b[et]''] EndDone)
      [EvImmediate (\<lambda>_. HttpReply 200 (Some (TextContent ''Ok''))), EvRead, EvGenPoll])) \<noteq> Spinning"
    "ctl_status (ctl (the (run (turn_init \<lparr>huggingface_endpoint_url = ''http://h'', huggingface_api_key = ''k'', temperature = None, fallback_behavior = None, on_metrics_update = True\<rparr> [UserMessage [TextPart ''Hi'']] [TextDelta ''1'' ''[bt]a[et][bt]b[et]''] EndDone)
      [EvImmediate (\<lambda>_. HttpReply 200 (Some (TextContent ''Ok''))), EvRead, EvGenPoll]))) = Readable"
    "call_smollm (\<lambda>_. HttpReply 200 (Some (TextContent ''Yes''))) (config (the (run (turn_init \<lparr>huggingface_endpoint_url = ''http://h'', huggingface_api_key = ''k'', temperature = None, fallback_behavior = None, on_metrics_update = True\<rparr> [UserMessage [TextPart ''Hi'']] [TextDelta ''1'' ''[bt]a[et][bt]b[et]''] EndDone)
      [EvImmediate (\<lambda>_. HttpReply 200 (Some (TextContent ''Ok''))), EvRead, EvGenPoll]))) (build_prompt ''Hi'' [''a'', ''b''] []) = Inr ''Yes''"
    "js_trim ''Yes'' \<noteq> []"
    "\<not> stop_condition (responses (the (run (turn_init \<lparr>huggingface_endpoint_url = ''http://h'', huggingface_api_key = ''k'', temperature = None, fallback_behavior = None, on_metrics_update = True\<rparr> [UserMessage [TextPart ''Hi'']] [TextDelta ''1'' ''[bt]a[et][bt]b[et]''] EndDone)
      [EvImmediate (\<lambda>_. HttpReply 200 (Some (TextContent ''Ok''))), EvRead, EvGenPoll])) @ [''Yes''])"
    "Suc (length (responses (the (run (turn_init \<lparr>huggingface_endpoint_url = ''http://h'', huggingface_api_key = ''k'', temperature = None, fallback_behavior = None, on_metrics_update = True\<rparr> [UserMessage [TextPart ''Hi'']] [TextDelta ''1'' ''[bt]a[et][bt]b[et]''] EndDone)
      [EvImmediate (\<lambda>_. HttpReply 200 (Some (TextContent ''Ok''))), EvRead, EvGenPoll])))) < length (thoughts (the (run (turn_init \<lparr>huggingface_endpoint_url = ''http://h'', huggingface_api_key = ''k'', temperature = None, fallback_behavior = None, on_metrics_update = True\<rparr> [UserMessage [TextPart ''Hi'']] [TextDelta ''1'' ''[bt]a[et][bt]b[et]''] EndDone)
      [EvImmediate (\<lambda>_. HttpReply 200 (Some (TextContent ''Ok''))), EvRead, EvGenPoll])))"
    by (simp_all add: turn_eval_simps)
  from backlog_thought_skipped [OF reach h] reach h show ?thesis by (simp only: Let_def simp_thms)
qed

text \<open>
  C21.  On a fresh readable stream the immediate response emits the fallback fragment when the delivery call fails, the words of the reply when it is non-blank, and nothing at all when it is blank, in which case the first response time also stays unrecorded.
\<close>

theorem immediate_response_emits:
  assumes "phase s = Immediate" "ctl s = \<lparr>ctl_queue = [], ctl_status = Readable\<rparr>"
  shows "phase (immediate_response s r) = Concurrent \<and>
         ctl_queue (ctl (immediate_response s r)) =
           (case r of Inl _ \<Rightarrow> [TextDeltaOut 1 fallback_text]
                    | Inr x \<Rightarrow> if js_trim x = [] then [] else sentence_fragments x 1) \<and>
         first_response_set (immediate_response s r) =
           (case r of Inl _ \<Rightarrow> True | Inr x \<Rightarrow> js_trim x \<noteq> [] \<or> first_response_set s)"
proof (cases r)
  case (Inl e)
  with assms show ?thesis
    by (simp add: immediate_response_def immediate_fallback_def enqueue_def start_concurrent_def)
next
  case (Inr x)
  have "x \<noteq> [] \<and> js_trim x \<noteq> [] \<longleftrightarrow> js_trim x \<noteq> []" by auto
  with Inr assms show ?thesis
    by (simp add: immediate_response_def stream_sentence_tokens_status start_concurrent_def)
qed

theorem immediate_response_emits_witness:
  "phase (turn_init \<lparr>huggingface_endpoint_url = ''http://h'', huggingface_api_key = ''k'', temperature = None, fallback_behavior = None, on_metrics_update = True\<rparr> [UserMessage [TextPart ''Hi'']] [] EndDone) = Immediate \<and>
   ctl (turn_init \<lparr>huggingface_endpoint_url = ''http://h'', huggingface_api_key = ''k'', temperature = None, fallback_behavior = None, on_metrics_update = True\<rparr> [UserMessage [TextPart ''Hi'']] [] EndDone) = \<lparr>ctl_queue = [], ctl_status = Readable\<rparr> \<and>
   phase (immediate_response (turn_init \<lparr>huggingface_endpoint_url = ''http://h'', huggingface_api_key = ''k'', temperature = None, fallback_behavior = None, on_metrics_update = True\<rparr> [UserMessage [TextPart ''Hi'']] [] EndDone) (Inr ''  '')) = Concurrent \<and>
   ctl_queue (ctl (immediate_response (turn_init \<lparr>huggingface_endpoint_url = ''http://h'', huggingface_api_key = ''k'', temperature = None, fallback_behavior = None, on_metrics_update = True\<rparr> [UserMessage [TextPart ''Hi'']] [] EndDone) (Inr ''  ''))) = [] \<and>
   \<not> first_response_set (immediate_response (turn_init \<lparr>huggingface_endpoint_url = ''http://h'', huggingface_api_key = ''k'', temperature = None, fallback_behavior = None, on_metrics_update = True\<rparr> [UserMessage [TextPart ''Hi'']] [] EndDone) (Inr ''  ''))"
proof -
  have h: "phase (turn_init \<lparr>huggingface_endpoint_url = ''http://h'', huggingface_api_key = ''k'', temperature = None, fallback_behavior = None, on_metrics_update = True\<rparr> [UserMessage [TextPart ''Hi'']] [] EndDone) = Immediate"
    "ctl (turn_init \<lparr>huggingface_endpoint_url = ''http://h'', huggingface_api_key = ''k'', temperature = None, fallback_behavior = None, on_metrics_update = True\<rparr> [UserMessage [TextPart ''Hi'']] [] EndDone) = \<lparr>ctl_queue = [], ctl_status = Readable\<rparr>"
    "first_response_set (turn_init \<lparr>huggingface_endpoint_url = ''http://h'', huggingface_api_key = ''k'', temperature = None, fallback_behavior = None, on_metrics_update = True\<rparr> [UserMessage [TextPart ''Hi'']] [] EndDone) = False"
    by (simp_all add: turn_eval_simps)
  have b: "js_trim ''  '' = []" by (simp add: js_trim_def is_js_space_def)
  from immediate_response_emits [OF h(1,2), where r = "Inr ''  ''"] h b show ?thesis by simp
qed

text \<open>
  C22.  The user input is the text parts of the last user message joined by single spaces, other parts dropped; without a user message it is \<open>User question\<close>.
\<close>

theorem extract_user_input_last:
  "(\<not> list_ex is_user_message post \<longrightarrow>
      extract_user_input (pre @ UserMessage parts # post) = join '' '' [t. TextPart t \<leftarrow> parts]) \<and>
   (\<not> list_ex is_user_message prompt \<longrightarrow> extract_user_input prompt = ''User question'')"
proof (intro conjI impI)
  assume "\<not> list_ex is_user_message post"
  then show "extract_user_input (pre @ UserMessage parts # post) = join '' '' [t. TextPart t \<leftarrow> parts]"
    by (simp add: extract_user_input_def find_user_append list_ex_rev)
next
  assume "\<not> list_ex is_user_message prompt"
  then have "find is_user_message (rev prompt) = None"
    by (simp add: find_None_iff list_ex_iff)
  then show "extract_user_input prompt = ''User question''" by (simp add: extract_user_input_def)
qed

theorem extract_user_input_last_witness:
  "\<not> list_ex is_user_message [AssistantMessage [TextPart ''x'']] \<and>
   extract_user_input ([UserMessage [TextPart ''a'']] @
     UserMessage [TextPart ''What'', OtherContentPart ''image'', TextPart ''is ML?''] #
     [AssistantMessage [TextPart ''x'']]) = ''What is ML?'' \<and>
   \<not> list_ex is_user_message [SystemMessage ''s''] \<and>
   extract_user_input [SystemMessage ''s''] = ''User question''"
  using extract_user_input_last [where post = "[AssistantMessage [TextPart ''x'']]"
      and pre = "[UserMessage [TextPart ''a'']]"
      and parts = "[TextPart ''What'', OtherContentPart ''image'', TextPart ''is ML?'']"
      and prompt = "[SystemMessage ''s'']"]
  by simp

text \<open>
  C26.  The dialogue state only grows: every step appends to the thoughts, to the
  responses and to the outward stream, never reorders or removes, and a read of
  the reasoning stream never writes to the outward stream.
\<close>

theorem step_append_only:
  assumes "step s e = Some t"
  shows "(\<exists>xs. thoughts t = thoughts s @ xs) \<and> (\<exists>ys. responses t = responses s @ ys) \<and>
         (\<exists>fs. ctl_queue (ctl t) = ctl_queue (ctl s) @ fs) \<and> (e = EvRead \<longrightarrow> ctl t = ctl s)"
proof (cases e)
  case (EvImmediate srv)
  with assms have "t = immediate_response s (call_smollm srv (config s) (immediate_prompt (user_input s)))"
    by (simp split: if_splits)
  then show ?thesis
    using EvImmediate stream_sentence_tokens_appends
    by (auto simp: immediate_response_def immediate_fallback_def start_concurrent_def enqueue_def
        fail_turn_def send_metrics_def Let_def split: sum.splits if_splits)
next
  case EvRead
  with assms have "t = consumer_read s" by (simp split: if_splits)
  then show ?thesis
    using EvRead consume_part_grows
    by (auto simp: consumer_read_def split: list.splits option.splits)
next
  case EvGenPoll
  with assms have "t = gen_continue s" by (simp split: if_splits)
  then show ?thesis by simp
next
  case (EvGenReply srv)
  with assms obtain p where "t = gen_reply s (call_smollm srv (config s) p)"
    by (auto split: if_splits option.splits)
  then show ?thesis
    using EvGenReply stream_sentence_tokens_appends
    by (auto simp: gen_reply_def fail_turn_def send_metrics_def Let_def
        split: sum.splits if_splits)
next
  case EvClose
  with assms have "t = finish_turn s" by (simp split: if_splits)
  then show ?thesis
    using EvClose
    by (auto simp: finish_turn_def close_controller_def fail_turn_def send_metrics_def split: if_splits)
next
  case EvCancel
  with assms have "t = cancel s" by (simp split: if_splits)
  then show ?thesis using EvCancel by (simp add: cancel_def)
qed

theorem step_append_only_witness:
  "let t = the (run (turn_init \<lparr>huggingface_endpoint_url = ''http://h'', huggingface_api_key = ''k'', temperature = None, fallback_behavior = None, on_metrics_update = True\<rparr> [UserMessage [TextPart ''Hi'']] [TextDelta ''1'' ''[bt]a b[et]''] EndDone)
      [EvImmediate (\<lambda>_. HttpReply 200 (Some (TextContent ''Ok''))), EvRead, EvGenPoll]) in
   step t (EvGenReply (\<lambda>_. HttpReply 200 (Some (TextContent ''Yes sir'')))) = Some (the (step t (EvGenReply (\<lambda>_. HttpReply 200 (Some (TextContent ''Yes sir'')))))) \<and>
   (\<exists>xs. thoughts (the (step t (EvGenReply (\<lambda>_. HttpReply 200 (Some (TextContent ''Yes sir'')))))) = thoughts t @ xs) \<and>
   (\<exists>ys. responses (the (step t (EvGenReply (\<lambda>_. HttpReply 200 (Some (TextContent ''Yes sir'')))))) = responses t @ ys) \<and>
   (\<exists>fs. ctl_queue (ctl (the (step t (EvGenReply (\<lambda>_. HttpReply 200 (Some (TextContent ''Yes sir''))))))) = ctl_queue (ctl t) @ fs) \<and>
   (EvGenReply (\<lambda>_. HttpReply 200 (Some (TextContent ''Yes sir''))) = EvRead \<longrightarrow> ctl (the (step t (EvGenReply (\<lambda>_. HttpReply 200 (Some (TextContent ''Yes sir'')))))) = ctl t)"
proof -
  have h: "step (the (run (turn_init \<lparr>huggingface_endpoint_url = ''http://h'', huggingface_api_key = ''k'', temperature = None, fallback_behavior = None, on_metrics_update = True\<rparr> [UserMessage [TextPart ''Hi'']] [TextDelta ''1'' ''[bt]a b[et]''] EndDone)
      [EvImmediate (\<lambda>_. HttpReply 200 (Some (TextContent ''Ok''))), EvRead, EvGenPoll])) (EvGenReply (\<lambda>_. HttpReply 200 (Some (TextContent ''Yes sir'')))) =
      Some (the (step (the (run (turn_init \<lparr>huggingface_endpoint_url = ''http://h'', huggingface_api_key = ''k'', temperature = None, fallback_behavior = None, on_metrics_update = True\<rparr> [UserMessage [TextPart ''Hi'']] [TextDelta ''1'' ''[bt]a b[et]''] EndDone)
      [EvImmediate (\<lambda>_. HttpReply 200 (Some (TextContent ''Ok''))), EvRead, EvGenPoll])) (EvGenReply (\<lambda>_. HttpReply 200 (Some (TextContent ''Yes sir''))))))"
    by (simp add: turn_eval_simps)
  from step_append_only [OF h] h show ?thesis by (simp only: Let_def simp_thms event.distinct)
qed

text \<open>
  C27.  Every fragment on the outward stream carries a non-empty delta and an id
  between 1 and 1005: the ids 1 to 5 of at most five responses, or those plus
  1000 for their separators.
\<close>

theorem reachable_fragments_bounded:
  "reachable s \<Longrightarrow>
     list_all (\<lambda>f. fragment_delta f \<noteq> [] \<and> 1 \<le> fragment_id f \<and> fragment_id f \<le> 1005)
       (ctl_queue (ctl s))"
proof -
  assume "reachable s"
  then have q: "inv_queue s" and c: "inv_counts s"
    using reachable_turn_inv by (simp_all add: turn_inv_def)
  let ?k = "length (ctl_queue (ctl s)) - length (response_fragments 1 (responses s))"
  have split: "ctl_queue (ctl s) = take ?k (ctl_queue (ctl s)) @ response_fragments 1 (responses s)"
    using q by (metis append_take_drop_id inv_queue_def)
  have "list_all imm_fragment_ok (take ?k (ctl_queue (ctl s)))"
    using q by (simp add: inv_queue_def Let_def)
  moreover have "length (responses s) \<le> 5" using c by (simp add: inv_counts_def)
  ultimately show ?thesis
    using response_fragments_bounds [of _ 1 "responses s"]
    by (subst split) (fastforce simp: list_all_iff imm_fragment_ok_def)
qed

theorem reachable_fragments_bounded_witness:
  "let t = the (run (turn_init \<lparr>huggingface_endpoint_url = ''http://h'', huggingface_api_key = ''k'', temperature = None, fallback_behavior = None, on_metrics_update = True\<rparr> [UserMessage [TextPart ''Hi'']] [TextDelta ''1'' ''[bt]a b[et]''] EndDone)
      [EvImmediate (\<lambda>_. HttpReply 200 (Some (TextContent ''Ok''))), EvRead, EvGenPoll, EvGenReply (\<lambda>_. HttpReply 200 (Some (TextContent ''Yes sir'')))]) in
   reachable t \<and> ctl_queue (ctl t) = [TextDeltaOut 1 ''Ok'', TextDeltaOut 1001 '' '', TextDeltaOut 1 ''Yes '', TextDeltaOut 1 ''sir'', TextDeltaOut 1001 '' ''] \<and>
   list_all (\<lambda>f. fragment_delta f \<noteq> [] \<and> 1 \<le> fragment_id f \<and> fragment_id f \<le> 1005)
     (ctl_queue (ctl t))"
proof -
  have nn: "run (turn_init \<lparr>huggingface_endpoint_url = ''http://h'', huggingface_api_key = ''k'', temperature = None, fallback_behavior = None, on_metrics_update = True\<rparr> [UserMessage [TextPart ''Hi'']] [TextDelta ''1'' ''[bt]a b[et]''] EndDone)
      [EvImmediate (\<lambda>_. HttpReply 200 (Some (TextContent ''Ok''))), EvRead, EvGenPoll, EvGenReply (\<lambda>_. HttpReply 200 (Some (TextContent ''Yes sir'')))] \<noteq> None"
    by (simp add: turn_eval_simps)
  have reach: "reachable (the (run (turn_init \<lparr>huggingface_endpoint_url = ''http://h'', huggingface_api_key = ''k'', temperature = None, fallback_behavior = None, on_metrics_update = True\<rparr> [UserMessage [TextPart ''Hi'']] [TextDelta ''1'' ''[bt]a b[et]''] EndDone)
      [EvImmediate (\<lambda>_. HttpReply 200 (Some (TextContent ''Ok''))), EvRead, EvGenPoll, EvGenReply (\<lambda>_. HttpReply 200 (Some (TextContent ''Yes sir'')))]))"
    by (rule reachable_run_the [OF nn reachable.init])
  have "ctl_queue (ctl (the (run (turn_init \<lparr>huggingface_endpoint_url = ''http://h'', huggingface_api_key = ''k'', temperature = None, fallback_behavior = None, on_metrics_update = True\<rparr> [UserMessage [TextPart ''Hi'']] [TextDelta ''1'' ''[bt]a b[et]''] EndDone)
      [EvImmediate (\<lambda>_. HttpReply 200 (Some (TextContent ''Ok''))), EvRead, EvGenPoll, EvGenReply (\<lambda>_. HttpReply 200 (Some (TextContent ''Yes sir'')))]))) = [TextDeltaOut 1 ''Ok'', TextDeltaOut 1001 '' '', TextDeltaOut 1 ''Yes '', TextDeltaOut 1 ''sir'', TextDeltaOut 1001 '' '']"
    by (simp add: turn_eval_simps)
  with reachable_fragments_bounded [OF reach] reach show ?thesis by (simp only: Let_def simp_thms)
qed

end
