(* ===== verification/Middleware.thy ===== *)
theory Middleware
  imports Controller
begin

text \<open>
  The middleware wrapper \<open>streamNaturalTextMiddleware\<close>
  (\<open>stream-natural-text-middleware.ts\<close>): \<open>transformParams\<close> injects the
  structured-thought system prompt into the call's prompt, and \<open>wrapStream\<close>
  creates a \<open>NaturalResponseProcessor\<close>, awaits the reasoning model's stream and
  hands it, with the transformed call options, to \<open>processStream\<close>, whose
  first state is \<open>Controller.turn_init\<close>.  The call options are an extensible
  record: \<open>{...params, prompt}\<close> changes the prompt and keeps every other field.
\<close>

subsection \<open>The system prompt\<close>

text \<open>\<open>STRUCTURED_THOUGHT_SYSTEM_PROMPT\<close> (lines 48--58), one string per line.\<close>

definition structured_thought_system_prompt :: string where
  "structured_thought_system_prompt = join [nl]
     [''You are a helpful AI assistant that MUST structure your responses using special markers.'',
      [],
      ''CRITICAL: You MUST wrap every complete thought in [bt] and [et] markers. '' @
        ''You MUST use <|sil|> tokens between thoughts for natural pauses.'',
      [],
      ''REQUIRED FORMAT:'',
      ''[bt]Your first complete thought about the topic[et] <|sil|> '' @
        ''[bt]Your second complete thought with more details[et] <|sil|> '' @
        ''[bt]Your final thought or conclusion[et]'',
      [],
      ''EXAMPLE:'',
      ''[bt]Machine learning is a subset of artificial intelligence that enables computers '' @
        ''to learn patterns from data[et] <|sil|> [bt]It works by training algorithms on large '' @
        ''datasets to recognize and predict outcomes without explicit programming[et] <|sil|> '' @
        ''[bt]Popular applications include image recognition, natural language processing, '' @
        ''and recommendation systems[et]'',
      [],
      ''IMPORTANT: Every response must contain multiple [bt]...[et] sections with <|sil|> '' @
        ''pauses between them. Do not provide responses without these markers.'']"

subsection \<open>\<open>transformParams\<close>\<close>

text \<open>\<open>LanguageModelV2CallOptions\<close>, of which the code reads and writes the prompt only.\<close>

record call_options =
  call_prompt :: "prompt_message list"

fun is_system_message :: "prompt_message \<Rightarrow> bool" where
  "is_system_message (SystemMessage _) = True"
| "is_system_message _ = False"

text \<open>\<open>Array.prototype.findIndex\<close>: \<open>None\<close> stands for -1.\<close>

fun find_index_js :: "('a \<Rightarrow> bool) \<Rightarrow> 'a list \<Rightarrow> nat option" where
  "find_index_js P [] = None"
| "find_index_js P (x # xs) = (if P x then Some 0 else map_option Suc (find_index_js P xs))"

text \<open>Lines 63--94.\<close>

definition transform_params :: "'a call_options_scheme \<Rightarrow> 'a call_options_scheme" where
  "transform_params params =
     (let modified = call_prompt params
      in case find_index_js is_system_message modified of
           Some i \<Rightarrow>
             (case modified ! i of
                SystemMessage content \<Rightarrow>
                  params\<lparr>call_prompt := modified[i := SystemMessage
                            (structured_thought_system_prompt @ [nl, nl] @ content)]\<rparr>
              | _ \<Rightarrow> params\<lparr>call_prompt := modified\<rparr>)
         | None \<Rightarrow>
             params\<lparr>call_prompt := SystemMessage structured_thought_system_prompt # modified\<rparr>)"

subsection \<open>\<open>wrapStream\<close>\<close>

datatype upstream_error = DoStreamError string

text \<open>
  Lines 96--124: the metrics calls made before \<open>wrapStream\<close> returns (the
  processor's constructor runs before \<open>doStream\<close> is awaited), and either the
  error of \<open>doStream\<close>, rethrown, or the turn \<open>processStream\<close> starts on the
  reasoning model's stream (its parts and how it ends).
\<close>

definition wrap_stream ::
  "stream_config \<Rightarrow> 'a call_options_scheme \<Rightarrow> upstream_error + (stream_part list \<times> stream_end) \<Rightarrow>
     metrics_event list \<times> (upstream_error + turn)" where
  "wrap_stream cfg params upstream =
     (constructor_log cfg,
      case upstream of
        Inl e \<Rightarrow> Inl e
      | Inr (parts, ending) \<Rightarrow> Inr (turn_init cfg (call_prompt params) parts ending))"

subsection \<open>Lemmas\<close>

lemma find_index_js_Some:
  "find_index_js P xs = Some i \<Longrightarrow> i < length xs \<and> P (xs ! i) \<and> (\<forall>j < i. \<not> P (xs ! j))"
proof (induction xs arbitrary: i)
  case (Cons x xs)
  then show ?case by (cases i) (auto split: if_splits simp: less_Suc_eq_0_disj)
qed simp

lemma find_index_js_None: "find_index_js P xs = None \<longleftrightarrow> \<not> list_ex P xs"
  by (induction xs) simp_all

lemma filter_update_skip:
  "i < length xs \<Longrightarrow> \<not> Q (xs ! i) \<Longrightarrow> \<not> Q y \<Longrightarrow> filter Q (xs[i := y]) = filter Q xs"
proof (induction xs arbitrary: i)
  case (Cons x xs)
  then show ?case by (cases i) simp_all
qed simp

lemma none_before_Cons:
  assumes "\<forall>j < Suc n. \<not> P ((x # xs) ! j)"
  shows "\<not> P x" "\<forall>j < n. \<not> P (xs ! j)"
proof -
  from assms show "\<not> P x" by (metis nth_Cons_0 zero_less_Suc)
  show "\<forall>j < n. \<not> P (xs ! j)"
  proof (intro allI impI)
    fix j assume "j < n"
    with assms have "\<not> P ((x # xs) ! Suc j)" by blast
    then show "\<not> P (xs ! j)" by simp
  qed
qed

lemma find_update_first:
  "i < length xs \<Longrightarrow> \<forall>j < i. \<not> P (xs ! j) \<Longrightarrow> P y \<Longrightarrow> find P (xs[i := y]) = Some y"
proof (induction xs arbitrary: i)
  case (Cons x xs)
  show ?case
  proof (cases i)
    case (Suc n)
    with Cons.prems none_before_Cons [of n P x xs] show ?thesis by (simp add: Cons.IH)
  qed (use Cons.prems in simp)
qed simp

lemma find_append_js:
  "find P (xs @ ys) = (case find P xs of None \<Rightarrow> find P ys | Some x \<Rightarrow> Some x)"
  by (induction xs) simp_all

text \<open>The messages other than system messages are those of the original prompt, in order.\<close>

lemma transform_params_non_system:
  "filter (\<lambda>m. \<not> is_system_message m) (call_prompt (transform_params p)) =
   filter (\<lambda>m. \<not> is_system_message m) (call_prompt p)"
proof (cases "find_index_js is_system_message (call_prompt p)")
  case (Some i)
  from find_index_js_Some [OF Some] obtain c where
    i: "i < length (call_prompt p)" "call_prompt p ! i = SystemMessage c"
    by (cases "call_prompt p ! i") auto
  with Some show ?thesis by (simp add: transform_params_def filter_update_skip)
qed (simp add: transform_params_def)

lemma user_not_system: "is_user_message m \<Longrightarrow> \<not> is_system_message m"
  by (cases m) simp_all

lemma find_rev_filter:
  "(\<And>x. P x \<Longrightarrow> Q x) \<Longrightarrow> find P (rev xs) = find P (rev (filter Q xs))"
  by (induction xs) (auto simp: find_append_js split: option.split)

lemma extract_user_input_filter:
  "filter (\<lambda>m. \<not> is_system_message m) xs = filter (\<lambda>m. \<not> is_system_message m) ys \<Longrightarrow>
     extract_user_input xs = extract_user_input ys"
proof -
  assume eq: "filter (\<lambda>m. \<not> is_system_message m) xs = filter (\<lambda>m. \<not> is_system_message m) ys"
  have "find is_user_message (rev zs) =
        find is_user_message (rev (filter (\<lambda>m. \<not> is_system_message m) zs))" for zs
    by (rule find_rev_filter) (rule user_not_system)
  with eq show ?thesis unfolding extract_user_input_def by metis
qed

lemma turn_init_transform:
  "turn_init cfg (call_prompt (transform_params p)) parts ending =
   turn_init cfg (call_prompt p) parts ending"
  by (simp add: turn_init_def extract_user_input_filter [OF transform_params_non_system])

lemma find_first_index:
  "i < length xs \<Longrightarrow> \<forall>j < i. \<not> P (xs ! j) \<Longrightarrow> P (xs ! i) \<Longrightarrow> find P xs = Some (xs ! i)"
proof (induction xs arbitrary: i)
  case (Cons x xs)
  show ?case
  proof (cases i)
    case (Suc n)
    with Cons.prems none_before_Cons [of n P x xs] show ?thesis by (simp add: Cons.IH)
  qed (use Cons.prems in simp)
qed simp

lemma find_index_js_update:
  "find_index_js P xs = Some i \<Longrightarrow> P y \<Longrightarrow> find_index_js P (xs[i := y]) = Some i"
proof (induction xs arbitrary: i)
  case (Cons x xs)
  then show ?case by (cases i) (auto split: if_splits)
qed simp

subsection \<open>Properties of the middleware\<close>

text \<open>
  C23.  \<open>transformParams\<close> leaves every message that is not a system message in
  place and in order; it prefixes the first system message's content with the
  structured-thought prompt and a blank line, keeping that message's index and the
  number of messages, or,
  when the prompt has no system message, puts a system message holding just that
  prompt in front.
\<close>

theorem transform_params_prompt:
  "filter (\<lambda>m. \<not> is_system_message m) (call_prompt (transform_params p)) =
     filter (\<lambda>m. \<not> is_system_message m) (call_prompt p) \<and>
   (\<forall>c. find is_system_message (call_prompt p) = Some (SystemMessage c) \<longrightarrow>
      find is_system_message (call_prompt (transform_params p)) =
        Some (SystemMessage (structured_thought_system_prompt @ [nl, nl] @ c)) \<and>
      find_index_js is_system_message (call_prompt (transform_params p)) =
        find_index_js is_system_message (call_prompt p) \<and>
      length (call_prompt (transform_params p)) = length (call_prompt p)) \<and>
   (\<not> list_ex is_system_message (call_prompt p) \<longrightarrow>
      call_prompt (transform_params p) = SystemMessage structured_thought_system_prompt # call_prompt p)"
proof (intro conjI allI impI)
  show "filter (\<lambda>m. \<not> is_system_message m) (call_prompt (transform_params p)) =
        filter (\<lambda>m. \<not> is_system_message m) (call_prompt p)"
    by (rule transform_params_non_system)
next
  fix c
  assume f: "find is_system_message (call_prompt p) = Some (SystemMessage c)"
  then have "list_ex is_system_message (call_prompt p)"
    by (metis find_None_iff list_ex_iff option.distinct(1))
  then obtain i where i: "find_index_js is_system_message (call_prompt p) = Some i"
    using find_index_js_None by fastforce
  note fi = find_index_js_Some [OF i]
  then have "call_prompt p ! i = SystemMessage c"
    using find_first_index [of i "call_prompt p" is_system_message] f by simp
  with i fi show "find is_system_message (call_prompt (transform_params p)) =
        Some (SystemMessage (structured_thought_system_prompt @ [nl, nl] @ c))"
    and "find_index_js is_system_message (call_prompt (transform_params p)) =
        find_index_js is_system_message (call_prompt p)"
    and "length (call_prompt (transform_params p)) = length (call_prompt p)"
    by (simp_all add: transform_params_def find_update_first find_index_js_update)
next
  assume "\<not> list_ex is_system_message (call_prompt p)"
  then show "call_prompt (transform_params p) =
             SystemMessage structured_thought_system_prompt # call_prompt p"
    by (simp add: transform_params_def find_index_js_None [THEN iffD2])
qed

theorem transform_params_prompt_witness:
  "find is_system_message (call_prompt \<lparr>call_prompt = [SystemMessage ''Be brief'', UserMessage [TextPart ''Hi'']]\<rparr>) = Some (SystemMessage ''Be brief'') \<and>
   find is_system_message (call_prompt (transform_params \<lparr>call_prompt = [SystemMessage ''Be brief'', UserMessage [TextPart ''Hi'']]\<rparr>)) =
     Some (SystemMessage (structured_thought_system_prompt @ [nl, nl] @ ''Be brief'')) \<and>
   find_index_js is_system_message (call_prompt (transform_params \<lparr>call_prompt = [SystemMessage ''Be brief'', UserMessage [TextPart ''Hi'']]\<rparr>)) = Some 0 \<and>
   filter (\<lambda>m. \<not> is_system_message m) (call_prompt (transform_params \<lparr>call_prompt = [SystemMessage ''Be brief'', UserMessage [TextPart ''Hi'']]\<rparr>)) =
     [UserMessage [TextPart ''Hi'']] \<and>
   length (call_prompt (transform_params \<lparr>call_prompt = [SystemMessage ''Be brief'', UserMessage [TextPart ''Hi'']]\<rparr>)) = 2 \<and>
   \<not> list_ex is_system_message (call_prompt \<lparr>call_prompt = [UserMessage [TextPart ''Hi'']]\<rparr>) \<and>
   call_prompt (transform_params \<lparr>call_prompt = [UserMessage [TextPart ''Hi'']]\<rparr>) =
     [SystemMessage structured_thought_system_prompt, UserMessage [TextPart ''Hi'']]"
proof -
  have h1: "find is_system_message (call_prompt \<lparr>call_prompt = [SystemMessage ''Be brief'', UserMessage [TextPart ''Hi'']]\<rparr>) = Some (SystemMessage ''Be brief'')"
    and h2: "\<not> list_ex is_system_message (call_prompt \<lparr>call_prompt = [UserMessage [TextPart ''Hi'']]\<rparr>)" by simp_all
  from transform_params_prompt [of "\<lparr>call_prompt = [SystemMessage ''Be brief'', UserMessage [TextPart ''Hi'']]\<rparr>"] transform_params_prompt [of "\<lparr>call_prompt = [UserMessage [TextPart ''Hi'']]\<rparr>"] h1 h2
  show ?thesis by simp
qed

text \<open>
  C24.  Injecting the system prompt never changes the user input the processor
  extracts: \<open>wrapStream\<close> hands \<open>processStream\<close> the transformed call options,
  and \<open>extractUserInput\<close> reads the same last user message as in the original.
\<close>

theorem transform_params_user_input:
  "extract_user_input (call_prompt (transform_params p)) = extract_user_input (call_prompt p)"
  by (rule extract_user_input_filter [OF transform_params_non_system])

end
