(* ===== verification/PassThrough.thy ===== *)
theory PassThrough
  imports Middleware
begin

text \<open>
  The two other middlewares of the package.  \<open>simpleTransformMiddleware\<close>
  (\<open>simple-transform-middleware.ts\<close>) copies the model's stream into a new
  \<open>ReadableStream\<close> with a \<open>pump\<close> loop: it enqueues every part, closes the new
  stream when the source is done, and errors it when a read fails; an exception
  of \<open>enqueue\<close> or \<open>close\<close> on a stream the client has cancelled is caught and
  the \<open>controller.error\<close> of the \<open>catch\<close> has no effect on a stream that is no
  longer readable.  \<open>testStreamMiddleware\<close> (\<open>test-middleware.ts\<close>) returns
  the call options and the stream unchanged.
\<close>

subsection \<open>\<open>simpleTransformMiddleware\<close>\<close>

text \<open>The controller of the new stream, holding the parts it was given.\<close>

record part_stream =
  ps_queue :: "stream_part list"
  ps_status :: ctl_status

text \<open>\<open>controller.error(e)\<close>: no effect unless the stream is readable.\<close>

definition error_part_stream :: "part_stream \<Rightarrow> part_stream" where
  "error_part_stream c = (if ps_status c = Readable then c\<lparr>ps_status := Errored\<rparr> else c)"

text \<open>
  \<open>pump\<close> (lines 25--45) on the parts the source yields and how it ends; a
  \<open>close\<close> or \<open>enqueue\<close> on a stream that is not readable throws into the
  \<open>catch\<close>, which calls \<open>controller.error\<close> and ends the loop.
\<close>

fun pump :: "stream_part list \<Rightarrow> stream_end \<Rightarrow> part_stream \<Rightarrow> part_stream" where
  "pump [] EndDone c =
     (if ps_status c = Readable then c\<lparr>ps_status := Closed\<rparr> else error_part_stream c)"
| "pump [] EndError c = error_part_stream c"
| "pump (p # ps) ending c =
     (if ps_status c = Readable then pump ps ending (c\<lparr>ps_queue := ps_queue c @ [p]\<rparr>)
      else error_part_stream c)"

text \<open>\<open>wrapStream\<close> (lines 12--56): the new stream starts empty and readable.\<close>

definition simple_wrap_stream ::
  "upstream_error + (stream_part list \<times> stream_end) \<Rightarrow> upstream_error + part_stream" where
  "simple_wrap_stream upstream =
     (case upstream of
        Inl e \<Rightarrow> Inl e
      | Inr (parts, ending) \<Rightarrow> Inr (pump parts ending \<lparr>ps_queue = [], ps_status = Readable\<rparr>))"

subsection \<open>\<open>testStreamMiddleware\<close>\<close>

text \<open>\<open>transformParams\<close> (lines 10--13) and \<open>wrapStream\<close> (lines 15--24).\<close>

definition test_transform_params :: "'a call_options_scheme \<Rightarrow> 'a call_options_scheme" where
  "test_transform_params params = params"

definition test_wrap_stream ::
  "upstream_error + (stream_part list \<times> stream_end) \<Rightarrow> upstream_error + (stream_part list \<times> stream_end)" where
  "test_wrap_stream upstream = upstream"

subsection \<open>Lemmas\<close>

lemma pump_readable:
  "ps_status c = Readable \<Longrightarrow>
     pump ps ending c =
       c\<lparr>ps_queue := ps_queue c @ ps,
         ps_status := (case ending of EndDone \<Rightarrow> Closed | EndError \<Rightarrow> Errored)\<rparr>"
proof (induction ps arbitrary: c)
  case Nil
  then show ?case by (cases ending) (simp_all add: error_part_stream_def)
qed simp

subsection \<open>Properties of the pass-through middlewares\<close>

text \<open>
  C25.  Through \<open>simpleTransformMiddleware\<close>, and through the test middleware in
  front of it, the client receives exactly the model's parts in order, and the
  new stream closes when the model's stream is done and errors when it fails;
  an upstream error is rethrown.
\<close>

theorem simple_transform_roundtrip:
  "simple_wrap_stream (test_wrap_stream upstream) =
     (case upstream of
        Inl e \<Rightarrow> Inl e
      | Inr (parts, ending) \<Rightarrow>
          Inr \<lparr>ps_queue = parts,
               ps_status = (case ending of EndDone \<Rightarrow> Closed | EndError \<Rightarrow> Errored)\<rparr>)"
  by (cases upstream)
     (auto simp: simple_wrap_stream_def test_wrap_stream_def pump_readable)

end
