(* ===== verification/Json.thy ===== *)
theory Json
  imports Prelude
begin

text \<open>
  \<open>JSON.stringify\<close> on a string, the JavaScript builtin the route uses for its
  error body, over code units below 256 as in \<open>Prelude\<close>: the string is quoted,
  \<open>"\<close> and \<open>\\\<close> are escaped with a backslash, the five control characters
  with a short form use it, every other control character below 32 becomes
  \<open>\u00\<close> and two lower-case hex digits, and every other code unit is kept.
  \<open>json_unquote\<close> is a reference decoder of a JSON string literal (RFC 8259,
  section 7), used to state what the encoder preserves.
\<close>

subsection \<open>The encoder\<close>

definition hex_digit :: "nat \<Rightarrow> char" where
  "hex_digit n = (if n < 10 then char_of (48 + n) else char_of (87 + n))"

definition json_escape :: "char \<Rightarrow> string" where
  "json_escape c =
     (if c = CHR 0x22 then [CHR 0x5C, CHR 0x22]
      else if c = CHR 0x5C then [CHR 0x5C, CHR 0x5C]
      else if c = CHR 0x08 then [CHR 0x5C, CHR ''b'']
      else if c = CHR 0x09 then [CHR 0x5C, CHR ''t'']
      else if c = CHR 0x0A then [CHR 0x5C, CHR ''n'']
      else if c = CHR 0x0C then [CHR 0x5C, CHR ''f'']
      else if c = CHR 0x0D then [CHR 0x5C, CHR ''r'']
      else if of_char c < (32::nat) then
        [CHR 0x5C, CHR ''u'', CHR ''0'', CHR ''0'', hex_digit (of_char c div 16), hex_digit (of_char c mod 16)]
      else [c])"

definition json_quote :: "string \<Rightarrow> string" where
  "json_quote s = CHR 0x22 # concat (map json_escape s) @ [CHR 0x22]"

subsection \<open>The reference decoder\<close>

definition hex_value :: "char \<Rightarrow> nat option" where
  "hex_value c =
     (let n = of_char c :: nat in
      if 48 \<le> n \<and> n \<le> 57 then Some (n - 48)
      else if 97 \<le> n \<and> n \<le> 102 then Some (n - 87)
      else if 65 \<le> n \<and> n \<le> 70 then Some (n - 55)
      else None)"

text \<open>Four hex digits naming a code unit; one above 255 is outside the model.\<close>

definition hex4 :: "string \<Rightarrow> char option" where
  "hex4 ds =
     (case those (map hex_value ds) of
        Some [a, b, c, d] \<Rightarrow>
          (let v = ((a * 16 + b) * 16 + c) * 16 + d in if v < 256 then Some (char_of v) else None)
      | _ \<Rightarrow> None)"

definition short_escape :: "char \<Rightarrow> char option" where
  "short_escape e =
     (if e = CHR 0x22 \<or> e = CHR 0x5C \<or> e = CHR ''/'' then Some e
      else if e = CHR ''b'' then Some (CHR 0x08)
      else if e = CHR ''t'' then Some (CHR 0x09)
      else if e = CHR ''n'' then Some (CHR 0x0A)
      else if e = CHR ''f'' then Some (CHR 0x0C)
      else if e = CHR ''r'' then Some (CHR 0x0D)
      else None)"

text \<open>The body of a string literal after its opening quote, up to the closing quote, which must end the input.\<close>

function json_body :: "string \<Rightarrow> string option" where
  "json_body [] = None"
| "json_body (c # r) =
     (if c = CHR 0x22 then (if r = [] then Some [] else None)
      else if c = CHR 0x5C then
        (case r of
           [] \<Rightarrow> None
         | e # r' \<Rightarrow>
             (if e = CHR ''u'' then
                (case hex4 (take 4 r') of
                   None \<Rightarrow> None
                 | Some x \<Rightarrow> map_option (Cons x) (json_body (drop 4 r')))
              else
                (case short_escape e of
                   None \<Rightarrow> None
                 | Some x \<Rightarrow> map_option (Cons x) (json_body r'))))
      else if of_char c < (32::nat) then None
      else map_option (Cons c) (json_body r))"
  by pat_completeness auto
termination
  by (relation "measure length") auto

definition json_unquote :: "string \<Rightarrow> string option" where
  "json_unquote s = (case s of c # r \<Rightarrow> if c = CHR 0x22 then json_body r else None | [] \<Rightarrow> None)"

subsection \<open>Lemmas\<close>

lemma hex_value_digit: "n < 16 \<Longrightarrow> hex_value (hex_digit n) = Some n"
  by (auto simp: hex_value_def hex_digit_def Let_def)

lemma hex4_ctrl:
  assumes "of_char c < (32::nat)"
  shows "hex4 [CHR ''0'', CHR ''0'', hex_digit (of_char c div 16), hex_digit (of_char c mod 16)] = Some c"
proof -
  have "of_char c div 16 < (16::nat)" "of_char c mod 16 < (16::nat)" using assms by simp_all
  moreover have "hex_value (CHR ''0'') = Some 0" by (simp add: hex_value_def)
  ultimately have "those (map hex_value [CHR ''0'', CHR ''0'', hex_digit (of_char c div 16), hex_digit (of_char c mod 16)]) =
          Some [0, 0, of_char c div 16, of_char c mod 16]"
    by (simp add: hex_value_digit)
  with assms show ?thesis by (simp add: hex4_def)
qed

text \<open>Decoding undoes the escape of one code unit, whatever follows.\<close>

lemma json_body_escape_char: "json_body (json_escape c @ r) = map_option (Cons c) (json_body r)"
  by (auto simp: json_escape_def short_escape_def hex4_ctrl)

lemma json_body_escape: "json_body (concat (map json_escape s) @ [CHR 0x22]) = Some s"
  by (induction s) (simp_all add: json_body_escape_char)

lemma json_unquote_quote: "json_unquote (json_quote s) = Some s"
  by (simp add: json_unquote_def json_quote_def json_body_escape)

end
