(* ===== verification/Route.thy ===== *)
theory Route
  imports Middleware Json
begin

text \<open>
  The chat route \<open>POST\<close> (\<open>src/apps/web/app/api/chat/route.ts\<close>): it reads the
  request's JSON body, checks the messages and three environment variables in
  this order, builds the middleware configuration of \<open>createNaturalTextModel\<close>
  and calls \<open>streamText\<close>; any exception becomes a 500 response with a JSON
  error message.  \<open>convertToModelMessages\<close>, \<open>streamText\<close> and the
  response encoding are the SDK's: the model stops at the configuration and the
  prompt handed to the wrapped model.
\<close>

subsection \<open>The request and the environment\<close>

text \<open>The body as \<open>req.json()\<close> sees it, and its \<open>messages\<close> field.\<close>

datatype messages_field = MessagesArray "prompt_message list" | MessagesNotArray

datatype request_body = InvalidJson string | JsonBody messages_field

text \<open>\<open>process.env\<close>: an unset variable is \<open>None\<close>.\<close>

record route_env =
  openai_api_key :: "string option"
  huggingface_endpoint_url_env :: "string option"
  huggingface_api_key_env :: "string option"

text \<open>\<open>!process.env.X\<close>: unset and empty are both falsy.\<close>

definition env_missing :: "string option \<Rightarrow> bool" where
  "env_missing v \<longleftrightarrow> v = None \<or> v = Some []"

datatype route_response =
    ErrorResponse nat string
  | StreamResponse stream_config "prompt_message list"

subsection \<open>\<open>createNaturalTextModel\<close> and \<open>POST\<close>\<close>

text \<open>
  Lines 10--38: the object literal's \<open>maxTokens\<close>, \<open>thoughtDelay\<close> and
  \<open>silenceDelay\<close> are not fields of \<open>StreamNaturalTextConfig\<close> and nothing
  reads them; the callback is present.
\<close>

definition route_config :: "route_env \<Rightarrow> stream_config" where
  "route_config env =
     \<lparr>huggingface_endpoint_url = the (huggingface_endpoint_url_env env),
      huggingface_api_key = the (huggingface_api_key_env env),
      temperature = Some (7 / 10),
      fallback_behavior = Some Passthrough,
      on_metrics_update = True\<rparr>"

text \<open>Lines 51--118.\<close>

definition route_post :: "request_body \<Rightarrow> route_env \<Rightarrow> route_response" where
  "route_post body env =
     (case body of
        InvalidJson msg \<Rightarrow> ErrorResponse 500 msg
      | JsonBody MessagesNotArray \<Rightarrow> ErrorResponse 500 ''Messages must be provided as an array''
      | JsonBody (MessagesArray messages) \<Rightarrow>
          (if env_missing (openai_api_key env)
           then ErrorResponse 500 ''Missing OPENAI_API_KEY environment variable''
           else if env_missing (huggingface_endpoint_url_env env)
           then ErrorResponse 500 ''Missing HUGGINGFACE_ENDPOINT_URL environment variable''
           else if env_missing (huggingface_api_key_env env)
           then ErrorResponse 500 ''Missing HUGGINGFACE_API_KEY environment variable''
           else StreamResponse (route_config env) messages))"

text \<open>
  Lines 107--116: the body of the 500 response, \<open>JSON.stringify({ error: message })\<close>.
\<close>

definition error_response_body :: "string \<Rightarrow> string" where
  "error_response_body msg = CHR ''{'' # json_quote ''error'' @ CHR '':'' # json_quote msg @ [CHR ''}'']"

text \<open>A reader of such a body: the \<open>error\<close> member of a one-member object, decoded.\<close>

definition json_error_field :: "string \<Rightarrow> string option" where
  "json_error_field body =
     (let pre = CHR ''{'' # json_quote ''error'' @ [CHR '':'']
      in if take (length pre) body = pre \<and> body \<noteq> [] \<and> last body = CHR ''}''
         then json_unquote (butlast (drop (length pre) body)) else None)"

subsection \<open>Properties of the route\<close>

text \<open>
  C35.  Every refusal of the route is a 500 response whose body is the JSON object
  \<open>{"error": ...}\<close> with the thrown message: read back, its \<open>error\<close> member is
  exactly that message, whatever characters it holds.
\<close>

theorem route_error_body:
  assumes "route_post body env = ErrorResponse code msg"
  shows "code = 500 \<and> json_error_field (error_response_body msg) = Some msg"
proof -
  have "code = 500" using assms
    by (auto simp: route_post_def split: request_body.splits messages_field.splits if_splits)
  moreover have "json_error_field (error_response_body msg) = Some msg"
    by (simp add: json_error_field_def error_response_body_def json_unquote_quote butlast_append)
  ultimately show ?thesis ..
qed

theorem route_error_body_witness:
  "route_post (JsonBody (MessagesArray []))
     \<lparr>openai_api_key = None, huggingface_endpoint_url_env = None, huggingface_api_key_env = None\<rparr> =
     ErrorResponse 500 ''Missing OPENAI_API_KEY environment variable'' \<and>
   json_error_field (error_response_body ''Missing OPENAI_API_KEY environment variable'') =
     Some ''Missing OPENAI_API_KEY environment variable''"
proof -
  have h: "route_post (JsonBody (MessagesArray []))
     \<lparr>openai_api_key = None, huggingface_endpoint_url_env = None, huggingface_api_key_env = None\<rparr> =
     ErrorResponse 500 ''Missing OPENAI_API_KEY environment variable''"
    by (simp add: route_post_def env_missing_def)
  from route_error_body [OF h] h show ?thesis by simp
qed

end
