(* ===== verification/ChatUI.thy ===== *)
theory ChatUI
  imports Prelude
begin

text \<open>
  The chat client's components (\<open>src/apps/web/components/ui\<close>): \<open>Message\<close>
  (\<open>message.tsx\<close>) renders one bubble from its props, \<open>MessageList\<close>
  (\<open>message-list.tsx\<close>) turns the chat hook's messages into \<open>Message\<close>
  elements, adding a streaming placeholder while a reply is awaited, and
  \<open>ChatInput\<close> (\<open>chat-input.tsx\<close>) holds the text being typed, decides on
  Enter and on submit whether to send it, and computes which controls are
  disabled.  A rendered component is a record of the values the code computes for
  the DOM; class strings and icons are reduced to the choice the code makes.
\<close>

subsection \<open>Messages and their parts\<close>

text \<open>
  The roles of the SDK's \<open>UIMessage\<close>; \<open>MessageProps\<close> declares only
  \<open>'user' | 'assistant'\<close>.
\<close>

datatype ui_role = RoleSystem | RoleUser | RoleAssistant

text \<open>A message part: a text part or a part of another type (step markers, reasoning, tools).\<close>

datatype ui_part = TextUIPart string | OtherUIPart string

record ui_message =
  msg_id :: nat
  msg_role :: ui_role
  msg_parts :: "ui_part list"

text \<open>The type \<open>MessageProps\<close> gives to \<open>role\<close>.\<close>

definition role_typed :: "ui_role \<Rightarrow> bool" where
  "role_typed r \<longleftrightarrow> r = RoleUser \<or> r = RoleAssistant"

subsection \<open>\<open>Message\<close>\<close>

record message_props =
  props_role :: ui_role
  props_content :: string
  props_streaming :: bool

datatype justify = JustifyEnd | JustifyStart

datatype bubble = UserBubble | AssistantBubble

datatype avatar = UserAvatar | BotAvatar

text \<open>What one bubble shows: alignment, colours, avatar, the text, and the blinking cursor.\<close>

record message_view =
  view_justify :: justify
  view_bubble :: bubble
  view_avatar :: avatar
  view_text :: string
  view_cursor :: bool

text \<open>\<open>Message\<close> (lines 10--41): every role other than \<open>'user'\<close> takes the assistant's side.\<close>

definition message_render :: "message_props \<Rightarrow> message_view" where
  "message_render p =
     \<lparr>view_justify = (if props_role p = RoleUser then JustifyEnd else JustifyStart),
      view_bubble = (if props_role p = RoleUser then UserBubble else AssistantBubble),
      view_avatar = (if props_role p = RoleUser then UserAvatar else BotAvatar),
      view_text = props_content p,
      view_cursor = props_streaming p\<rparr>"

subsection \<open>\<open>MessageList\<close>\<close>

fun is_text_part :: "ui_part \<Rightarrow> bool" where
  "is_text_part (TextUIPart _) = True"
| "is_text_part (OtherUIPart _) = False"

text \<open>\<open>part.text || ''\<close>: the text of a text part (another part has none).\<close>

fun ui_part_text :: "ui_part \<Rightarrow> string" where
  "ui_part_text (TextUIPart t) = t"
| "ui_part_text (OtherUIPart _) = []"

text \<open>
  Lines 44--47: \<open>parts.filter(part => part.type === 'text').map(part => part.text || '')
  .join('') || ''\<close>.
\<close>

definition message_content :: "ui_part list \<Rightarrow> string" where
  "message_content ps = concat (map ui_part_text (filter is_text_part ps))"

datatype list_view = EmptyState | MessageElems "message_props list"

text \<open>
  \<open>MessageList\<close> (lines 10--61): the empty state for no messages; otherwise one
  non-streaming element per message, and a streaming assistant placeholder with
  no text while loading after a user message.
\<close>

definition message_list :: "ui_message list \<Rightarrow> bool \<Rightarrow> list_view" where
  "message_list msgs is_loading =
     (if msgs = [] then EmptyState
      else MessageElems
        (map (\<lambda>m. \<lparr>props_role = msg_role m, props_content = message_content (msg_parts m),
                    props_streaming = False\<rparr>) msgs @
         (if is_loading \<and> msg_role (last msgs) = RoleUser
          then [\<lparr>props_role = RoleAssistant, props_content = [], props_streaming = True\<rparr>]
          else [])))"

text \<open>
  Well-formedness of a rendered list for \<open>n\<close> messages: every element's role has
  the declared type; at most the last element streams, and it is an empty
  assistant placeholder; there are \<open>n\<close> or \<open>n + 1\<close> elements.
\<close>

definition list_view_ok :: "nat \<Rightarrow> list_view \<Rightarrow> bool" where
  "list_view_ok n v =
     (case v of
        EmptyState \<Rightarrow> n = 0
      | MessageElems ps \<Rightarrow>
          list_all (\<lambda>p. role_typed (props_role p)) ps \<and>
          (\<forall>i < length ps. props_streaming (ps ! i) \<longrightarrow>
             Suc i = length ps \<and> props_role (ps ! i) = RoleAssistant \<and> props_content (ps ! i) = []) \<and>
          0 < n \<and> n \<le> length ps \<and> length ps \<le> Suc n)"

subsection \<open>\<open>ChatInput\<close>\<close>

text \<open>The props the page passes (\<open>disabled?\<close> absent is false).\<close>

record input_props =
  ip_loading :: bool
  ip_disabled :: bool

text \<open>
  \<open>handleFormSubmit\<close> (lines 35--42): the text sent, if any, and the input
  afterwards.  The text is sent as typed, untrimmed.
\<close>

definition handle_form_submit :: "input_props \<Rightarrow> string \<Rightarrow> string option \<times> string" where
  "handle_form_submit p input =
     (if js_trim input \<noteq> [] \<and> \<not> ip_loading p then (Some input, []) else (None, input))"

text \<open>
  \<open>handleKeyDown\<close> (lines 19--33): Enter without Shift has its default
  prevented and requests the form's submission when not loading and the input is
  not blank (the textarea is inside the form, so \<open>form\<close> is never null); any other
  key keeps its default, which reaches the state through \<open>onChange\<close>.
\<close>

datatype key_outcome = KeyDefault | KeyPrevented | KeyRequestSubmit

definition handle_key_down :: "input_props \<Rightarrow> string \<Rightarrow> string \<Rightarrow> bool \<Rightarrow> key_outcome" where
  "handle_key_down p input key shift =
     (if key = ''Enter'' \<and> \<not> shift then
        (if \<not> ip_loading p \<and> js_trim input \<noteq> [] then KeyRequestSubmit else KeyPrevented)
      else KeyDefault)"

record input_view =
  ta_value :: string
  ta_disabled :: bool
  ta_overflow_auto :: bool
  btn_disabled :: bool
  btn_spinner :: bool

text \<open>The form (lines 44--82): the textarea, its scroll style, and the send button.\<close>

definition chat_input_render :: "input_props \<Rightarrow> string \<Rightarrow> input_view" where
  "chat_input_render p input =
     \<lparr>ta_value = input,
      ta_disabled = (ip_disabled p \<or> ip_loading p),
      ta_overflow_auto = (3 < length (js_split nl input)),
      btn_disabled = (js_trim input = [] \<or> ip_loading p \<or> ip_disabled p),
      btn_spinner = ip_loading p\<rparr>"

subsection \<open>Lemmas\<close>

lemma message_content_text [simp]: "message_content (ps @ [TextUIPart t]) = message_content ps @ t"
  by (simp add: message_content_def)

lemma message_content_other [simp]: "message_content (map OtherUIPart ks) = []"
  by (induction ks) (simp_all add: message_content_def)

lemma message_list_Nil [simp]: "message_list [] l = EmptyState"
  by (simp add: message_list_def)

end
