(* ===== verification/ChatPage.thy ===== *)
theory ChatPage
  imports ChatUI
begin

text \<open>
  The chat page (\<open>src/apps/web/app/chat/page.tsx\<close>) and the chat hook it uses.
  \<open>useChat\<close> with a \<open>TextStreamChatTransport\<close> to \<open>/api/chat\<close> is the SDK's:
  its state (messages, status, error) and the way it reacts to a send and to the
  response stream are modelled from its documented behaviour as the environment
  the page's code runs in.  The page derives \<open>isLoading\<close> from the status, passes
  \<open>!!error\<close> as \<open>disabled\<close> to \<open>ChatInput\<close> and shows the error's message.
  \<open>page_step\<close> runs one user event (typing, a key, the send button; an event on a
  disabled control cannot happen) or one event of the response stream.
\<close>

subsection \<open>The hook's state and its reactions\<close>

datatype chat_status = Submitted | Streaming | Ready | StatusError

record page =
  messages :: "ui_message list"
  status :: chat_status
  error :: "string option"
  input :: string
  next_id :: nat

text \<open>
  \<open>sendMessage({text})\<close>: a user message with one text part is appended, the
  status becomes \<open>submitted\<close> and the error is cleared; \<open>next_id\<close> stands for
  the hook's id generator.
\<close>

definition hook_send :: "page \<Rightarrow> string \<Rightarrow> page" where
  "hook_send s text =
     s\<lparr>messages := messages s @ [\<lparr>msg_id = next_id s, msg_role = RoleUser, msg_parts = [TextUIPart text]\<rparr>],
       status := Submitted, error := None, next_id := Suc (next_id s)\<rparr>"

text \<open>
  The response stream starts: the text transport opens one text part, after the
  non-text parts the stream begins with (the event's kinds), in a new assistant
  message, and the status becomes \<open>streaming\<close>.
\<close>

definition hook_response_start :: "page \<Rightarrow> string list \<Rightarrow> page" where
  "hook_response_start s ks =
     s\<lparr>messages := messages s @
         [\<lparr>msg_id = next_id s, msg_role = RoleAssistant, msg_parts = map OtherUIPart ks @ [TextUIPart []]\<rparr>],
       status := Streaming, next_id := Suc (next_id s)\<rparr>"

text \<open>A chunk of text is appended to the last text part of the message being streamed.\<close>

definition append_delta :: "ui_part list \<Rightarrow> string \<Rightarrow> ui_part list" where
  "append_delta ps d =
     (case rev ps of TextUIPart t # r \<Rightarrow> rev r @ [TextUIPart (t @ d)] | _ \<Rightarrow> ps @ [TextUIPart d])"

definition hook_text_delta :: "page \<Rightarrow> string \<Rightarrow> page" where
  "hook_text_delta s d =
     s\<lparr>messages := butlast (messages s) @
         [(last (messages s))\<lparr>msg_parts := append_delta (msg_parts (last (messages s))) d\<rparr>]\<rparr>"

definition hook_finish :: "page \<Rightarrow> page" where
  "hook_finish s = s\<lparr>status := Ready\<rparr>"

text \<open>A failed request or stream (a non-2xx response such as the route's 500, a network error).\<close>

definition hook_fail :: "page \<Rightarrow> string \<Rightarrow> page" where
  "hook_fail s e = s\<lparr>status := StatusError, error := Some e\<rparr>"

definition page_init :: page where
  "page_init = \<lparr>messages = [], status = Ready, error = None, input = [], next_id = 0\<rparr>"

subsection \<open>\<open>ChatPage\<close>\<close>

text \<open>Line 25.\<close>

definition is_loading :: "chat_status \<Rightarrow> bool" where
  "is_loading st \<longleftrightarrow> st = Streaming \<or> st = Submitted"

text \<open>Lines 67--71: the props of \<open>ChatInput\<close>.\<close>

definition page_input_props :: "page \<Rightarrow> input_props" where
  "page_input_props s = \<lparr>ip_loading = is_loading (status s), ip_disabled = (error s \<noteq> None)\<rparr>"

text \<open>Lines 47--60: the banner's text, \<open>error.message || 'Something went wrong. ...'\<close>.\<close>

definition error_banner :: "string option \<Rightarrow> string option" where
  "error_banner e = map_option (\<lambda>m. if m = [] then ''Something went wrong. Please try again.'' else m) e"

record page_view =
  pv_error :: "string option"
  pv_list :: list_view
  pv_input :: input_view

definition chat_page_render :: "page \<Rightarrow> page_view" where
  "chat_page_render s =
     \<lparr>pv_error = error_banner (error s),
      pv_list = message_list (messages s) (is_loading (status s)),
      pv_input = chat_input_render (page_input_props s) (input s)\<rparr>"

definition input_view_of :: "page \<Rightarrow> input_view" where
  "input_view_of s = chat_input_render (page_input_props s) (input s)"

text \<open>The form's submission: \<open>handleFormSubmit\<close> with \<open>onSubmit = sendMessage\<close>.\<close>

definition form_submit :: "page \<Rightarrow> page" where
  "form_submit s =
     (case handle_form_submit (page_input_props s) (input s) of
        (None, i) \<Rightarrow> s\<lparr>input := i\<rparr>
      | (Some t, i) \<Rightarrow> hook_send (s\<lparr>input := i\<rparr>) t)"

datatype page_event =
    EvType string
  | EvKey string bool
  | EvClick
  | EvResponseStart "string list"
  | EvDelta string
  | EvFinish
  | EvFail string

text \<open>The events a user causes, as opposed to those of the response stream.\<close>

fun user_event :: "page_event \<Rightarrow> bool" where
  "user_event (EvType _) = True"
| "user_event (EvKey _ _) = True"
| "user_event EvClick = True"
| "user_event _ = False"

text \<open>
  One event.  A disabled textarea receives no input or key events and a disabled
  button no clicks; the stream's events come while a request is in flight.
\<close>

fun page_step :: "page \<Rightarrow> page_event \<Rightarrow> page option" where
  "page_step s (EvType v) = (if ta_disabled (input_view_of s) then None else Some (s\<lparr>input := v\<rparr>))"
| "page_step s (EvKey k sh) =
     (if ta_disabled (input_view_of s) then None
      else case handle_key_down (page_input_props s) (input s) k sh of
             KeyRequestSubmit \<Rightarrow> Some (form_submit s)
           | _ \<Rightarrow> Some s)"
| "page_step s EvClick = (if btn_disabled (input_view_of s) then None else Some (form_submit s))"
| "page_step s (EvResponseStart ks) =
     (if status s = Submitted then Some (hook_response_start s ks) else None)"
| "page_step s (EvDelta d) = (if status s = Streaming then Some (hook_text_delta s d) else None)"
| "page_step s EvFinish = (if status s = Streaming then Some (hook_finish s) else None)"
| "page_step s (EvFail e) = (if is_loading (status s) then Some (hook_fail s e) else None)"

fun page_run :: "page \<Rightarrow> page_event list \<Rightarrow> page option" where
  "page_run s [] = Some s"
| "page_run s (e # es) = (case page_step s e of None \<Rightarrow> None | Some t \<Rightarrow> page_run t es)"

inductive reachable_page :: "page \<Rightarrow> bool" where
  init: "reachable_page page_init"
| step: "reachable_page s \<Longrightarrow> page_step s e = Some t \<Longrightarrow> reachable_page t"

subsection \<open>The page invariant\<close>

text \<open>Roles alternate, starting with the given one.\<close>

fun alternating :: "ui_role \<Rightarrow> ui_role list \<Rightarrow> bool" where
  "alternating r [] = True"
| "alternating r (x # xs) =
     (x = r \<and> alternating (if r = RoleUser then RoleAssistant else RoleUser) xs)"

definition page_inv :: "page \<Rightarrow> bool" where
  "page_inv s \<longleftrightarrow>
     alternating RoleUser (map msg_role (messages s)) \<and>
     (error s \<noteq> None \<longleftrightarrow> status s = StatusError) \<and>
     (status s = Submitted \<longrightarrow> messages s \<noteq> [] \<and> msg_role (last (messages s)) = RoleUser) \<and>
     (status s = Streaming \<longrightarrow> messages s \<noteq> [] \<and> msg_role (last (messages s)) = RoleAssistant) \<and>
     (status s = Ready \<longrightarrow> messages s = [] \<or> msg_role (last (messages s)) = RoleAssistant) \<and>
     distinct (map msg_id (messages s)) \<and> (\<forall>i \<in> set (map msg_id (messages s)). i < next_id s)"


subsection \<open>Lemmas\<close>

lemma alternating_snoc:
  "r \<noteq> RoleSystem \<Longrightarrow> alternating r (xs @ [y]) \<longleftrightarrow>
     alternating r xs \<and> y = (if xs = [] then r else if last xs = RoleUser then RoleAssistant else RoleUser)"
proof (induction xs arbitrary: r)
  case (Cons x xs)
  then show ?case by (cases xs) auto
qed simp

lemma alternating_typed: "r \<noteq> RoleSystem \<Longrightarrow> alternating r xs \<Longrightarrow> x \<in> set xs \<Longrightarrow> role_typed x"
proof (induction xs arbitrary: r)
  case (Cons y ys)
  then show ?case by (cases r) (auto simp: role_typed_def)
qed simp

lemma message_list_ok:
  assumes "\<forall>m \<in> set msgs. role_typed (msg_role m)"
  shows "list_view_ok (length msgs) (message_list msgs l)"
proof (cases "msgs = []")
  case False
  have "i < length msgs \<Longrightarrow> \<not> props_streaming
          ((map (\<lambda>m. \<lparr>props_role = msg_role m, props_content = message_content (msg_parts m),
                      props_streaming = False\<rparr>) msgs @ ps) ! i)" for i ps
    by (simp add: nth_append)
  with False assms show ?thesis
    by (auto simp: message_list_def list_view_ok_def list_all_iff role_typed_def nth_append
        less_Suc_eq)
qed (simp add: list_view_ok_def)

lemma append_delta_text [simp]: "append_delta (ps @ [TextUIPart t]) d = ps @ [TextUIPart (t @ d)]"
  by (simp add: append_delta_def)

lemma hook_text_delta_roles:
  "messages s \<noteq> [] \<Longrightarrow> map msg_role (messages (hook_text_delta s d)) = map msg_role (messages s)"
  "messages s \<noteq> [] \<Longrightarrow> map msg_id (messages (hook_text_delta s d)) = map msg_id (messages s)"
  by (simp_all add: hook_text_delta_def map_butlast_last)

lemma hook_text_delta_sel [simp]:
  "status (hook_text_delta s d) = status s" "error (hook_text_delta s d) = error s"
  "next_id (hook_text_delta s d) = next_id s" "input (hook_text_delta s d) = input s"
  by (simp_all add: hook_text_delta_def)

lemma hook_text_delta_last [simp]:
  "messages (hook_text_delta s d) \<noteq> []"
  "last (messages (hook_text_delta s d)) =
     (last (messages s))\<lparr>msg_parts := append_delta (msg_parts (last (messages s))) d\<rparr>"
  "butlast (messages (hook_text_delta s d)) = butlast (messages s)"
  by (simp_all add: hook_text_delta_def)

lemma page_init_inv: "page_inv page_init"
  by (simp add: page_inv_def page_init_def)

lemma hook_send_inv:
  assumes "page_inv s" "status s = Ready"
  shows "page_inv (hook_send (s\<lparr>input := i\<rparr>) t)"
proof -
  have "next_id s \<notin> set (map msg_id (messages s))"
    using assms(1) by (auto simp: page_inv_def)
  with assms show ?thesis
    by (auto simp: page_inv_def hook_send_def alternating_snoc less_Suc_eq last_map)
qed

lemma form_submit_inv:
  assumes "page_inv s" "error s = None"
  shows "page_inv (form_submit s)"
proof (cases "js_trim (input s) \<noteq> [] \<and> \<not> is_loading (status s)")
  case True
  with assms have "status s = Ready" by (cases "status s") (auto simp: page_inv_def is_loading_def)
  with True hook_send_inv [OF assms(1)] show ?thesis
    by (simp add: form_submit_def handle_form_submit_def page_input_props_def)
next
  case False
  with assms(1) show ?thesis
    by (auto simp: form_submit_def handle_form_submit_def page_input_props_def page_inv_def)
qed

lemma hook_response_start_inv:
  assumes "page_inv s" "status s = Submitted"
  shows "page_inv (hook_response_start s ks)"
proof -
  have "next_id s \<notin> set (map msg_id (messages s))"
    using assms(1) by (auto simp: page_inv_def)
  with assms show ?thesis
    by (auto simp: page_inv_def hook_response_start_def alternating_snoc less_Suc_eq last_map)
qed

lemma hook_text_delta_inv:
  assumes "page_inv s" "status s = Streaming"
  shows "page_inv (hook_text_delta s d)"
proof -
  from assms have ne: "messages s \<noteq> []" by (simp add: page_inv_def)
  from assms ne show ?thesis
    unfolding page_inv_def by (simp add: hook_text_delta_roles [OF ne])
qed

lemma page_step_inv:
  assumes "page_inv s" "page_step s e = Some t"
  shows "page_inv t"
proof (cases e)
  case (EvKey k sh)
  with assms show ?thesis
    by (auto simp: input_view_of_def chat_input_render_def page_input_props_def form_submit_inv
        split: if_splits key_outcome.splits)
next
  case EvClick
  with assms show ?thesis
    by (auto simp: input_view_of_def chat_input_render_def page_input_props_def form_submit_inv
        split: if_splits)
next
  case (EvResponseStart ks)
  with assms show ?thesis by (auto split: if_splits intro: hook_response_start_inv)
next
  case (EvDelta d)
  with assms show ?thesis by (auto split: if_splits intro: hook_text_delta_inv)
next
  case EvFinish
  with assms show ?thesis by (auto simp: page_inv_def hook_finish_def split: if_splits)
next
  case (EvFail e)
  with assms show ?thesis
    by (auto simp: page_inv_def hook_fail_def is_loading_def split: if_splits)
qed (use assms in \<open>auto simp: page_inv_def split: if_splits\<close>)

lemma reachable_page_run:
  "page_run s es = Some t \<Longrightarrow> reachable_page s \<Longrightarrow> reachable_page t"
proof (induction es arbitrary: s)
  case (Cons e es)
  then show ?case by (auto split: option.splits intro: reachable_page.step)
qed simp

lemma page_run_append:
  "page_run s (xs @ ys) = (case page_run s xs of None \<Rightarrow> None | Some t \<Rightarrow> page_run t ys)"
  by (induction xs arbitrary: s) (auto split: option.splits)

text \<open>A run of text chunks appends their concatenation to the text part being streamed.\<close>

lemma page_run_deltas:
  assumes "status s = Streaming" "messages s \<noteq> []" "msg_parts (last (messages s)) = ps @ [TextUIPart x]"
  shows "page_run s (map EvDelta ds) =
           Some (s\<lparr>messages := butlast (messages s) @
                    [(last (messages s))\<lparr>msg_parts := ps @ [TextUIPart (x @ concat ds)]\<rparr>]\<rparr>)"
  using assms
proof (induction ds arbitrary: s x)
  case Nil
  then have "(last (messages s))\<lparr>msg_parts := ps @ [TextUIPart x]\<rparr> = last (messages s)"
    by (cases "last (messages s)") simp
  moreover have "s\<lparr>messages := butlast (messages s) @ [last (messages s)]\<rparr> = s"
    using Nil by simp
  ultimately show ?case by (simp only: list.map(1) page_run.simps(1) concat.simps(1) append_Nil2)
next
  case (Cons d ds)
  let ?t = "hook_text_delta s d"
  have "page_run ?t (map EvDelta ds) =
          Some (?t\<lparr>messages := butlast (messages ?t) @
                    [(last (messages ?t))\<lparr>msg_parts := ps @ [TextUIPart ((x @ d) @ concat ds)]\<rparr>]\<rparr>)"
    by (rule Cons.IH) (use Cons.prems in simp_all)
  with Cons.prems show ?case by (simp add: hook_text_delta_def)
qed


lemma form_submit_eq:
  "form_submit s =
     (if js_trim (input s) \<noteq> [] \<and> \<not> is_loading (status s) then hook_send (s\<lparr>input := []\<rparr>) (input s)
      else s)"
  by (simp add: form_submit_def handle_form_submit_def page_input_props_def)

lemma input_view_of_sel [simp]:
  "ta_disabled (input_view_of s) \<longleftrightarrow> error s \<noteq> None \<or> is_loading (status s)"
  "btn_disabled (input_view_of s) \<longleftrightarrow> js_trim (input s) = [] \<or> is_loading (status s) \<or> error s \<noteq> None"
  by (auto simp: input_view_of_def chat_input_render_def page_input_props_def)

lemma reachable_page_run_the:
  "page_run page_init es \<noteq> None \<Longrightarrow> reachable_page (the (page_run page_init es))"
  using reachable_page_run [OF _ reachable_page.init] by auto

lemmas page_eval_simps = page_init_def form_submit_eq hook_send_def hook_response_start_def
  hook_text_delta_def append_delta_def hook_finish_def hook_fail_def is_loading_def
  handle_key_down_def page_input_props_def js_trim_def is_js_space_def

lemma page_inv_reachable: "reachable_page s \<Longrightarrow> page_inv s"
  by (induction rule: reachable_page.induct) (auto intro: page_init_inv page_step_inv)

text \<open>A response stream that starts, delivers its chunks and finishes leaves one new
  assistant message holding their concatenation.\<close>

lemma page_response_run:
  assumes "status s = Submitted"
  shows "page_run s (EvResponseStart ks # map EvDelta ds @ [EvFinish]) =
           Some (s\<lparr>messages := messages s @
                     [\<lparr>msg_id = next_id s, msg_role = RoleAssistant,
                       msg_parts = map OtherUIPart ks @ [TextUIPart (concat ds)]\<rparr>],
                   status := Ready, next_id := Suc (next_id s)\<rparr>)"
proof -
  let ?s1 = "hook_response_start s ks"
  have s1: "page_step s (EvResponseStart ks) = Some ?s1" using assms by simp
  have "page_run ?s1 (map EvDelta ds) =
          Some (?s1\<lparr>messages := butlast (messages ?s1) @
                    [(last (messages ?s1))\<lparr>msg_parts := map OtherUIPart ks @ [TextUIPart ([] @ concat ds)]\<rparr>]\<rparr>)"
    by (rule page_run_deltas) (simp_all add: hook_response_start_def)
  with s1 show ?thesis
    by (simp add: page_run_append hook_response_start_def hook_finish_def)
qed

subsection \<open>Properties of the chat page\<close>

text \<open>
  C29.  A user event adds a message only by sending: then no error is shown, no
  request is in flight and the input is not blank, exactly the typed text (not
  trimmed) is appended as a user message, the status becomes \<open>submitted\<close> and
  the input is cleared.
\<close>

theorem page_send_guard:
  assumes "page_step s e = Some t" "user_event e" "messages t \<noteq> messages s"
  shows "error s = None \<and> \<not> is_loading (status s) \<and> js_trim (input s) \<noteq> [] \<and>
         messages t = messages s @ [\<lparr>msg_id = next_id s, msg_role = RoleUser, msg_parts = [TextUIPart (input s)]\<rparr>] \<and>
         status t = Submitted \<and> input t = []"
  using assms
  by (cases e)
     (auto simp: form_submit_eq hook_send_def handle_key_down_def page_input_props_def
       split: if_splits key_outcome.splits)

theorem page_send_guard_witness:
  "page_step (page_init\<lparr>input := ''Hi''\<rparr>) EvClick =
     Some (hook_send (page_init\<lparr>input := []\<rparr>) ''Hi'') \<and>
   user_event EvClick \<and>
   messages (hook_send (page_init\<lparr>input := []\<rparr>) ''Hi'') \<noteq> messages (page_init\<lparr>input := ''Hi''\<rparr>) \<and>
   js_trim (input (page_init\<lparr>input := ''Hi''\<rparr>)) \<noteq> []"
proof -
  have h: "page_step (page_init\<lparr>input := ''Hi''\<rparr>) EvClick = Some (hook_send (page_init\<lparr>input := []\<rparr>) ''Hi'')"
    "user_event EvClick"
    "messages (hook_send (page_init\<lparr>input := []\<rparr>) ''Hi'') \<noteq> messages (page_init\<lparr>input := ''Hi''\<rparr>)"
    by (simp_all add: page_init_def form_submit_eq js_trim_def is_js_space_def is_loading_def hook_send_def)
  from page_send_guard [OF h] h show ?thesis by simp
qed

text \<open>
  C30.  Typing of the rendered list: in every reachable state each \<open>Message\<close>
  element gets a role of its declared type \<open>'user' | 'assistant'\<close>, only the
  last element can stream and it is then an empty assistant placeholder, there is
  one element per message plus at most the placeholder, and the message ids used
  as React keys are distinct.
\<close>

theorem page_render_typed:
  assumes "reachable_page s"
  shows "list_view_ok (length (messages s)) (pv_list (chat_page_render s)) \<and>
         distinct (map msg_id (messages s))"
proof -
  have inv: "page_inv s" using page_inv_reachable [OF assms] .
  then have "\<forall>m \<in> set (messages s). role_typed (msg_role m)"
    using alternating_typed [of RoleUser "map msg_role (messages s)"] by (auto simp: page_inv_def)
  with inv show ?thesis by (simp add: chat_page_render_def message_list_ok page_inv_def)
qed


theorem page_render_typed_witness:
  "let t = the (page_run page_init [EvType ''Hi'', EvClick]) in
   reachable_page t \<and> list_view_ok (length (messages t)) (pv_list (chat_page_render t)) \<and>
   distinct (map msg_id (messages t))"
proof -
  have nn: "(page_run page_init [EvType ''Hi'', EvClick]) \<noteq> None"
    by (simp add: page_eval_simps)
  have reach: "reachable_page (the (page_run page_init [EvType ''Hi'', EvClick]))"
    by (rule reachable_page_run_the [OF nn])
  from page_render_typed [OF reach] reach show ?thesis by (simp only: Let_def simp_thms)
qed

text \<open>
  C31.  The page invariant: in every reachable state the conversation alternates
  user, assistant, user, ...; the error banner is shown exactly when the status is
  \<open>error\<close>; while a request is submitted the last message is the user's, while
  it streams and once it is ready the last message is the assistant's; ids are
  distinct and below the generator's next id.
\<close>

theorem reachable_page_alternates:
  assumes "reachable_page s"
  shows "alternating RoleUser (map msg_role (messages s)) \<and>
         (pv_error (chat_page_render s) \<noteq> None \<longleftrightarrow> status s = StatusError) \<and>
         (status s = Submitted \<longrightarrow> messages s \<noteq> [] \<and> msg_role (last (messages s)) = RoleUser) \<and>
         (status s = Streaming \<longrightarrow> messages s \<noteq> [] \<and> msg_role (last (messages s)) = RoleAssistant) \<and>
         (status s = Ready \<longrightarrow> messages s = [] \<or> msg_role (last (messages s)) = RoleAssistant) \<and>
         distinct (map msg_id (messages s)) \<and> (\<forall>i \<in> set (map msg_id (messages s)). i < next_id s)"
  using page_inv_reachable [OF assms]
  by (simp add: page_inv_def chat_page_render_def error_banner_def)

theorem reachable_page_alternates_witness:
  "let t = the (page_run page_init [EvType ''Hi'', EvClick, EvResponseStart [''step-start''], EvDelta ''Hello'', EvFinish]) in
   reachable_page t \<and> alternating RoleUser (map msg_role (messages t)) \<and> status t = Ready \<and>
   map msg_role (messages t) = [RoleUser, RoleAssistant]"
proof -
  have nn: "page_run page_init [EvType ''Hi'', EvClick, EvResponseStart [''step-start''], EvDelta ''Hello'', EvFinish] \<noteq> None"
    by (simp add: page_eval_simps)
  have reach: "reachable_page (the (page_run page_init [EvType ''Hi'', EvClick, EvResponseStart [''step-start''], EvDelta ''Hello'', EvFinish]))"
    by (rule reachable_page_run_the [OF nn])
  have r: "status (the (page_run page_init [EvType ''Hi'', EvClick, EvResponseStart [''step-start''], EvDelta ''Hello'', EvFinish])) = Ready \<and>
    map msg_role (messages (the (page_run page_init [EvType ''Hi'', EvClick, EvResponseStart [''step-start''], EvDelta ''Hello'', EvFinish]))) = [RoleUser, RoleAssistant]"
    by (simp add: page_eval_simps)
  from reachable_page_alternates [OF reach] reach r show ?thesis by (simp only: Let_def simp_thms)
qed


text \<open>
  C32.  After any error the page is locked: \<open>!!error\<close> disables the textarea and
  the button, the status is no longer loading so no stream event comes, and the
  page never calls the hook's \<open>clearError\<close> or \<open>regenerate\<close>; no event of any
  kind is possible, so nothing can be sent again without reloading.
\<close>

theorem error_locks_page:
  assumes "reachable_page s" "error s \<noteq> None"
  shows "page_step s e = None"
proof -
  have "status s = StatusError" using page_inv_reachable [OF assms(1)] assms(2) by (simp add: page_inv_def)
  with assms(2) show ?thesis by (cases e) (simp_all add: is_loading_def)
qed

theorem error_locks_page_witness:
  "let t = the (page_run page_init [EvType ''Hi'', EvClick, EvFail []]) in
   reachable_page t \<and> error t \<noteq> None \<and> page_step t EvClick = None \<and>
   pv_error (chat_page_render t) = Some ''Something went wrong. Please try again.''"
proof -
  have nn: "page_run page_init [EvType ''Hi'', EvClick, EvFail []] \<noteq> None"
    by (simp add: page_eval_simps)
  have reach: "reachable_page (the (page_run page_init [EvType ''Hi'', EvClick, EvFail []]))"
    by (rule reachable_page_run_the [OF nn])
  have h: "error (the (page_run page_init [EvType ''Hi'', EvClick, EvFail []])) \<noteq> None"
    "pv_error (chat_page_render (the (page_run page_init [EvType ''Hi'', EvClick, EvFail []]))) =
       Some ''Something went wrong. Please try again.''"
    by (simp_all add: page_eval_simps chat_page_render_def error_banner_def)
  from error_locks_page [OF reach h(1)] reach h show ?thesis by (simp only: Let_def simp_thms)
qed

text \<open>
  C33.  On an enabled textarea, Enter without Shift is the send button: it sends
  exactly when the button is enabled and otherwise changes nothing; every other
  key, and Shift+Enter, is left to the textarea.
\<close>

theorem enter_matches_click:
  assumes "\<not> ta_disabled (input_view_of s)"
  shows "page_step s (EvKey ''Enter'' False) =
           (if btn_disabled (input_view_of s) then Some s else page_step s EvClick) \<and>
         (k \<noteq> ''Enter'' \<or> sh \<longrightarrow> page_step s (EvKey k sh) = Some s)"
  using assms by (auto simp: handle_key_down_def page_input_props_def)

theorem enter_matches_click_witness:
  "\<not> ta_disabled (input_view_of (page_init\<lparr>input := '' ''\<rparr>)) \<and>
   btn_disabled (input_view_of (page_init\<lparr>input := '' ''\<rparr>)) \<and>
   page_step (page_init\<lparr>input := '' ''\<rparr>) (EvKey ''Enter'' False) = Some (page_init\<lparr>input := '' ''\<rparr>)"
proof -
  have h: "\<not> ta_disabled (input_view_of (page_init\<lparr>input := '' ''\<rparr>))"
    "btn_disabled (input_view_of (page_init\<lparr>input := '' ''\<rparr>))"
    by (simp_all add: page_eval_simps)
  from enter_matches_click [OF h(1), of "''Enter''" True] h show ?thesis by simp
qed


text \<open>
  C34.  Only an error locks the page: from every reachable state without an
  error, the pending response can complete and then typing a non-blank text and
  pressing the send button sends it.
\<close>

theorem page_can_send_again:
  assumes "reachable_page s" "error s = None" "js_trim v \<noteq> []"
  shows "\<exists>es t. page_run s (es @ [EvType v, EvClick]) = Some t \<and>
           take (length (messages s)) (messages t) = messages s \<and>
           msg_role (last (messages t)) = RoleUser \<and> msg_parts (last (messages t)) = [TextUIPart v] \<and>
           status t = Submitted"
proof -
  have inv: "page_inv s" using page_inv_reachable [OF assms(1)] .
  have "status s \<noteq> StatusError" using inv assms(2) by (simp add: page_inv_def)
  then consider "status s = Ready" | "status s = Submitted" | "status s = Streaming"
    by (cases "status s") auto
  then obtain es u where run: "page_run s es = Some u" and u: "status u = Ready" "error u = None"
    and pre: "take (length (messages s)) (messages u) = messages s"
  proof cases
    case 1
    with assms(2) show ?thesis by (intro that [of "[]" s]) simp_all
  next
    case 2
    with assms(2) show ?thesis
      by (intro that [of "[EvResponseStart [], EvFinish]" "hook_finish (hook_response_start s [])"])
         (simp_all add: hook_response_start_def hook_finish_def)
  next
    case 3
    with assms(2) show ?thesis
      by (intro that [of "[EvFinish]" "hook_finish s"]) (simp_all add: hook_finish_def)
  qed
  have "page_run u [EvType v, EvClick] = Some (hook_send (u\<lparr>input := []\<rparr>) v)"
    using u assms(3) by (simp add: form_submit_eq is_loading_def)
  moreover have "length (messages s) \<le> length (messages u)"
    using arg_cong [OF pre, of length] by (simp add: min_def split: if_splits)
  ultimately show ?thesis using run pre
    by (intro exI [of _ es]) (auto simp: page_run_append hook_send_def)
qed

theorem page_can_send_again_witness:
  "let t = the (page_run page_init [EvType ''Hi'', EvClick, EvResponseStart [], EvDelta ''Hello'']) in
   reachable_page t \<and> error t = None \<and> js_trim ''Again'' \<noteq> [] \<and>
   (\<exists>es u. page_run t (es @ [EvType ''Again'', EvClick]) = Some u \<and>
      take (length (messages t)) (messages u) = messages t \<and>
      msg_role (last (messages u)) = RoleUser \<and> msg_parts (last (messages u)) = [TextUIPart ''Again''] \<and>
      status u = Submitted)"
proof -
  have nn: "page_run page_init [EvType ''Hi'', EvClick, EvResponseStart [], EvDelta ''Hello''] \<noteq> None"
    by (simp add: page_eval_simps)
  have reach: "reachable_page (the (page_run page_init [EvType ''Hi'', EvClick, EvResponseStart [], EvDelta ''Hello'']))"
    by (rule reachable_page_run_the [OF nn])
  have h: "error (the (page_run page_init [EvType ''Hi'', EvClick, EvResponseStart [], EvDelta ''Hello''])) = None"
    "js_trim ''Again'' \<noteq> []"
    by (simp_all add: page_eval_simps)
  from page_can_send_again [OF reach h] reach h show ?thesis by (simp only: Let_def simp_thms)
qed

end
