(* ===== verification/Spec2Isabelle.thy ===== *)
theory Spec2Isabelle
  imports Controller_Properties PassThrough Route ChatPage
begin

text \<open>
  \<^bold>\<open>A verification development of the stream-natural-text middleware.\<close>

  The program (\<open>src/packages/ai/src/middleware/stream-natural-text/\<close>) wraps a
  reasoning model's token stream: \<open>streamNaturalTextMiddleware\<close>
  (\<open>stream-natural-text-middleware.ts\<close>) injects a system prompt that asks the
  reasoning model to wrap each thought in \<open>[bt]\<dots>[et]\<close>, and wraps the returned
  stream with \<open>NaturalResponseProcessor.processStream\<close>
  (\<open>natural-response-processor.ts\<close>).  The processor emits an immediate
  response from a small delivery model, then runs two tasks on one dialogue
  state: \<open>consumeGPT4Thoughts\<close> cuts thoughts out of the reasoning stream, and
  \<open>runSmolLMGeneration\<close> polls for new thoughts, asks the delivery model for one
  sentence per thought (\<open>generateResponseForLatestThought\<close>,
  \<open>callSmolLMForSentence\<close>) and streams it word by word
  (\<open>streamSentenceTokens\<close>); then it closes the outward stream and reports
  metrics.  The web app's route \<open>POST /api/chat\<close> builds the wrapped model,
  and its chat page sends the user's messages through the SDK's chat hook and
  renders the streamed text.

  \<^bold>\<open>Theories.\<close>
  \<^item> \<open>Prelude\<close>: the JavaScript string primitives the code calls
    (\<open>indexOf\<close>, \<open>includes\<close>, \<open>substring\<close>, \<open>trim\<close>, \<open>split\<close>, \<open>join\<close>,
    \<open>endsWith\<close>) over \<open>string\<close>, restricted to code units below 256, and the
    lemmas on them that the components share.
  \<^item> \<open>ThoughtExtractor\<close>: \<open>consumeGPT4Thoughts\<close> (lines 224--280).  Its inner
    loop is \<open>extract_loop\<close>, a \<^theory_text>\<open>partial_function (option)\<close>, since it can
    spin; one read is \<open>consume_part\<close>, the whole stream \<open>consume_parts\<close>.
    \<open>extract_spec\<close> is the spec's algorithm (section 4.1), total by a length
    measure.  Proved: the loop computes \<open>extract_spec\<close> or never returns
    (\<open>extract_loop_eq_spec\<close>); chunk boundaries do not change the result
    (\<open>extract_spec_append\<close>); claims C1--C3.
  \<^item> \<open>Delivery\<close>: the configuration (\<open>types.ts\<close>), the prompts of
    \<open>emitImmediateResponse\<close> and \<open>generateResponseForLatestThought\<close>
    (\<open>build_prompt\<close>, with \<open>js_index\<close> for JavaScript's out-of-range
    \<open>undefined\<close>), the request and the result of \<open>callSmolLMForSentence\<close>
    (\<open>build_request\<close>, \<open>call_result\<close> over an \<open>http_outcome\<close>, errors as
    \<open>Inl\<close>), and the clean-up chain of regular expressions
    (\<open>clean_response\<close>); claims C4--C7.
  \<^item> \<open>Pacing\<close>: \<open>streamSentenceTokens\<close> over a model of the stream controller
    (a queue of fragments and a status \<open>Readable | Closed | Errored\<close>;
    \<open>enqueue\<close> throws unless readable, \<open>desiredSize\<close> is null only when
    errored); claims C9--C11.
  \<^item> \<open>Controller\<close>: one turn of \<open>NaturalResponseProcessor\<close> as a record
    \<open>turn\<close> (the processor's fields, the generation loop's locals and program
    point \<open>gen_pc\<close>, the consumer's buffer and remaining parts, the outward
    controller, the metrics log).  Each operation is the code between two
    \<open>await\<close>s: \<open>immediate_response\<close> (which also starts the consumer and runs
    the generation loop's first top), \<open>consumer_read\<close>, the loop's resumption after
    its delay (\<open>gen_continue\<close>: the stop test, then the next loop top
    \<open>gen_top\<close>), \<open>gen_reply\<close> (the rest of an iteration after the delivery
    call, up to the next top), \<open>finish_turn\<close>, \<open>fail_turn\<close> (the \<open>catch\<close> of
    \<open>processStream\<close>) and the client's \<open>cancel\<close>.  The loop is suspended only
    where the code awaits (\<open>GenDelay\<close> after an idle wait, \<open>GenAwaitReply\<close>
    during a delivery call), so no read of the reasoning stream can fall between
    a loop top and the stop test, as in JavaScript's single-threaded scheduling.  \<open>step\<close> runs one of them
    for an \<open>event\<close> that carries the environment's choices (which task runs, the
    delivery server's reply as a function of the request, a cancel); \<open>run\<close>
    folds a list of events; \<open>reachable\<close> is inductive.  \<open>turn_inv\<close> is the
    invariant, in five parts, with one preservation lemma per operation and
    \<open>reachable_turn_inv\<close> by rule induction.
  \<^item> \<open>Controller_Properties\<close>: claims C8, C12--C22, C26 and C27 on reachable states and runs,
    with a lexicographic progress measure \<open>turn_progress\<close>; each witness runs a
    concrete turn and evaluates it by \<open>simp\<close> (\<open>turn_eval_simps\<close>).
  \<^item> \<open>Middleware\<close>: \<open>transformParams\<close> over an extensible record of call
    options and \<open>wrapStream\<close>, whose turn is \<open>Controller.turn_init\<close>; claims
    C23 and C24.
  \<^item> \<open>PassThrough\<close>: the \<open>pump\<close> of \<open>simpleTransformMiddleware\<close> and the
    identity \<open>testStreamMiddleware\<close>; claim C25.
  \<^item> \<open>Route\<close>: \<open>POST\<close> of \<open>src/apps/web/app/api/chat/route.ts\<close> (its checks in
    source order, its 500 responses) and the configuration of
    \<open>createNaturalTextModel\<close>, and the 500 body \<open>error_response_body\<close>;
    claim C35.
  \<^item> \<open>Json\<close>: \<open>JSON.stringify\<close> on a string (\<open>json_quote\<close>, the JavaScript
    builtin the route's error body uses) and a reference decoder of JSON string
    literals (\<open>json_unquote\<close>), with the round trip
    \<open>json_unquote_quote\<close>.
  \<^item> \<open>ChatUI\<close>: the client components \<open>Message\<close> (\<open>message_render\<close>),
    \<open>MessageList\<close> (\<open>message_content\<close>, \<open>message_list\<close>) and
    \<open>ChatInput\<close> (\<open>handle_key_down\<close>, \<open>handle_form_submit\<close>,
    \<open>chat_input_render\<close>), each a function from its props and state to the
    values it renders or the action it takes.
  \<^item> \<open>ChatPage\<close>: \<open>ChatPage\<close> over the chat hook's state (record \<open>page\<close>:
    messages, status, error, and \<open>ChatInput\<close>'s input).  The hook
    (\<open>useChat\<close> with \<open>TextStreamChatTransport\<close>) is library code; its
    reactions (\<open>hook_send\<close>, \<open>hook_response_start\<close>, \<open>hook_text_delta\<close>,
    \<open>hook_finish\<close>, \<open>hook_fail\<close>) are modelled from its documented behaviour
    as the environment of the page.  \<open>page_step\<close> runs one user event (an event
    on a disabled control cannot happen) or one event of the response stream;
    \<open>reachable_page\<close> is inductive and \<open>page_inv\<close> its invariant, one
    preservation lemma per event; claims C29--C34.
  \<^item> This theory: the properties that span the route, the middleware, the
    controller and the chat page (C28, C36).

  \<^bold>\<open>Claims.\<close>
  \<^item> Extractor: the consumer computes the spec's thoughts whatever the chunking
    (C1), returns exactly when no prefix leaves both markers in the buffer, so it
    hangs on some chunkings (C2), and yields trimmed non-empty thoughts (C3).
  \<^item> Delivery: the prompt window (C4), the clean-up on plain text (C5), which
    replies are errors and that every success is trimmed, a 2xx reply without
    content being a success (C6), the endpoint URL (C7).
  \<^item> A client cancel freezes the outward stream and dooms the turn to fail (C8).
  \<^item> Pacing: fragments and ids of a sentence (C9), the text the consumer
    rebuilds, blank pieces of the split dropped (C10), enqueue after a cancel
    (C11).
  \<^item> Controller: counters bounded (C12); every prompt in range and in pairing
    form (C13); the outward queue is the immediate output followed by each
    response's fragments under ids 1, 2, \<dots> (C14); exactly one final metrics
    report once the turn is over (C15); nothing changes after the end (C16); a
    failing server with a pending thought makes the loop run for ever (C17);
    with cooperative events (every delivery reply a non-blank success) no run is
    infinite, and a run that cannot go on has ended the turn or is stuck in the
    spinning extractor of C2 (C18); with no new thought the loop ends within 101
    polls (C19); thoughts arriving during a reply are counted as handled (C20);
    the immediate response's branches (C21); the user input (C22); the dialogue
    state and the outward stream only grow, and the consumer never writes the
    outward stream (C26); every fragment has a non-empty delta and an id in
    1..1005 (C27).
  \<^item> Middleware: the prompt injection (C23), which never changes the user input
    (C24).
  \<^item> The pass-through middlewares deliver the model's parts unchanged (C25).
  \<^item> End to end: a request the route accepts starts, through
    \<open>transformParams\<close> and \<open>wrapStream\<close>, a turn whose first step streams the
    words of a non-blank immediate reply, with the user's question and the route's
    endpoint and temperature (C28).
  \<^item> Chat page: a user event adds a message only by sending the typed text,
    untrimmed, with no error, no request in flight and a non-blank input (C29);
    every rendered \<open>Message\<close> gets a role of its declared type and only an empty
    trailing placeholder streams (C30); the conversation alternates user and
    assistant and the error banner shows exactly in the error status (C31); after
    any error no event is possible, so the chat stays locked until a reload (C32);
    Enter without Shift acts as the send button (C33); without an error the page
    can always complete the pending response and send again (C34).
  \<^item> Route errors: every refusal is a 500 whose JSON body reads back as the
    thrown message (C35).
  \<^item> End to end, server to reader: for any chunking of a reachable turn's outward
    text, the page's new assistant message shows the immediate fragments followed
    by each generated response's words, space-separated (C36).

  \<^bold>\<open>Bounds and fuel.\<close>  No fuel is used.  The extraction loop may not return,
  so it is a \<^theory_text>\<open>partial_function (option)\<close> and C2 states exactly when it
  returns.  The generation loop's bounds are the code's own: 100 idle polls
  (\<open>waitCount < 100\<close>), 5 responses, 500 characters of joined responses.  A turn
  is a set of runs rather than one function, so its termination is stated over
  runs: with cooperative events every step decreases the well-founded measure
  \<open>turn_progress\<close>, so no such run is infinite, and a maximal one stops with the
  turn over or the extractor spinning (C18); its non-termination on a failing
  server is an infinite run (C17).  Counters are \<open>nat\<close>: they stay far below
  any JavaScript number limit.

  \<^bold>\<open>Abstractions.\<close>  Times (\<open>startTime\<close>, \<open>firstResponseTime\<close>) are reduced to
  whether the first response time was recorded; \<open>delay\<close> and logging change no
  modelled state.  A sentence is streamed in one step.  In the code a cancel
  can fall between two of its words (the 30 ms delays); a cancelled stream's
  \<open>desiredSize\<close> is 0, not null, so the next word's \<open>enqueue\<close> throws and
  the turn fails in mid-sentence.  In the model the cancel falls before or after
  the whole sentence, and the failure comes at the next \<open>enqueue\<close>: the
  responses and the final metrics are the same, and the client, which stopped
  reading at the cancel, has read a prefix of the queue either way; only the
  queue's unread tail may hold more of the sentence in the model.  The metrics
  report's \<open>thoughts\<close> field is the live array of the turn (line 445), so the
  recorded event keeps only the values the report copies.  The delivery server and the reasoning stream are the environment:
  any reply, any list of parts ending normally or with an error.

  The chat hook is the page's environment: its reactions follow the SDK's
  documented behaviour, and the response stream's events come in any order the
  hook's status allows.  DOM rendering is reduced to the values the components
  compute (alignment, avatar, text, cursor, disabled flags), not class strings.

  \<^bold>\<open>Not modelled.\<close>  The landing page (\<open>src/apps/web/app/page.tsx\<close>) is static
  markup with a link to \<open>/chat\<close>.  \<open>MessageList\<close>'s auto-scroll effect
  depends only on the DOM's layout, and console logging changes no state.
  \<open>index.ts\<close> only re-exports.  \<open>quick-demo.js\<close> and \<open>test_middleware.js\<close>
  are scripts that print a stream; the second cannot run, since the module it
  requires does not exist.  Of the route, the SDK calls
  (\<open>convertToModelMessages\<close>, \<open>wrapLanguageModel\<close>, \<open>streamText\<close>, the
  response encoding) are library code; the route's messages reach the turn as
  they are, \<open>convertToModelMessages\<close> being taken as the identity on the
  modelled message shapes (a user message of text parts).  The source lines the map leaves out are
  these, plus imports, comments and JSX markup: nothing else of the program
  remains to be modelled.
\<close>


text \<open>
  C28.  From request to first words: when \<open>POST\<close> accepts a message array and
  starts the stream, \<open>wrapStream\<close> on the options \<open>transformParams\<close> produced
  starts a turn whose first step, given a non-blank reply to the immediate
  prompt, streams that reply's words as the first fragments, under the last user
  message of the request and with the endpoint and temperature the route
  configured.
\<close>

theorem request_first_words:
  assumes "route_post (JsonBody (MessagesArray msgs)) env = StreamResponse cfg prompt"
    and "snd (wrap_stream cfg (transform_params \<lparr>call_prompt = prompt\<rparr>) (Inr (parts, ending))) = Inr t"
    and "call_smollm srv cfg (immediate_prompt (extract_user_input msgs)) = Inr x" "js_trim x \<noteq> []"
  shows "\<exists>u. step t (EvImmediate srv) = Some u \<and> phase u = Concurrent \<and>
           ctl_queue (ctl u) = sentence_fragments x 1 \<and> user_input u = extract_user_input msgs \<and>
           Some (huggingface_endpoint_url (config u)) = huggingface_endpoint_url_env env \<and>
           temperature (config u) = Some (7 / 10)"
proof -
  from assms(1) have p: "prompt = msgs" "cfg = route_config env"
    "\<not> env_missing (huggingface_endpoint_url_env env)"
    by (auto simp: route_post_def split: if_splits)
  from assms(2) have "t = turn_init cfg prompt parts ending"
    using turn_init_transform [of cfg "\<lparr>call_prompt = prompt\<rparr>"] by (simp add: wrap_stream_def)
  with p have t: "t = turn_init (route_config env) msgs parts ending" by simp
  have "x \<noteq> []" using assms(4) by auto
  with t p assms(3,4) show ?thesis
    by (simp add: turn_init_def reset_def immediate_response_def stream_sentence_tokens_status
        start_concurrent_def
        route_config_def env_missing_def)
qed

theorem request_first_words_witness:
  "route_post (JsonBody (MessagesArray [UserMessage [TextPart ''Hi'']])) \<lparr>openai_api_key = Some ''sk'', huggingface_endpoint_url_env = Some ''http://h'', huggingface_api_key_env = Some ''hf''\<rparr> = StreamResponse (route_config \<lparr>openai_api_key = Some ''sk'', huggingface_endpoint_url_env = Some ''http://h'', huggingface_api_key_env = Some ''hf''\<rparr>) [UserMessage [TextPart ''Hi'']] \<and>
   snd (wrap_stream (route_config \<lparr>openai_api_key = Some ''sk'', huggingface_endpoint_url_env = Some ''http://h'', huggingface_api_key_env = Some ''hf''\<rparr>) (transform_params \<lparr>call_prompt = [UserMessage [TextPart ''Hi'']]\<rparr>) (Inr ([], EndDone))) = Inr (turn_init (route_config \<lparr>openai_api_key = Some ''sk'', huggingface_endpoint_url_env = Some ''http://h'', huggingface_api_key_env = Some ''hf''\<rparr>) [UserMessage [TextPart ''Hi'']] [] EndDone) \<and>
   call_smollm (\<lambda>_. HttpReply 200 (Some (TextContent ''Ok''))) (route_config \<lparr>openai_api_key = Some ''sk'', huggingface_endpoint_url_env = Some ''http://h'', huggingface_api_key_env = Some ''hf''\<rparr>) (immediate_prompt (extract_user_input [UserMessage [TextPart ''Hi'']])) = Inr ''Ok'' \<and>
   js_trim ''Ok'' \<noteq> [] \<and>
   (\<exists>u. step (turn_init (route_config \<lparr>openai_api_key = Some ''sk'', huggingface_endpoint_url_env = Some ''http://h'', huggingface_api_key_env = Some ''hf''\<rparr>) [UserMessage [TextPart ''Hi'']] [] EndDone) (EvImmediate (\<lambda>_. HttpReply 200 (Some (TextContent ''Ok'')))) = Some u \<and> phase u = Concurrent \<and>
     ctl_queue (ctl u) = sentence_fragments ''Ok'' 1 \<and> user_input u = extract_user_input [UserMessage [TextPart ''Hi'']] \<and>
     Some (huggingface_endpoint_url (config u)) = huggingface_endpoint_url_env \<lparr>openai_api_key = Some ''sk'', huggingface_endpoint_url_env = Some ''http://h'', huggingface_api_key_env = Some ''hf''\<rparr> \<and>
     temperature (config u) = Some (7 / 10))"
proof -
  have h: "route_post (JsonBody (MessagesArray [UserMessage [TextPart ''Hi'']])) \<lparr>openai_api_key = Some ''sk'', huggingface_endpoint_url_env = Some ''http://h'', huggingface_api_key_env = Some ''hf''\<rparr> = StreamResponse (route_config \<lparr>openai_api_key = Some ''sk'', huggingface_endpoint_url_env = Some ''http://h'', huggingface_api_key_env = Some ''hf''\<rparr>) [UserMessage [TextPart ''Hi'']]"
    by (simp add: route_post_def env_missing_def)
  have h2: "snd (wrap_stream (route_config \<lparr>openai_api_key = Some ''sk'', huggingface_endpoint_url_env = Some ''http://h'', huggingface_api_key_env = Some ''hf''\<rparr>) (transform_params \<lparr>call_prompt = [UserMessage [TextPart ''Hi'']]\<rparr>) (Inr ([], EndDone))) = Inr (turn_init (route_config \<lparr>openai_api_key = Some ''sk'', huggingface_endpoint_url_env = Some ''http://h'', huggingface_api_key_env = Some ''hf''\<rparr>) [UserMessage [TextPart ''Hi'']] [] EndDone)"
    by (simp add: wrap_stream_def turn_init_transform)
  have h3: "call_smollm (\<lambda>_. HttpReply 200 (Some (TextContent ''Ok''))) (route_config \<lparr>openai_api_key = Some ''sk'', huggingface_endpoint_url_env = Some ''http://h'', huggingface_api_key_env = Some ''hf''\<rparr>) (immediate_prompt (extract_user_input [UserMessage [TextPart ''Hi'']])) = Inr ''Ok''"
    by (simp add: turn_eval_simps route_config_def)
  have h4: "js_trim ''Ok'' \<noteq> []"
    by (simp add: turn_eval_simps)
  from request_first_words [OF h h2 h3 h4] h h2 h3 h4 show ?thesis by blast
qed


text \<open>
  C36.  What the reader sees is what the turn emitted: for every reachable turn and
  every chunking of its outward text by the transport, a chat page awaiting the
  reply ends, once the stream finishes, ready and with one new assistant message
  whose text is the immediate response's fragments followed, in order, by each
  generated response's words joined by single spaces, each followed by a space.
\<close>

theorem turn_text_displayed:
  assumes "reachable t" "status p = Submitted"
    and "concat ds = emitted_text (ctl t)"
  shows "\<exists>fs q. ctl_queue (ctl t) = fs @ response_fragments 1 (responses t) \<and>
           list_all imm_fragment_ok fs \<and>
           page_run p (EvResponseStart ks # map EvDelta ds @ [EvFinish]) = Some q \<and>
           status q = Ready \<and> butlast (messages q) = messages p \<and>
           message_content (msg_parts (last (messages q))) =
             concat (map fragment_delta fs) @
             concat (map (\<lambda>r. join '' '' (sentence_words r) @ '' '') (responses t))"
proof -
  obtain fs where q: "ctl_queue (ctl t) = fs @ response_fragments 1 (responses t)"
    and ok: "list_all imm_fragment_ok fs"
    using turn_inv_queue_split [OF reachable_turn_inv [OF assms(1)]] by blast
  have "concat ds = concat (map fragment_delta fs) @
          concat (map (\<lambda>r. join '' '' (sentence_words r) @ '' '') (responses t))"
    using assms(3) q by (simp add: emitted_text_def response_fragments_text)
  with q ok page_response_run [OF assms(2), of ks ds] show ?thesis by simp
qed


theorem turn_text_displayed_witness:
  "reachable (the (run (turn_init \<lparr>huggingface_endpoint_url = ''http://h'', huggingface_api_key = ''k'', temperature = None, fallback_behavior = None, on_metrics_update = True\<rparr> [UserMessage [TextPart ''Hi'']] [TextDelta ''1'' ''[bt]a b[et]''] EndDone)
      [EvImmediate (\<lambda>_. HttpReply 200 (Some (TextContent ''Ok''))), EvRead, EvGenPoll, EvGenReply (\<lambda>_. HttpReply 200 (Some (TextContent ''Yes sir'')))])) \<and> status (the (page_run page_init [EvType ''Hi'', EvClick])) = Submitted \<and>
   concat [emitted_text (ctl (the (run (turn_init \<lparr>huggingface_endpoint_url = ''http://h'', huggingface_api_key = ''k'', temperature = None, fallback_behavior = None, on_metrics_update = True\<rparr> [UserMessage [TextPart ''Hi'']] [TextDelta ''1'' ''[bt]a b[et]''] EndDone)
      [EvImmediate (\<lambda>_. HttpReply 200 (Some (TextContent ''Ok''))), EvRead, EvGenPoll, EvGenReply (\<lambda>_. HttpReply 200 (Some (TextContent ''Yes sir'')))])))] = emitted_text (ctl (the (run (turn_init \<lparr>huggingface_endpoint_url = ''http://h'', huggingface_api_key = ''k'', temperature = None, fallback_behavior = None, on_metrics_update = True\<rparr> [UserMessage [TextPart ''Hi'']] [TextDelta ''1'' ''[bt]a b[et]''] EndDone)
      [EvImmediate (\<lambda>_. HttpReply 200 (Some (TextContent ''Ok''))), EvRead, EvGenPoll, EvGenReply (\<lambda>_. HttpReply 200 (Some (TextContent ''Yes sir'')))]))) \<and>
   emitted_text (ctl (the (run (turn_init \<lparr>huggingface_endpoint_url = ''http://h'', huggingface_api_key = ''k'', temperature = None, fallback_behavior = None, on_metrics_update = True\<rparr> [UserMessage [TextPart ''Hi'']] [TextDelta ''1'' ''[bt]a b[et]''] EndDone)
      [EvImmediate (\<lambda>_. HttpReply 200 (Some (TextContent ''Ok''))), EvRead, EvGenPoll, EvGenReply (\<lambda>_. HttpReply 200 (Some (TextContent ''Yes sir'')))]))) = ''Ok Yes sir '' \<and>
   (\<exists>fs q. ctl_queue (ctl (the (run (turn_init \<lparr>huggingface_endpoint_url = ''http://h'', huggingface_api_key = ''k'', temperature = None, fallback_behavior = None, on_metrics_update = True\<rparr> [UserMessage [TextPart ''Hi'']] [TextDelta ''1'' ''[bt]a b[et]''] EndDone)
      [EvImmediate (\<lambda>_. HttpReply 200 (Some (TextContent ''Ok''))), EvRead, EvGenPoll, EvGenReply (\<lambda>_. HttpReply 200 (Some (TextContent ''Yes sir'')))]))) = fs @ response_fragments 1 (responses (the (run (turn_init \<lparr>huggingface_endpoint_url = ''http://h'', huggingface_api_key = ''k'', temperature = None, fallback_behavior = None, on_metrics_update = True\<rparr> [UserMessage [TextPart ''Hi'']] [TextDelta ''1'' ''[bt]a b[et]''] EndDone)
      [EvImmediate (\<lambda>_. HttpReply 200 (Some (TextContent ''Ok''))), EvRead, EvGenPoll, EvGenReply (\<lambda>_. HttpReply 200 (Some (TextContent ''Yes sir'')))]))) \<and>
      list_all imm_fragment_ok fs \<and>
      page_run (the (page_run page_init [EvType ''Hi'', EvClick])) (EvResponseStart [] # map EvDelta [emitted_text (ctl (the (run (turn_init \<lparr>huggingface_endpoint_url = ''http://h'', huggingface_api_key = ''k'', temperature = None, fallback_behavior = None, on_metrics_update = True\<rparr> [UserMessage [TextPart ''Hi'']] [TextDelta ''1'' ''[bt]a b[et]''] EndDone)
      [EvImmediate (\<lambda>_. HttpReply 200 (Some (TextContent ''Ok''))), EvRead, EvGenPoll, EvGenReply (\<lambda>_. HttpReply 200 (Some (TextContent ''Yes sir'')))])))] @ [EvFinish]) = Some q \<and>
      status q = Ready \<and> butlast (messages q) = messages (the (page_run page_init [EvType ''Hi'', EvClick])) \<and>
      message_content (msg_parts (last (messages q))) =
        concat (map fragment_delta fs) @
        concat (map (\<lambda>r. join '' '' (sentence_words r) @ '' '') (responses (the (run (turn_init \<lparr>huggingface_endpoint_url = ''http://h'', huggingface_api_key = ''k'', temperature = None, fallback_behavior = None, on_metrics_update = True\<rparr> [UserMessage [TextPart ''Hi'']] [TextDelta ''1'' ''[bt]a b[et]''] EndDone)
      [EvImmediate (\<lambda>_. HttpReply 200 (Some (TextContent ''Ok''))), EvRead, EvGenPoll, EvGenReply (\<lambda>_. HttpReply 200 (Some (TextContent ''Yes sir'')))])))))"
proof -
  have nn: "(run (turn_init \<lparr>huggingface_endpoint_url = ''http://h'', huggingface_api_key = ''k'', temperature = None, fallback_behavior = None, on_metrics_update = True\<rparr> [UserMessage [TextPart ''Hi'']] [TextDelta ''1'' ''[bt]a b[et]''] EndDone)
      [EvImmediate (\<lambda>_. HttpReply 200 (Some (TextContent ''Ok''))), EvRead, EvGenPoll, EvGenReply (\<lambda>_. HttpReply 200 (Some (TextContent ''Yes sir'')))]) \<noteq> None"
    by (simp add: turn_eval_simps)
  have reach: "reachable (the (run (turn_init \<lparr>huggingface_endpoint_url = ''http://h'', huggingface_api_key = ''k'', temperature = None, fallback_behavior = None, on_metrics_update = True\<rparr> [UserMessage [TextPart ''Hi'']] [TextDelta ''1'' ''[bt]a b[et]''] EndDone)
      [EvImmediate (\<lambda>_. HttpReply 200 (Some (TextContent ''Ok''))), EvRead, EvGenPoll, EvGenReply (\<lambda>_. HttpReply 200 (Some (TextContent ''Yes sir'')))]))"
    by (rule reachable_run_the [OF nn reachable.init])
  have h: "status (the (page_run page_init [EvType ''Hi'', EvClick])) = Submitted" "concat [emitted_text (ctl (the (run (turn_init \<lparr>huggingface_endpoint_url = ''http://h'', huggingface_api_key = ''k'', temperature = None, fallback_behavior = None, on_metrics_update = True\<rparr> [UserMessage [TextPart ''Hi'']] [TextDelta ''1'' ''[bt]a b[et]''] EndDone)
      [EvImmediate (\<lambda>_. HttpReply 200 (Some (TextContent ''Ok''))), EvRead, EvGenPoll, EvGenReply (\<lambda>_. HttpReply 200 (Some (TextContent ''Yes sir'')))])))] = emitted_text (ctl (the (run (turn_init \<lparr>huggingface_endpoint_url = ''http://h'', huggingface_api_key = ''k'', temperature = None, fallback_behavior = None, on_metrics_update = True\<rparr> [UserMessage [TextPart ''Hi'']] [TextDelta ''1'' ''[bt]a b[et]''] EndDone)
      [EvImmediate (\<lambda>_. HttpReply 200 (Some (TextContent ''Ok''))), EvRead, EvGenPoll, EvGenReply (\<lambda>_. HttpReply 200 (Some (TextContent ''Yes sir'')))])))"
    by (simp_all add: page_eval_simps)
  have e: "emitted_text (ctl (the (run (turn_init \<lparr>huggingface_endpoint_url = ''http://h'', huggingface_api_key = ''k'', temperature = None, fallback_behavior = None, on_metrics_update = True\<rparr> [UserMessage [TextPart ''Hi'']] [TextDelta ''1'' ''[bt]a b[et]''] EndDone)
      [EvImmediate (\<lambda>_. HttpReply 200 (Some (TextContent ''Ok''))), EvRead, EvGenPoll, EvGenReply (\<lambda>_. HttpReply 200 (Some (TextContent ''Yes sir'')))]))) = ''Ok Yes sir ''"
    by (simp add: turn_eval_simps emitted_text_def fragment_delta_def)
  from turn_text_displayed [OF reach h] reach h e show ?thesis by (simp only: simp_thms)
qed

end
